(* ===== verification/Prelude.thy ===== *)
theory Prelude
  imports Main "HOL-Library.Word"
begin

text \<open>
  Shared vocabulary of the development: how Go's errors, run-time panics, maps, slices and
  the outside world (the Kubernetes API server, the clock) appear in the model, with the
  generic lemmas every component uses.

  \<^item> A Go \<open>error\<close> is a value of \<open>goerr\<close>; a function that returns \<open>(T, error)\<close>
    returns \<open>goerr + T\<close>, a function that returns only \<open>error\<close> returns \<open>goerr + unit\<close>.
  \<^item> A Go run-time panic (nil dereference, index or slice bounds out of range) is the
    outcome \<open>Panic\<close> of the type \<open>gores\<close>.
  \<^item> Code that talks to the API server or reads the clock is an \<open>act\<close>: a function from
    the world to an outcome and the next world. The world is a type parameter.
  \<^item> Go maps with string keys are partial functions; reading a missing key gives the
    zero value (\<open>map_get\<close>). A nil map and an empty map are the same value.
\<close>

named_theorems act_simps \<open>equations that run the action combinators\<close>

subsection \<open>Errors and outcomes\<close>

datatype goerr =
    NotFound string    \<comment> \<open>an API error for which \<open>errors.IsNotFound\<close> holds\<close>
  | ApiErr string      \<comment> \<open>any other error of a library or of the API server\<close>
  | Errorf string      \<comment> \<open>an error built by this program with \<open>fmt.Errorf\<close>\<close>

fun err_text :: "goerr \<Rightarrow> string" where
  "err_text (NotFound s) = s"
| "err_text (ApiErr s) = s"
| "err_text (Errorf s) = s"

fun is_not_found :: "goerr \<Rightarrow> bool" where
  "is_not_found (NotFound _) = True"
| "is_not_found _ = False"

datatype 'a gores = Ret 'a | Panic

fun rbind :: "'a gores \<Rightarrow> ('a \<Rightarrow> 'b gores) \<Rightarrow> 'b gores" where
  "rbind (Ret x) f = f x"
| "rbind Panic f = Panic"

lemma rbind_eq_Ret: "rbind m f = Ret y \<longleftrightarrow> (\<exists>x. m = Ret x \<and> f x = Ret y)"
  by (cases m) auto

lemma rbind_eq_Panic: "rbind m f = Panic \<longleftrightarrow> m = Panic \<or> (\<exists>x. m = Ret x \<and> f x = Panic)"
  by (cases m) auto

subsection \<open>Actions on the world\<close>

type_synonym ('w, 'a) act = "'w \<Rightarrow> 'a gores \<times> 'w"

definition aret :: "'a \<Rightarrow> ('w, 'a) act" where
  "aret x = (\<lambda>w. (Ret x, w))"

definition abind :: "('w, 'a) act \<Rightarrow> ('a \<Rightarrow> ('w, 'b) act) \<Rightarrow> ('w, 'b) act" where
  "abind m f = (\<lambda>w. case m w of (Ret x, w') \<Rightarrow> f x w' | (Panic, w') \<Rightarrow> (Panic, w'))"

text \<open>A pure computation that may panic, and a call of the outside world.\<close>

definition alift :: "'a gores \<Rightarrow> ('w, 'a) act" where
  "alift r = (\<lambda>w. (r, w))"

definition acall :: "('w \<Rightarrow> 'a \<times> 'w) \<Rightarrow> ('w, 'a) act" where
  "acall f = (\<lambda>w. case f w of (x, w') \<Rightarrow> (Ret x, w'))"

definition ado :: "('w \<Rightarrow> 'w) \<Rightarrow> ('w, unit) act" where
  "ado f = (\<lambda>w. (Ret (), f w))"

text \<open>\<open>if err != nil { return err }\<close> after a call.\<close>

definition atry :: "('w, 'e + 'a) act \<Rightarrow> ('a \<Rightarrow> ('w, 'e + 'b) act) \<Rightarrow> ('w, 'e + 'b) act" where
  "atry m f = abind m (\<lambda>r. case r of Inl e \<Rightarrow> aret (Inl e) | Inr x \<Rightarrow> f x)"

lemma aret_run [act_simps]: "aret x w = (Ret x, w)"
  by (simp add: aret_def)

lemma alift_run [act_simps]: "alift r w = (r, w)"
  by (simp add: alift_def)

lemma ado_run [act_simps]: "ado f w = (Ret (), f w)"
  by (simp add: ado_def)

lemma acall_run [act_simps]: "acall f w = (Ret (fst (f w)), snd (f w))"
  by (simp add: acall_def split: prod.split)

lemma abind_run [act_simps]:
  "abind m f w = (case fst (m w) of Ret x \<Rightarrow> f x (snd (m w)) | Panic \<Rightarrow> (Panic, snd (m w)))"
  by (simp add: abind_def split: prod.split gores.split)

lemma atry_run [act_simps]:
  "atry m f w = (case fst (m w) of
     Ret (Inl e) \<Rightarrow> (Ret (Inl e), snd (m w))
   | Ret (Inr x) \<Rightarrow> f x (snd (m w))
   | Panic \<Rightarrow> (Panic, snd (m w)))"
  by (simp add: atry_def abind_run aret_run split: gores.split sum.split)

lemma abind_aret: "abind (aret x) f = f x"
  by (simp add: fun_eq_iff act_simps)

lemma abind_assoc: "abind (abind m f) g = abind m (\<lambda>x. abind (f x) g)"
  by (simp add: fun_eq_iff act_simps split: gores.split)

subsection \<open>Maps with string keys\<close>

type_synonym smap = "string \<rightharpoonup> string"

definition map_get :: "('k \<rightharpoonup> string) \<Rightarrow> 'k \<Rightarrow> string" where
  "map_get m k = (case m k of None \<Rightarrow> [] | Some v \<Rightarrow> v)"

definition map_delete :: "('k \<rightharpoonup> 'v) \<Rightarrow> 'k \<Rightarrow> ('k \<rightharpoonup> 'v)" where
  "map_delete m k = m(k := None)"

lemma map_get_upd [simp]: "map_get (m(k \<mapsto> v)) k' = (if k' = k then v else map_get m k')"
  by (simp add: map_get_def)

lemma map_get_Some [simp]: "m k = Some v \<Longrightarrow> map_get m k = v"
  by (simp add: map_get_def)

lemma map_get_None [simp]: "m k = None \<Longrightarrow> map_get m k = []"
  by (simp add: map_get_def)

lemma map_delete_apply [simp]: "map_delete m k k' = (if k' = k then None else m k')"
  by (simp add: map_delete_def)

text \<open>Label selectors: \<open>m\<close> carries every pair of \<open>sel\<close>.\<close>

definition selects :: "smap \<Rightarrow> smap \<Rightarrow> bool" where
  "selects sel m \<longleftrightarrow> sel \<subseteq>\<^sub>m m"

subsection \<open>Strings\<close>

text \<open>\<open>strings.Join\<close>.\<close>

fun strings_join :: "string list \<Rightarrow> string \<Rightarrow> string" where
  "strings_join [] sep = []"
| "strings_join [s] sep = s"
| "strings_join (s # t # ss) sep = s @ sep @ strings_join (t # ss) sep"

subsection \<open>Slices\<close>

text \<open>
  A slice over a backing array: the array's elements from the slice's start and the slice's
  length. Two slice headers may share one backing array, so an in-place deletion through one
  is seen by a loop that still ranges over the other.
\<close>

type_synonym 'a slice = "'a list \<times> nat"

definition slice_view :: "'a slice \<Rightarrow> 'a list" where
  "slice_view s = take (snd s) (fst s)"

definition slice_of :: "'a list \<Rightarrow> 'a slice" where
  "slice_of xs = (xs, length xs)"

text \<open>
  \<open>append(s[:i], s[i+1:]...)\<close>: the elements after \<open>i\<close> move one place to the left in
  the backing array and the last cell keeps its old content. \<open>s[i+1:]\<close> panics when
  \<open>i + 1\<close> exceeds the length of \<open>s\<close>.
\<close>

definition slice_del :: "nat \<Rightarrow> 'a slice \<Rightarrow> 'a slice gores" where
  "slice_del i s =
     (let (arr, n) = s in
      if n < Suc i then Panic
      else Ret (take i arr @ drop (Suc i) (take n arr) @ drop (n - 1) arr, n - 1))"

definition remove_at :: "nat \<Rightarrow> 'a list \<Rightarrow> 'a list" where
  "remove_at i xs = take i xs @ drop (Suc i) xs"

lemma slice_view_slice_of [simp]: "slice_view (slice_of xs) = xs"
  by (simp add: slice_view_def slice_of_def)

lemma length_slice_of [simp]: "snd (slice_of xs) = length xs" "fst (slice_of xs) = xs"
  by (simp_all add: slice_of_def)

lemma slice_del_view:
  assumes "slice_del i s = Ret s'" and "snd s \<le> length (fst s)"
  shows "slice_view s' = remove_at i (slice_view s)" and "length (fst s') = length (fst s)"
    and "snd s' = snd s - 1" and "i < snd s"
  using assms
  by (auto simp: slice_del_def slice_view_def remove_at_def Let_def drop_take
      split: prod.splits if_splits)

lemma length_remove_at: "i < length xs \<Longrightarrow> length (remove_at i xs) = length xs - 1"
  by (simp add: remove_at_def)

lemma set_remove_at_subset: "set (remove_at i xs) \<subseteq> set xs"
  by (auto simp: remove_at_def dest: in_set_takeD in_set_dropD)

lemma remove_at_split: "i < length xs \<Longrightarrow> xs = take i xs @ xs ! i # drop (Suc i) xs"
  by (simp add: id_take_nth_drop)

lemma filter_remove_at:
  assumes "i < length xs" and "\<not> P (xs ! i)"
  shows "filter P (remove_at i xs) = filter P xs"
proof -
  have "filter P xs = filter P (take i xs @ xs ! i # drop (Suc i) xs)"
    using remove_at_split [OF assms(1)] by simp
  then show ?thesis using assms(2) by (simp add: remove_at_def)
qed

subsection \<open>The contract of the loops that stop at the first error\<close>

text \<open>
  The shape of most handler loops: each iteration runs \<open>step\<close> on the next element and on the
  value threaded through the loop, and an error ends the loop at once.
\<close>

locale abort_loop =
  fixes step :: "'p \<Rightarrow> 's \<Rightarrow> ('w, 'e + 's) act"
    and loop :: "'p list \<Rightarrow> 's \<Rightarrow> ('w, 'e + 's) act"
  assumes loop_Nil: "loop [] s = aret (Inr s)"
    and loop_Cons: "loop (p # ps) s = atry (step p s) (\<lambda>s'. loop ps s')"
begin

lemma loop_ConsE:
  assumes "loop (p # ps) s w = (Ret (Inr s'), w')"
  obtains s1 w1 where "step p s w = (Ret (Inr s1), w1)" and "loop ps s1 w1 = (Ret (Inr s'), w')"
proof (cases "step p s w")
  case (Pair r w1)
  with assms show thesis
    by (cases r) (auto simp: loop_Cons act_simps split: sum.splits intro: that)
qed

lemma loop_Cons_Inr:
  "step p s w = (Ret (Inr s1), w1) \<Longrightarrow> loop (p # ps) s w = loop ps s1 w1"
  by (simp add: loop_Cons act_simps)

lemma loop_Cons_Inl:
  "step p s w = (Ret (Inl e), w1) \<Longrightarrow> loop (p # ps) s w = (Ret (Inl e), w1)"
  by (simp add: loop_Cons act_simps)

lemma loop_Cons_Panic:
  "step p s w = (Panic, w1) \<Longrightarrow> loop (p # ps) s w = (Panic, w1)"
  by (simp add: loop_Cons act_simps)

text \<open>What every step keeps, the loop keeps, however it ends.\<close>

lemma loop_invariant:
  assumes "\<And>p s w. p \<in> set ps \<Longrightarrow> I w \<Longrightarrow> I (snd (step p s w))" and "I w"
  shows "I (snd (loop ps s w))"
  using assms
proof (induction ps arbitrary: s w)
  case Nil
  then show ?case by (simp add: loop_Nil act_simps)
next
  case (Cons p ps)
  have I1: "I (snd (step p s w))" using Cons.prems by simp
  have rest: "I (snd (loop ps s1 (snd (step p s w))))" for s1
    by (rule Cons.IH) (use Cons.prems I1 in auto)
  show ?case
    using I1 rest by (auto simp: loop_Cons act_simps split: gores.split sum.split)
qed

lemma loop_success_invariant:
  assumes "\<And>p s w s' w'. p \<in> set ps \<Longrightarrow> J s w \<Longrightarrow> step p s w = (Ret (Inr s'), w') \<Longrightarrow> J s' w'"
    and "J s w" and "loop ps s w = (Ret (Inr s'), w')"
  shows "J s' w'"
  using assms(3,2)
proof (insert assms(1), induction ps arbitrary: s w)
  case Nil
  then show ?case by (simp add: loop_Nil act_simps)
next
  case (Cons p ps)
  from Cons.prems(2) obtain s1 w1
    where step: "step p s w = (Ret (Inr s1), w1)" and loop: "loop ps s1 w1 = (Ret (Inr s'), w')"
    by (rule loop_ConsE)
  have "J s1 w1" by (rule Cons.prems(1) [OF _ Cons.prems(3) step]) simp
  show ?case
    by (rule Cons.IH [OF _ loop \<open>J s1 w1\<close>]) (rule Cons.prems(1), auto)
qed

text \<open>
  What each element's step establishes, and the steps of the others keep, holds for all
  elements once the loop has returned without error.
\<close>

lemma loop_establishes:
  assumes "distinct ps" and "I s w" and "loop ps s w = (Ret (Inr s'), w')"
    and est: "\<And>p s w s' w'. p \<in> set ps \<Longrightarrow> I s w \<Longrightarrow> step p s w = (Ret (Inr s'), w') \<Longrightarrow> I s' w' \<and> Q p w'"
    and keep: "\<And>p q s w s' w'. p \<in> set ps \<Longrightarrow> q \<in> set ps \<Longrightarrow> p \<noteq> q \<Longrightarrow> I s w \<Longrightarrow> Q p w \<Longrightarrow>
      step q s w = (Ret (Inr s'), w') \<Longrightarrow> Q p w'"
  shows "I s' w' \<and> (\<forall>p \<in> set ps. Q p w')"
  using assms(1-3)
proof (insert est keep, induction ps arbitrary: s w)
  case Nil
  then show ?case by (simp add: loop_Nil act_simps)
next
  case (Cons p ps)
  note est = Cons.prems(1) and keep = Cons.prems(2)
  from Cons.prems(5) obtain s1 w1
    where step: "step p s w = (Ret (Inr s1), w1)" and loop: "loop ps s1 w1 = (Ret (Inr s'), w')"
    by (rule loop_ConsE)
  have first: "I s1 w1 \<and> Q p w1"
    by (rule est [OF _ Cons.prems(4) step]) simp
  have "I s' w' \<and> Q p w'"
  proof (rule loop_success_invariant [where J = "\<lambda>s w. I s w \<and> Q p w", OF _ first loop])
    fix q s2 w2 s3 w3
    assume q: "q \<in> set ps" and J: "I s2 w2 \<and> Q p w2" and s: "step q s2 w2 = (Ret (Inr s3), w3)"
    have "p \<noteq> q" using q Cons.prems(3) by auto
    with q J s have "Q p w3" using keep [of p q s2 w2 s3 w3] by simp
    moreover have "I s3 w3" using est [of q s2 w2 s3 w3] q J s by simp
    ultimately show "I s3 w3 \<and> Q p w3" by simp
  qed
  moreover have "I s' w' \<and> (\<forall>q \<in> set ps. Q q w')"
  proof (rule Cons.IH [OF _ _ _ _ loop])
    show "distinct ps" "I s1 w1" using Cons.prems(3) first by simp_all
    show "I s3 w3 \<and> Q q w3" if "q \<in> set ps" "I s2 w2" "step q s2 w2 = (Ret (Inr s3), w3)"
      for q s2 w2 s3 w3
      using est [OF _ that(2,3)] that(1) by simp
    show "Q q w3" if "q \<in> set ps" "r \<in> set ps" "q \<noteq> r" "I s2 w2" "Q q w2"
        "step r s2 w2 = (Ret (Inr s3), w3)" for q r s2 w2 s3 w3
      using keep [OF _ _ that(3-6)] that(1,2) by simp
  qed
  ultimately show ?case by simp
qed

text \<open>A loop none of whose steps fails returns.\<close>

lemma loop_returns:
  assumes "I w" and "\<And>p s w. p \<in> set ps \<Longrightarrow> I w \<Longrightarrow> \<exists>s' w'. step p s w = (Ret (Inr s'), w') \<and> I w'"
  shows "\<exists>s' w'. loop ps s w = (Ret (Inr s'), w') \<and> I w'"
  using assms
proof (induction ps arbitrary: s w)
  case Nil
  then show ?case by (simp add: loop_Nil act_simps)
next
  case (Cons p ps)
  from Cons.prems(1) Cons.prems(2) [of p w s] obtain s1 w1
    where "step p s w = (Ret (Inr s1), w1)" "I w1" by auto
  with Cons.IH [of w1 s1] Cons.prems(2) show ?case by (auto simp: loop_Cons_Inr)
qed

text \<open>A loop whose steps all leave the threaded value returns it.\<close>

lemma loop_idle:
  assumes "I w" and "\<And>p w. p \<in> set ps \<Longrightarrow> I w \<Longrightarrow> \<exists>w'. step p s w = (Ret (Inr s), w') \<and> I w'"
  shows "\<exists>w'. loop ps s w = (Ret (Inr s), w') \<and> I w'"
  using assms
proof (induction ps arbitrary: w)
  case Nil
  then show ?case by (simp add: loop_Nil act_simps)
next
  case (Cons p ps)
  from Cons.prems(1) Cons.prems(2) [of p w] obtain w1
    where "step p s w = (Ret (Inr s), w1)" "I w1" by auto
  with Cons.IH [of w1] Cons.prems(2) show ?case by (auto simp: loop_Cons_Inr)
qed

end

subsection \<open>The contract of the search loops\<close>

text \<open>
  Several loops of the program look for the first element of a slice with some property and
  return its index. \<open>first_match\<close> is that contract; the theories that define such a loop
  interpret it, and the lemmas about deleting or overwriting at the index found are proved
  here once.
\<close>

locale first_match =
  fixes search :: "'a list \<Rightarrow> nat option"
    and match :: "'a \<Rightarrow> bool"
  assumes search_None: "search xs = None \<longleftrightarrow> (\<forall>x \<in> set xs. \<not> match x)"
    and search_Some: "search xs = Some i \<Longrightarrow>
      i < length xs \<and> match (xs ! i) \<and> (\<forall>j < i. \<not> match (xs ! j))"
begin

lemma search_bound: "search xs = Some i \<Longrightarrow> i < length xs"
  using search_Some by blast

lemma search_hit: "search xs = Some i \<Longrightarrow> match (xs ! i)"
  using search_Some by blast

lemma before_hit: "search xs = Some i \<Longrightarrow> filter (\<lambda>x. \<not> match x) (take i xs) = take i xs"
  using search_Some [of xs i] by (auto simp: filter_id_conv in_set_conv_nth)

lemma search_exists: "x \<in> set xs \<Longrightarrow> match x \<Longrightarrow> \<exists>i. search xs = Some i"
  using search_None [of xs] by (cases "search xs") auto

text \<open>The index found, without an index.\<close>

lemma search_before:
  assumes "search xs = Some i"
  shows "takeWhile (\<lambda>x. \<not> match x) xs = take i xs" and "dropWhile (\<lambda>x. \<not> match x) xs = drop i xs"
proof -
  have i: "i < length xs" "match (xs ! i)" "\<forall>j < i. \<not> match (xs ! j)"
    using assms search_Some by blast+
  have split: "xs = take i xs @ xs ! i # drop (Suc i) xs" by (rule remove_at_split [OF i(1)])
  have before: "\<forall>x \<in> set (take i xs). \<not> match x" using i(3) by (auto simp: in_set_conv_nth)
  show "takeWhile (\<lambda>x. \<not> match x) xs = take i xs"
    using before i(2) by (subst split) (simp add: takeWhile_append2)
  have "dropWhile (\<lambda>x. \<not> match x) (take i xs @ ys) = dropWhile (\<lambda>x. \<not> match x) ys" for ys
    using before by (simp add: dropWhile_append2)
  from this [of "drop i xs"] have "dropWhile (\<lambda>x. \<not> match x) xs = dropWhile (\<lambda>x. \<not> match x) (drop i xs)"
    by simp
  also have "drop i xs = xs ! i # drop (Suc i) xs" using i(1) by (simp add: Cons_nth_drop_Suc)
  also have "dropWhile (\<lambda>x. \<not> match x) \<dots> = \<dots>" using i(2) by simp
  finally show "dropWhile (\<lambda>x. \<not> match x) xs = drop i xs" using i(1) by (simp add: Cons_nth_drop_Suc)
qed

lemma search_eq:
  "search xs = (let i = length (takeWhile (\<lambda>x. \<not> match x) xs) in if i < length xs then Some i else None)"
proof (cases "search xs")
  case None
  then have all: "takeWhile (\<lambda>x. \<not> match x) xs = xs" using search_None [of xs] by simp
  show ?thesis unfolding all using None by (simp add: Let_def)
next
  case (Some i)
  then show ?thesis using search_before(1) [OF Some] search_bound [OF Some] by simp
qed

lemma remove_hit:
  "search xs = Some i \<Longrightarrow>
   remove_at i xs = takeWhile (\<lambda>x. \<not> match x) xs @ tl (dropWhile (\<lambda>x. \<not> match x) xs)"
  by (simp add: search_before remove_at_def tl_drop drop_Suc)

text \<open>Deleting at the index found removes one match; if it is the only one, all of them.\<close>

lemma remove_hit_others:
  assumes "search xs = Some i"
  shows "filter (\<lambda>x. \<not> match x) (remove_at i xs) = filter (\<lambda>x. \<not> match x) xs"
proof -
  have i: "i < length xs" "match (xs ! i)"
    using assms search_Some by blast+
  have "filter (\<lambda>x. \<not> match x) xs
      = filter (\<lambda>x. \<not> match x) (take i xs @ xs ! i # drop (Suc i) xs)"
    using remove_at_split [OF i(1)] by simp
  also have "\<dots> = filter (\<lambda>x. \<not> match x) (remove_at i xs)"
    using i(2) by (simp add: remove_at_def)
  finally show ?thesis by simp
qed

lemma count_remove_hit:
  assumes "search xs = Some i"
  shows "length (filter match (remove_at i xs)) = length (filter match xs) - 1"
proof -
  have i: "i < length xs" "match (xs ! i)"
    using assms search_Some by blast+
  have "length (filter match xs) = length (filter match (take i xs @ xs ! i # drop (Suc i) xs))"
    using remove_at_split [OF i(1)] by simp
  then show ?thesis using i(2) by (simp add: remove_at_def)
qed

lemma remove_only_hit:
  assumes "search xs = Some i" and "length (filter match xs) \<le> 1"
  shows "remove_at i xs = filter (\<lambda>x. \<not> match x) xs"
proof -
  have "filter match (remove_at i xs) = []"
    using count_remove_hit [OF assms(1)] assms(2) by simp
  then have "filter (\<lambda>x. \<not> match x) (remove_at i xs) = remove_at i xs"
    by (auto simp: filter_id_conv filter_empty_conv)
  then show ?thesis using remove_hit_others [OF assms(1)] by simp
qed

text \<open>Overwriting at the index found leaves the other elements alone.\<close>

lemma overwrite_hit_others:
  assumes "search xs = Some i" and "match y"
  shows "filter (\<lambda>x. \<not> match x) (xs[i := y]) = filter (\<lambda>x. \<not> match x) xs"
proof -
  have i: "i < length xs" "match (xs ! i)"
    using assms search_Some by blast+
  have "filter (\<lambda>x. \<not> match x) (xs[i := y])
      = filter (\<lambda>x. \<not> match x) (take i xs @ y # drop (Suc i) xs)"
    using i(1) by (simp add: upd_conv_take_nth_drop)
  also have "\<dots> = filter (\<lambda>x. \<not> match x) (take i xs @ xs ! i # drop (Suc i) xs)"
    using i(2) assms(2) by simp
  finally show ?thesis using remove_at_split [OF i(1)] by simp
qed

end

text \<open>
  The canonical such loop. A loop of the source is shown equal to it by one induction and
  inherits the contract.
\<close>

fun index_from :: "nat \<Rightarrow> ('a \<Rightarrow> bool) \<Rightarrow> 'a list \<Rightarrow> nat option" where
  "index_from n P [] = None"
| "index_from n P (x # xs) = (if P x then Some n else index_from (Suc n) P xs)"

lemma index_from_None: "index_from n P xs = None \<longleftrightarrow> (\<forall>x \<in> set xs. \<not> P x)"
  by (induction xs arbitrary: n) auto

lemma index_from_Some:
  "index_from n P xs = Some i \<Longrightarrow>
     \<exists>k. i = n + k \<and> k < length xs \<and> P (xs ! k) \<and> (\<forall>j < k. \<not> P (xs ! j))"
proof (induction xs arbitrary: n)
  case Nil
  then show ?case by simp
next
  case (Cons x xs)
  show ?case
  proof (cases "P x")
    case True
    with Cons.prems show ?thesis by auto
  next
    case False
    with Cons.prems obtain k where k: "i = Suc n + k" "k < length xs" "P (xs ! k)"
        "\<forall>j < k. \<not> P (xs ! j)"
      using Cons.IH [of "Suc n"] by auto
    with False show ?thesis
      by (intro exI [of _ "Suc k"]) (auto simp: less_Suc_eq_0_disj)
  qed
qed

lemma first_match_index_from: "first_match (index_from 0 P) P"
proof
  show "index_from 0 P xs = None \<longleftrightarrow> (\<forall>x \<in> set xs. \<not> P x)" for xs
    by (rule index_from_None)
  show "i < length xs \<and> P (xs ! i) \<and> (\<forall>j < i. \<not> P (xs ! j))"
    if "index_from 0 P xs = Some i" for xs i
    using index_from_Some [OF that] by simp
qed

lemma count_list_distinct: "distinct xs \<Longrightarrow> count_list xs x \<le> 1"
  by (induction xs) (auto simp: count_list_0_iff)

lemma find_SomeD: "find P xs = Some x \<Longrightarrow> x \<in> set xs \<and> P x"
  by (auto simp: find_Some_iff)

subsection \<open>32-bit counters\<close>

text \<open>
  Go's \<open>int32\<close>: the arithmetic of \<open>32 word\<close> wraps, comparisons are signed.
\<close>

type_synonym int32 = "32 word"

definition lt0 :: "int32 \<Rightarrow> bool" where
  "lt0 x \<longleftrightarrow> sint x < 0"

lemma sint_of_nat_small: "n < 2 ^ 31 \<Longrightarrow> sint (of_nat n :: int32) = int n"
  by (simp add: signed_of_nat signed_take_bit_int_eq_self)

lemma sint_add_small:
  fixes a b :: int32
  assumes "- (2 ^ 31) \<le> sint a + sint b" and "sint a + sint b < 2 ^ 31"
  shows "sint (a + b) = sint a + sint b"
  using assms by (simp add: sint_word_add signed_take_bit_int_eq_self)

lemma sint_diff_small:
  fixes a b :: int32
  assumes "- (2 ^ 31) \<le> sint a - sint b" and "sint a - sint b < 2 ^ 31"
  shows "sint (a - b) = sint a - sint b"
  using assms by (simp add: sint_word_diff signed_take_bit_int_eq_self)

lemma sint_range32: "- (2 ^ 31) \<le> sint (a :: int32)" "sint (a :: int32) < 2 ^ 31"
  using sint_ge [of a] sint_lt [of a] by simp_all

end
