(* ===== verification/Consts.thy ===== *)
theory Consts
  imports Prelude
begin

text \<open>
  The package \<open>pkg/consts\<close>: label, annotation and taint keys, fixed values and the
  environment variables read at start-up. The process environment is a map from variable
  names to values, an argument of the definitions that read it.
\<close>

subsection \<open>Keys and fixed values (const.go)\<close>

definition MachineGroupKey :: string where
  "MachineGroupKey = ''imperator.tenzen-y.io/machine-group''"

definition MachineStatusKey :: string where
  "MachineStatusKey = ''imperator.tenzen-y.io/node-pool''"

definition MachineTypeKey :: string where
  "MachineTypeKey = ''imperator.tenzen-y.io/machine-type''"

definition PodRoleKey :: string where
  "PodRoleKey = ''imperator.tenzen-y.io/pod-role''"

definition StatefulSetImage :: string where
  "StatefulSetImage = ''alpine:3.15.0''"

definition NvidiaGPUFamilyKey :: string where
  "NvidiaGPUFamilyKey = ''nvidia.com/gpu.family''"

definition NvidiaGPUProductKey :: string where
  "NvidiaGPUProductKey = ''nvidia.com/gpu.product''"

definition NvidiaGPUMachineKey :: string where
  "NvidiaGPUMachineKey = ''nvidia.com/gpu.machine''"

definition PodRoleReservation :: string where
  "PodRoleReservation = ''reservation''"

definition PodRoleGuest :: string where
  "PodRoleGuest = ''guest''"

definition MachineNodePoolFinalizer :: string where
  "MachineNodePoolFinalizer = ''imperator-machinenodepool-finalizer''"

definition NodeNotReadyTaint :: string where
  "NodeNotReadyTaint = ''node.kubernetes.io/not-ready''"

definition ImperatorResourceInjectionKey :: string where
  "ImperatorResourceInjectionKey = ''imperator.tenzen.io/inject-resource''"

definition ImperatorResourceInjectionEnabled :: string where
  "ImperatorResourceInjectionEnabled = ''enabled''"

definition ImperatorResourceInjectContainerNameKey :: string where
  "ImperatorResourceInjectContainerNameKey = ''imperator.tenzen-y.io/injecting-container''"

definition CannotUseNodeTaints :: "string list" where
  "CannotUseNodeTaints =
     [''node.kubernetes.io/not-ready'',
      ''node.kubernetes.io/unschedulable'',
      ''node.kubernetes.io/network-unavailable'',
      ''node.kubernetes.io/unreachable'']"

subsection \<open>Environment variables (env.go)\<close>

type_synonym environ = "string \<rightharpoonup> string"

definition getEnvVarOrDefault :: "environ \<Rightarrow> string \<Rightarrow> string \<Rightarrow> string" where
  "getEnvVarOrDefault env key fallback =
     (case env key of Some value \<Rightarrow> value | None \<Rightarrow> fallback)"

definition ImperatorCoreNamespace :: "environ \<Rightarrow> string" where
  "ImperatorCoreNamespace env = getEnvVarOrDefault env ''IMPERATOR_CORE_NAMESPACE'' ''imperator-system''"

text \<open>\<open>os.Getenv("ENVTEST") == "true"\<close>, read by the node pool controller.\<close>

definition envtest :: "environ \<Rightarrow> bool" where
  "envtest env \<longleftrightarrow> map_get env ''ENVTEST'' = ''true''"

subsection \<open>The keys are different from one another\<close>

lemmas key_defs =
  MachineGroupKey_def MachineStatusKey_def MachineTypeKey_def PodRoleKey_def
  NvidiaGPUFamilyKey_def NvidiaGPUProductKey_def NvidiaGPUMachineKey_def
  ImperatorResourceInjectContainerNameKey_def

lemma keys_distinct [simp]:
  "MachineGroupKey \<noteq> MachineTypeKey" "MachineTypeKey \<noteq> MachineGroupKey"
  "MachineGroupKey \<noteq> PodRoleKey" "PodRoleKey \<noteq> MachineGroupKey"
  "MachineTypeKey \<noteq> PodRoleKey" "PodRoleKey \<noteq> MachineTypeKey"
  "PodRoleReservation \<noteq> PodRoleGuest" "PodRoleGuest \<noteq> PodRoleReservation"
  by (simp_all add: key_defs PodRoleReservation_def PodRoleGuest_def)

lemma status_key_not_unusable [simp]: "MachineStatusKey \<notin> set CannotUseNodeTaints"
  by (simp add: MachineStatusKey_def CannotUseNodeTaints_def)

end
