(* ===== verification/ApiTypes.thy ===== *)
theory ApiTypes
  imports Consts
begin

text \<open>
  The data of the program: the \<open>v1alpha1\<close> API (\<open>machine_types.go\<close>,
  \<open>machinenodepool_types.go\<close>) and, of the Kubernetes API types, the fields this program
  reads or writes. A pointer field is an \<open>option\<close>; a string type of Go stays
  \<open>string\<close>; a slice whose sharing does not matter is a list. \<open>resource.Quantity\<close> is
  opaque data (its serialised form); the operations on it are parameters where they are used.
  The program reads no field that is left out here, and writes one only by writing a whole slice:
  \<open>GenerateStatefulSet\<close> replaces the containers of the template and \<open>GenerateService\<close> the ports, and
  so clear in them what an API server filled in (a port's protocol, a container's pull policy).
\<close>

subsection \<open>Kubernetes meta data\<close>

type_synonym time = int

record ObjectMeta =
  Name :: string
  Namespace :: string
  Labels :: smap
  Annotations :: smap
  DeletionTimestamp :: "time option"
  Finalizers :: "string list"
  OwnerReferences :: "string list"

record Condition =
  cond_Type :: string
  cond_Status :: string
  cond_LastTransitionTime :: time
  cond_Reason :: string
  cond_Message :: string

datatype quantity = Quantity string

type_synonym ResourceList = "string \<rightharpoonup> quantity"

subsection \<open>Machine (machine\_types.go)\<close>

type_synonym NodePoolMode = string

record NodePoolMachineType =
  npmt_Name :: string

record NodePool =
  np_Name :: string
  np_Mode :: NodePoolMode
  np_Taint :: bool
  np_MachineType :: "NodePoolMachineType list"

record GPUSpec =
  gpu_Type :: string
  gpu_Num :: quantity
  gpu_Family :: string
  gpu_Product :: string
  gpu_Machine :: string

record MachineDetailSpec =
  CPU :: quantity
  Memory :: quantity
  GPU :: "GPUSpec option"

record MachineType =
  mt_Name :: string
  mt_Spec :: MachineDetailSpec
  mt_Available :: int32

record MachineSpec =
  ms_NodePool :: "NodePool list"
  ms_MachineTypes :: "MachineType list"

record UsageCondition =
  Maximum :: int32
  Reserved :: int32
  Used :: int32
  Waiting :: int32

record AvailableMachineCondition =
  am_Name :: string
  am_Usage :: UsageCondition

record MachineStatus =
  mst_Conditions :: "Condition list"
  mst_AvailableMachines :: "AvailableMachineCondition list"

record Machine =
  m_Meta :: ObjectMeta
  m_Spec :: MachineSpec
  m_Status :: MachineStatus

subsection \<open>MachineNodePool (machinenodepool\_types.go)\<close>

definition NodeModeReady :: NodePoolMode where
  "NodeModeReady = ''ready''"

definition NodeModeNotReady :: NodePoolMode where
  "NodeModeNotReady = ''not-ready''"

definition NodeModeMaintenance :: NodePoolMode where
  "NodeModeMaintenance = ''maintenance''"

definition mode_Value :: "NodePoolMode \<Rightarrow> string" where
  "mode_Value mode = mode"

record NodePoolMachineTypeStock =
  stock_Name :: string

record MachineNodePoolSpec =
  mnp_MachineGroupName :: string
  mnp_NodePool :: "NodePool list"
  mnp_MachineTypeStock :: "NodePoolMachineTypeStock list"

type_synonym MachineNodeCondition = string

definition NodeHealthy :: MachineNodeCondition where
  "NodeHealthy = ''Healthy''"

definition NodeMaintenance :: MachineNodeCondition where
  "NodeMaintenance = ''Maintenance''"

definition NodeUnhealthy :: MachineNodeCondition where
  "NodeUnhealthy = ''Unhealthy''"

definition ConditionReady :: string where
  "ConditionReady = ''Ready''"

record NodePoolCondition =
  npc_Name :: string
  npc_NodeCondition :: MachineNodeCondition

record MachineNodePoolStatus =
  mnps_Conditions :: "Condition list"
  mnps_NodePoolCondition :: "NodePoolCondition list"

record MachineNodePool =
  p_Meta :: ObjectMeta
  p_Spec :: MachineNodePoolSpec
  p_Status :: MachineNodePoolStatus

lemma modes_distinct [simp]:
  "NodeModeReady \<noteq> NodeModeNotReady" "NodeModeNotReady \<noteq> NodeModeReady"
  "NodeModeReady \<noteq> NodeModeMaintenance" "NodeModeMaintenance \<noteq> NodeModeReady"
  "NodeModeNotReady \<noteq> NodeModeMaintenance" "NodeModeMaintenance \<noteq> NodeModeNotReady"
  by (simp_all add: NodeModeReady_def NodeModeNotReady_def NodeModeMaintenance_def)

subsection \<open>Nodes, Pods, StatefulSets and Services: the fields the program uses\<close>

record Taint =
  taint_Key :: string
  taint_Value :: string
  taint_Effect :: string
  taint_TimeAdded :: "time option"

record Node =
  n_Meta :: ObjectMeta
  n_Taints :: "Taint list"

record Toleration =
  tol_Key :: string
  tol_Operator :: string
  tol_Value :: string
  tol_Effect :: string

record NodeSelectorRequirement =
  nsr_Key :: string
  nsr_Operator :: string
  nsr_Values :: "string list"

record NodeSelectorTerm =
  MatchExpressions :: "NodeSelectorRequirement list"
  MatchFields :: "NodeSelectorRequirement list"

text \<open>
  \<open>NodeSelectorTerms\<close> of \<open>requiredDuringSchedulingIgnoredDuringExecution\<close> (a pointer),
  inside \<open>nodeAffinity\<close> (a pointer), inside \<open>affinity\<close> (a pointer).
\<close>

record NodeAffinity =
  na_Required :: "NodeSelectorTerm list option"

record Affinity =
  aff_NodeAffinity :: "NodeAffinity option"

record ResourceRequirements =
  Requests :: ResourceList
  Limits :: ResourceList

record Container =
  c_Name :: string
  c_Image :: string
  c_Command :: "string list"
  c_Args :: "string list"
  c_Resources :: ResourceRequirements

record PodCondition =
  pc_Type :: string
  pc_Status :: string
  pc_Reason :: string

record PodSpec =
  ps_Containers :: "Container list"
  ps_Affinity :: "Affinity option"
  ps_Tolerations :: "Toleration list"
  ps_NodeName :: string

record Pod =
  pod_Meta :: ObjectMeta
  pod_Spec :: PodSpec
  pod_Phase :: string
  pod_Conditions :: "PodCondition list"

record StatefulSet =
  sts_Meta :: ObjectMeta
  sts_Selector :: "smap option"
  sts_ServiceName :: string
  sts_Replicas :: "int32 option"
  sts_TemplateLabels :: smap
  sts_TemplateSpec :: PodSpec

record Service =
  svc_Meta :: ObjectMeta
  svc_Selector :: smap
  svc_Ports :: "int32 list"
  svc_Type :: string

text \<open>The zero value of \<open>ObjectMeta\<close>, which a freshly declared object has.\<close>

definition zero_meta :: ObjectMeta where
  "zero_meta = \<lparr>Name = [], Namespace = [], Labels = Map.empty, Annotations = Map.empty,
     DeletionTimestamp = None, Finalizers = [], OwnerReferences = []\<rparr>"

definition zero_podspec :: PodSpec where
  "zero_podspec = \<lparr>ps_Containers = [], ps_Affinity = None, ps_Tolerations = [], ps_NodeName = []\<rparr>"

definition zero_node :: Node where
  "zero_node = \<lparr>n_Meta = zero_meta, n_Taints = []\<rparr>"

abbreviation node_Name :: "Node \<Rightarrow> string" where
  "node_Name n \<equiv> Name (n_Meta n)"

abbreviation node_Labels :: "Node \<Rightarrow> smap" where
  "node_Labels n \<equiv> Labels (n_Meta n)"

abbreviation node_Annotations :: "Node \<Rightarrow> smap" where
  "node_Annotations n \<equiv> Annotations (n_Meta n)"

definition node_set_Labels :: "smap \<Rightarrow> Node \<Rightarrow> Node" where
  "node_set_Labels ls n = n\<lparr>n_Meta := (n_Meta n)\<lparr>Labels := ls\<rparr>\<rparr>"

definition node_set_Annotations :: "smap \<Rightarrow> Node \<Rightarrow> Node" where
  "node_set_Annotations as n = n\<lparr>n_Meta := (n_Meta n)\<lparr>Annotations := as\<rparr>\<rparr>"

lemma node_set_simps [simp]:
  "node_Labels (node_set_Labels ls n) = ls"
  "node_Annotations (node_set_Labels ls n) = node_Annotations n"
  "node_Name (node_set_Labels ls n) = node_Name n"
  "n_Taints (node_set_Labels ls n) = n_Taints n"
  "node_Annotations (node_set_Annotations as n) = as"
  "node_Labels (node_set_Annotations as n) = node_Labels n"
  "node_Name (node_set_Annotations as n) = node_Name n"
  "n_Taints (node_set_Annotations as n) = n_Taints n"
  by (simp_all add: node_set_Labels_def node_set_Annotations_def)

end
