(* ===== verification/Affinity.thy ===== *)
theory Affinity
  imports ApiTypes
begin

text \<open>
  \<open>pkg/api/v1alpha1/affinity.go\<close>: the keys, node-affinity expressions and tolerations
  generated for a machine type, used alike by the reservation StatefulSet and by the Pod
  resource injector.
\<close>

text \<open>\<open>GroupVersion.Group\<close> of \<open>groupversion_info.go\<close>.\<close>

definition GroupVersion_Group :: string where
  "GroupVersion_Group = ''imperator.tenzen-y.io''"

definition GenerateMachineTypeLabelTaintKey :: "string \<Rightarrow> string" where
  "GenerateMachineTypeLabelTaintKey machineTypeName =
     strings_join [GroupVersion_Group, machineTypeName] ''/''"

definition getGPUSelector :: "GPUSpec \<Rightarrow> string list" where
  "getGPUSelector g =
     (if gpu_Family g \<noteq> [] then [NvidiaGPUFamilyKey, gpu_Family g]
      else if gpu_Product g \<noteq> [] then [NvidiaGPUProductKey, gpu_Product g]
      else if gpu_Machine g \<noteq> [] then [NvidiaGPUMachineKey, gpu_Machine g]
      else [])"

definition NodeSelectorOpIn :: string where
  "NodeSelectorOpIn = ''In''"

definition TaintEffectNoSchedule :: string where
  "TaintEffectNoSchedule = ''NoSchedule''"

definition TolerationOpEqual :: string where
  "TolerationOpEqual = ''Equal''"

definition GenerateAffinityMatchExpression :: "MachineType \<Rightarrow> string \<Rightarrow> NodeSelectorRequirement list" where
  "GenerateAffinityMatchExpression machineType machineGroup =
     (let affinityMatchExpressions =
        [\<lparr>nsr_Key = GenerateMachineTypeLabelTaintKey (mt_Name machineType),
          nsr_Operator = NodeSelectorOpIn, nsr_Values = [machineGroup]\<rparr>,
         \<lparr>nsr_Key = MachineStatusKey,
          nsr_Operator = NodeSelectorOpIn, nsr_Values = [mode_Value NodeModeReady]\<rparr>]
      in case GPU (mt_Spec machineType) of
           None \<Rightarrow> affinityMatchExpressions
         | Some gpu \<Rightarrow>
             (let gpuSelector = getGPUSelector gpu in
              if length gpuSelector = 2
              then affinityMatchExpressions @
                   [\<lparr>nsr_Key = gpuSelector ! 0, nsr_Operator = NodeSelectorOpIn,
                     nsr_Values = [gpuSelector ! 1]\<rparr>]
              else affinityMatchExpressions))"

definition GenerateToleration :: "string \<Rightarrow> string \<Rightarrow> Toleration list" where
  "GenerateToleration machineTypeName machineGroup =
     [\<lparr>tol_Key = GenerateMachineTypeLabelTaintKey machineTypeName,
       tol_Operator = TolerationOpEqual, tol_Value = machineGroup,
       tol_Effect = TaintEffectNoSchedule\<rparr>,
      \<lparr>tol_Key = MachineStatusKey,
       tol_Operator = TolerationOpEqual, tol_Value = mode_Value NodeModeReady,
       tol_Effect = TaintEffectNoSchedule\<rparr>]"

subsection \<open>Keys\<close>

lemma machine_type_key: "GenerateMachineTypeLabelTaintKey n = GroupVersion_Group @ ''/'' @ n"
  by (simp add: GenerateMachineTypeLabelTaintKey_def)

lemma machine_type_key_inj [simp]:
  "GenerateMachineTypeLabelTaintKey n = GenerateMachineTypeLabelTaintKey n' \<longleftrightarrow> n = n'"
  by (simp add: machine_type_key)

lemma machine_type_key_status:
  "GenerateMachineTypeLabelTaintKey n = MachineStatusKey \<longleftrightarrow> n = ''node-pool''"
  by (simp add: machine_type_key GroupVersion_Group_def MachineStatusKey_def)

lemma machine_type_key_status':
  "MachineStatusKey = GenerateMachineTypeLabelTaintKey n \<longleftrightarrow> n = ''node-pool''"
  using machine_type_key_status [of n] by metis

lemma machine_type_key_usable [simp]:
  "GenerateMachineTypeLabelTaintKey n \<notin> set CannotUseNodeTaints"
  by (simp add: machine_type_key GroupVersion_Group_def CannotUseNodeTaints_def)

lemma gpu_selector_length: "length (getGPUSelector g) \<in> {0, 2}"
  by (simp add: getGPUSelector_def)

lemma affinity_values_singleton:
  "e \<in> set (GenerateAffinityMatchExpression mt g) \<Longrightarrow> length (nsr_Values e) = 1"
  by (auto simp: GenerateAffinityMatchExpression_def Let_def split: option.splits if_splits)

end
