(* ===== verification/Util.thy ===== *)
theory Util
  imports Affinity
begin

text \<open>
  The package \<open>pkg/controllers/util\<close>: names, labels, taints, status lookups and the
  generated reservation resources. Every loop of the source is one recursive function over
  the slice it ranges over; \<open>GetTaintKeyIndex\<close> interprets the search contract of the prelude.
\<close>

subsection \<open>name.go\<close>

definition GenerateMachineNodePoolName :: "string \<Rightarrow> string" where
  "GenerateMachineNodePoolName machineGroupName = strings_join [machineGroupName, ''node-pool''] ''-''"

definition GenerateReservationResourceName :: "string \<Rightarrow> string \<Rightarrow> string" where
  "GenerateReservationResourceName machineGroup machineType =
     strings_join [machineGroup, machineType] ''-''"

subsection \<open>label.go\<close>

definition GetMachineGroup :: "smap \<Rightarrow> string" where
  "GetMachineGroup machineLabels = map_get machineLabels MachineGroupKey"

definition GenerateReservationResourceLabel :: "string \<Rightarrow> string \<Rightarrow> smap" where
  "GenerateReservationResourceLabel machineGroup machineType =
     [MachineGroupKey \<mapsto> machineGroup, MachineTypeKey \<mapsto> machineType,
      PodRoleKey \<mapsto> PodRoleReservation]"

fun GetScheduleMachineTypeKeys :: "NodePoolMachineType list \<Rightarrow> string list" where
  "GetScheduleMachineTypeKeys [] = []"
| "GetScheduleMachineTypeKeys (mt # mts) =
     strings_join [GroupVersion_Group, npmt_Name mt] ''/'' # GetScheduleMachineTypeKeys mts"

subsection \<open>taint.go\<close>

fun ExtractKeyValue_loop :: "smap \<Rightarrow> Taint list \<Rightarrow> smap" where
  "ExtractKeyValue_loop result [] = result"
| "ExtractKeyValue_loop result (t # ts) =
     ExtractKeyValue_loop (result(taint_Key t \<mapsto> taint_Value t)) ts"

definition ExtractKeyValueFromTaint :: "Taint list \<Rightarrow> smap" where
  "ExtractKeyValueFromTaint taints = ExtractKeyValue_loop Map.empty taints"

fun GetTaintKeyIndex_loop :: "nat \<Rightarrow> Taint list \<Rightarrow> string \<Rightarrow> nat option" where
  "GetTaintKeyIndex_loop idx [] key = None"
| "GetTaintKeyIndex_loop idx (t # ts) key =
     (if taint_Key t \<noteq> key then GetTaintKeyIndex_loop (Suc idx) ts key else Some idx)"

definition GetTaintKeyIndex :: "Taint list \<Rightarrow> string \<Rightarrow> nat option" where
  "GetTaintKeyIndex taints key = GetTaintKeyIndex_loop 0 taints key"

subsection \<open>status.go\<close>

fun GetMachineTypeUsage :: "AvailableMachineCondition list \<Rightarrow> string \<Rightarrow> UsageCondition option" where
  "GetMachineTypeUsage [] machineTypeName = None"
| "GetMachineTypeUsage (cond # conds) machineTypeName =
     (if am_Name cond \<noteq> machineTypeName then GetMachineTypeUsage conds machineTypeName
      else Some (am_Usage cond))"

fun GetPodConditionTypeMap_loop ::
    "(string \<rightharpoonup> PodCondition) \<Rightarrow> PodCondition list \<Rightarrow> (string \<rightharpoonup> PodCondition)" where
  "GetPodConditionTypeMap_loop result [] = result"
| "GetPodConditionTypeMap_loop result (c # cs) =
     (if result (pc_Type c) \<noteq> None then GetPodConditionTypeMap_loop result cs
      else GetPodConditionTypeMap_loop (result(pc_Type c \<mapsto> c)) cs)"

definition GetPodConditionTypeMap :: "PodCondition list \<Rightarrow> (string \<rightharpoonup> PodCondition)" where
  "GetPodConditionTypeMap podConditions =
     (if podConditions = [] then Map.empty
      else GetPodConditionTypeMap_loop Map.empty podConditions)"

subsection \<open>resource.go\<close>

definition ResourceCPU :: string where
  "ResourceCPU = ''cpu''"

definition ResourceMemory :: string where
  "ResourceMemory = ''memory''"

definition ServiceTypeClusterIP :: string where
  "ServiceTypeClusterIP = ''ClusterIP''"

definition GenerateSleeperContainer :: Container where
  "GenerateSleeperContainer =
     \<lparr>c_Name = ''sleeper'', c_Image = StatefulSetImage, c_Command = [''sleep''],
      c_Args = [''infinity''],
      c_Resources = \<lparr>Requests = Map.empty, Limits = Map.empty\<rparr>\<rparr>"

definition GenerateStatefulSet :: "MachineType \<Rightarrow> string \<Rightarrow> int32 \<Rightarrow> StatefulSet \<Rightarrow> StatefulSet" where
  "GenerateStatefulSet machineType machineGroup replica sts =
     (let machineTypeName = mt_Name machineType;
          svcName = GenerateReservationResourceName machineGroup machineTypeName;
          stsLabels = GenerateReservationResourceLabel machineGroup machineTypeName;
          resourceList = [ResourceCPU \<mapsto> CPU (mt_Spec machineType),
                          ResourceMemory \<mapsto> Memory (mt_Spec machineType)];
          resourceList = (case GPU (mt_Spec machineType) of
                            None \<Rightarrow> resourceList
                          | Some gpu \<Rightarrow> resourceList(gpu_Type gpu \<mapsto> gpu_Num gpu));
          container = GenerateSleeperContainer
            \<lparr>c_Resources := \<lparr>Requests = resourceList, Limits = resourceList\<rparr>\<rparr>
      in sts\<lparr>sts_Meta := (sts_Meta sts)\<lparr>Labels := stsLabels\<rparr>,
             sts_Selector := Some stsLabels,
             sts_ServiceName := svcName,
             sts_Replicas := Some replica,
             sts_TemplateLabels := stsLabels,
             sts_TemplateSpec := (sts_TemplateSpec sts)
               \<lparr>ps_Tolerations := GenerateToleration machineTypeName machineGroup,
                ps_Affinity := Some \<lparr>aff_NodeAffinity = Some \<lparr>na_Required = Some
                  [\<lparr>MatchExpressions = GenerateAffinityMatchExpression machineType machineGroup,
                    MatchFields = []\<rparr>]\<rparr>\<rparr>,
                ps_Containers := [container]\<rparr>\<rparr>)"

definition GenerateService :: "string \<Rightarrow> string \<Rightarrow> Service \<Rightarrow> Service" where
  "GenerateService machineType machineGroup svc =
     (let svcLabels = GenerateReservationResourceLabel machineGroup machineType
      in svc\<lparr>svc_Meta := (svc_Meta svc)\<lparr>Labels := svcLabels\<rparr>,
             svc_Selector := svcLabels,
             svc_Ports := [80],
             svc_Type := ServiceTypeClusterIP\<rparr>)"

subsection \<open>Lemmas: taints\<close>

lemma extract_loop_apply:
  "ExtractKeyValue_loop m ts k =
     (case find (\<lambda>t. taint_Key t = k) (rev ts) of Some t \<Rightarrow> Some (taint_Value t) | None \<Rightarrow> m k)"
proof (induction ts arbitrary: m)
  case Nil
  then show ?case by simp
next
  case (Cons t ts)
  have app: "find P (xs @ [t]) = (case find P xs of Some x \<Rightarrow> Some x | None \<Rightarrow> if P t then Some t else None)"
    for P and xs :: "Taint list"
    by (induction xs) auto
  show ?case by (simp add: Cons.IH app split: option.split)
qed

lemma extract_None_iff:
  "ExtractKeyValueFromTaint ts k = None \<longleftrightarrow> (\<forall>t \<in> set ts. taint_Key t \<noteq> k)"
  by (auto simp: ExtractKeyValueFromTaint_def extract_loop_apply find_None_iff
      dest!: find_SomeD split: option.split)

lemma extract_distinct:
  assumes "distinct (map taint_Key ts)" and "t \<in> set ts"
  shows "ExtractKeyValueFromTaint ts (taint_Key t) = Some (taint_Value t)"
proof -
  from assms(2) have "find (\<lambda>u. taint_Key u = taint_Key t) (rev ts) \<noteq> None"
    by (auto simp: find_None_iff)
  then obtain u where u: "find (\<lambda>u. taint_Key u = taint_Key t) (rev ts) = Some u" by blast
  then have "u \<in> set ts" "taint_Key u = taint_Key t"
    by (auto dest: find_SomeD)
  with assms have "u = t" by (auto simp: distinct_map inj_on_def)
  with u show ?thesis by (simp add: ExtractKeyValueFromTaint_def extract_loop_apply)
qed

lemma taint_index_loop: "GetTaintKeyIndex_loop n ts key = index_from n (\<lambda>t. taint_Key t = key) ts"
  by (induction ts arbitrary: n) auto

interpretation taint_index: first_match
  "\<lambda>ts. GetTaintKeyIndex ts key" "\<lambda>t. taint_Key t = key" for key
  using first_match_index_from by (simp add: GetTaintKeyIndex_def taint_index_loop)

subsection \<open>Lemmas: labels, status and Pod conditions\<close>

lemma schedule_keys:
  "GetScheduleMachineTypeKeys mts = map (\<lambda>mt. GenerateMachineTypeLabelTaintKey (npmt_Name mt)) mts"
  by (induction mts) (simp_all add: GenerateMachineTypeLabelTaintKey_def)

lemma usage_None_iff: "GetMachineTypeUsage cs n = None \<longleftrightarrow> n \<notin> am_Name ` set cs"
  by (induction cs) auto

lemma condition_map_loop:
  "GetPodConditionTypeMap_loop m cs k =
     (case m k of Some c \<Rightarrow> Some c | None \<Rightarrow> find (\<lambda>c. pc_Type c = k) cs)"
  by (induction cs arbitrary: m) (auto split: option.splits)

lemma condition_map: "GetPodConditionTypeMap cs k = find (\<lambda>c. pc_Type c = k) cs"
  by (simp add: GetPodConditionTypeMap_def condition_map_loop)

end
