(* ===== verification/Client.thy ===== *)
theory Client
  imports Util
begin

text \<open>
  The libraries and services the program calls, none of which is in this repository: the
  Kubernetes client and API server, controller-runtime, go-cmp, mergo and the clock. Each is
  a field of a record that is an argument of the model; \<open>'w\<close> is the type of the world they
  act on. What a property relies on is one of the predicates at the end of this theory; they
  state the documented behaviour of these libraries.
\<close>

subsection \<open>Values of controller-runtime\<close>

text \<open>\<open>client.ObjectKey\<close> and \<open>reconcile.Request\<close>: namespace and name.\<close>

type_synonym ObjectKey = "string \<times> string"

definition ObjectKeyFromMeta :: "ObjectMeta \<Rightarrow> ObjectKey" where
  "ObjectKeyFromMeta m = (Namespace m, Name m)"

record ctrl_Result =
  Requeue :: bool

text \<open>\<open>(ctrl.Result, error)\<close>; \<open>None\<close> is the nil error.\<close>

type_synonym reconcile_out = "ctrl_Result \<times> goerr option"

text \<open>\<open>controllerutil.OperationResult\<close>.\<close>

datatype OperationResult = OperationResultNone | OperationResultCreated | OperationResultUpdated

subsection \<open>The operations\<close>

text \<open>Shared by both controllers.\<close>

record 'w base_env =
  os_environ :: environ
  metav1_Now :: "'w \<Rightarrow> time \<times> 'w"
  Recorder_Eventf :: "string \<Rightarrow> 'w \<Rightarrow> 'w"
  meta_SetStatusCondition :: "Condition \<Rightarrow> Condition list \<Rightarrow> Condition list"
  Time_IsZero :: "time option \<Rightarrow> bool"

text \<open>
  The node pool controller. \<open>cmp_Diff\<close> and \<open>cmp_Equal\<close> are one field per type they are
  called at; \<open>consts.CmpSliceOpts\<close> sorts \<open>[]int\<close> only and has no effect on these types.
\<close>

record 'w pool_env = "'w base_env" +
  Get_Pool :: "ObjectKey \<Rightarrow> 'w \<Rightarrow> (goerr + MachineNodePool) \<times> 'w"
  Update_Pool :: "MachineNodePool \<Rightarrow> 'w \<Rightarrow> (goerr + MachineNodePool) \<times> 'w"
  StatusUpdate_Pool :: "MachineNodePool \<Rightarrow> 'w \<Rightarrow> (goerr + MachineNodePool) \<times> 'w"
  List_Pools :: "'w \<Rightarrow> (goerr + MachineNodePool list) \<times> 'w"
  Get_Node :: "ObjectKey \<Rightarrow> 'w \<Rightarrow> (goerr + Node) \<times> 'w"
  Update_Node :: "Node \<Rightarrow> 'w \<Rightarrow> (goerr + Node) \<times> 'w"
  ContainsFinalizer :: "string list \<Rightarrow> string \<Rightarrow> bool"
  AddFinalizer :: "string list \<Rightarrow> string \<Rightarrow> string list"
  RemoveFinalizer :: "string list \<Rightarrow> string \<Rightarrow> string list"
  cmp_Diff_map :: "smap \<Rightarrow> smap \<Rightarrow> string"
  cmp_Diff_taints :: "Taint list \<Rightarrow> Taint list \<Rightarrow> string"
  cmp_Equal_map :: "smap \<Rightarrow> smap \<Rightarrow> bool"
  cmp_Equal_taints :: "Taint list \<Rightarrow> Taint list \<Rightarrow> bool"
  cmp_Equal_conds :: "NodePoolCondition list \<Rightarrow> NodePoolCondition list \<Rightarrow> bool"

text \<open>
  The Machine controller. \<open>ctrl.CreateOrUpdate\<close> takes the object with its name set and the
  function that brings it into the desired state, which may itself call the API server.
\<close>

type_synonym ('o, 'w) create_or_update =
  "'o \<Rightarrow> ('o \<Rightarrow> 'w \<Rightarrow> (goerr + 'o) \<times> 'w) \<Rightarrow> 'w \<Rightarrow> (goerr + OperationResult) \<times> 'w"

record 'w mach_env = "'w base_env" +
  Get_Machine :: "ObjectKey \<Rightarrow> 'w \<Rightarrow> (goerr + Machine) \<times> 'w"
  StatusUpdate_Machine :: "Machine \<Rightarrow> 'w \<Rightarrow> (goerr + Machine) \<times> 'w"
  List_Machines :: "smap \<Rightarrow> 'w \<Rightarrow> (goerr + Machine list) \<times> 'w"
  Get_Namespace :: "string \<Rightarrow> 'w \<Rightarrow> (goerr + ObjectMeta) \<times> 'w"
  List_Pods :: "string \<Rightarrow> smap \<Rightarrow> 'w \<Rightarrow> (goerr + Pod list) \<times> 'w"
  CreateOrUpdate_Pool :: "(MachineNodePool, 'w) create_or_update"
  CreateOrUpdate_Sts :: "(StatefulSet, 'w) create_or_update"
  CreateOrUpdate_Svc :: "(Service, 'w) create_or_update"
  SetControllerReference :: "Machine \<Rightarrow> ObjectMeta \<Rightarrow> goerr + ObjectMeta"
  mergo_Map :: "smap \<Rightarrow> smap \<Rightarrow> goerr + smap"
  cmp_Diff_avail :: "AvailableMachineCondition list \<Rightarrow> AvailableMachineCondition list \<Rightarrow> string"

text \<open>
  The Machine webhook (\<open>kubeReader\<close> and \<open>Quantity.Value\<close>) and the Pod resource injector
  (its decoder, its client and \<open>json.Marshal\<close>). A list call without a selector passes the
  empty map.
\<close>

record 'w webhook_env =
  wh_List_Machines :: "smap \<Rightarrow> 'w \<Rightarrow> (goerr + Machine list) \<times> 'w"
  wh_List_Nodes :: "'w \<Rightarrow> (goerr + Node list) \<times> 'w"
  Quantity_Value :: "quantity \<Rightarrow> int"

record 'w injector_env =
  inj_Decode :: "string \<Rightarrow> goerr + Pod"
  inj_Marshal :: "Pod \<Rightarrow> goerr + string"
  inj_Get_Pod :: "ObjectKey \<Rightarrow> 'w \<Rightarrow> (goerr + Pod) \<times> 'w"
  inj_List_Machines :: "smap \<Rightarrow> 'w \<Rightarrow> (goerr + Machine list) \<times> 'w"

subsection \<open>What the properties rely on\<close>

text \<open>go-cmp: \<open>Diff\<close> is empty and \<open>Equal\<close> holds exactly for equal values.\<close>

definition cmp_laws :: "('w, 'x) pool_env_scheme \<Rightarrow> bool" where
  "cmp_laws E \<longleftrightarrow>
     (\<forall>a b. cmp_Diff_map E a b = [] \<longleftrightarrow> a = b) \<and>
     (\<forall>a b. cmp_Diff_taints E a b = [] \<longleftrightarrow> a = b) \<and>
     (\<forall>a b. cmp_Equal_map E a b \<longleftrightarrow> a = b) \<and>
     (\<forall>a b. cmp_Equal_taints E a b \<longleftrightarrow> a = b) \<and>
     (\<forall>a b. cmp_Equal_conds E a b \<longleftrightarrow> a = b)"

text \<open>
  The API server's nodes, seen through \<open>nodes\<close>: a successful read returns the stored node,
  a successful update stores the given node, and nothing else changes the nodes. Any call may
  fail, and a failed update changes nothing.
\<close>

definition node_api :: "('w, 'x) pool_env_scheme \<Rightarrow> ('w \<Rightarrow> string \<rightharpoonup> Node) \<Rightarrow> bool" where
  "node_api E nodes \<longleftrightarrow>
     (\<forall>w k n. nodes w k = Some n \<longrightarrow> node_Name n = k) \<and>
     (\<forall>k w n. fst (Get_Node E k w) = Inr n \<longrightarrow> nodes w (snd k) = Some n) \<and>
     (\<forall>k w. nodes (snd (Get_Node E k w)) = nodes w) \<and>
     (\<forall>n w n'. fst (Update_Node E n w) = Inr n' \<longrightarrow>
        nodes (snd (Update_Node E n w)) = (nodes w)(node_Name n \<mapsto> n)) \<and>
     (\<forall>n w e. fst (Update_Node E n w) = Inl e \<longrightarrow> nodes (snd (Update_Node E n w)) = nodes w) \<and>
     (\<forall>w. nodes (snd (metav1_Now E w)) = nodes w) \<and>
     (\<forall>s w. nodes (Recorder_Eventf E s w) = nodes w)"

text \<open>An API server that does not fail: every stored node can be read and updated.\<close>

definition node_api_total :: "('w, 'x) pool_env_scheme \<Rightarrow> ('w \<Rightarrow> string \<rightharpoonup> Node) \<Rightarrow> bool" where
  "node_api_total E nodes \<longleftrightarrow>
     node_api E nodes \<and>
     (\<forall>k w n. nodes w (snd k) = Some n \<longrightarrow> fst (Get_Node E k w) = Inr n) \<and>
     (\<forall>k w. nodes w (snd k) = None \<longrightarrow> (\<exists>s. fst (Get_Node E k w) = Inl (NotFound s))) \<and>
     (\<forall>n w. nodes w (node_Name n) \<noteq> None \<longrightarrow> (\<exists>n'. fst (Update_Node E n w) = Inr n'))"

lemma cmp_lawsD:
  assumes "cmp_laws E"
  shows "cmp_Diff_map E a b = [] \<longleftrightarrow> a = b" "cmp_Diff_taints E c d = [] \<longleftrightarrow> c = d"
    "cmp_Equal_map E a b \<longleftrightarrow> a = b" "cmp_Equal_taints E c d \<longleftrightarrow> c = d"
    "cmp_Equal_conds E x y \<longleftrightarrow> x = y"
  using assms by (simp_all add: cmp_laws_def)

lemma node_apiD:
  assumes "node_api E nodes"
  shows "nodes w k = Some n \<Longrightarrow> node_Name n = k"
    "fst (Get_Node E key w) = Inr n \<Longrightarrow> nodes w (snd key) = Some n"
    "nodes (snd (Get_Node E key w)) = nodes w"
    "fst (Update_Node E n w) = Inr n' \<Longrightarrow>
       nodes (snd (Update_Node E n w)) = (nodes w)(node_Name n \<mapsto> n)"
    "fst (Update_Node E n w) = Inl e \<Longrightarrow> nodes (snd (Update_Node E n w)) = nodes w"
    "nodes (snd (metav1_Now E w)) = nodes w"
    "nodes (Recorder_Eventf E s w) = nodes w"
  using assms unfolding node_api_def by blast+

lemma node_api_totalD:
  assumes "node_api_total E nodes"
  shows "node_api E nodes"
    "nodes w (snd key) = Some n \<Longrightarrow> fst (Get_Node E key w) = Inr n"
    "nodes w (snd key) = None \<Longrightarrow> \<exists>s. fst (Get_Node E key w) = Inl (NotFound s)"
    "nodes w (node_Name n) \<noteq> None \<Longrightarrow> \<exists>n'. fst (Update_Node E n w) = Inr n'"
  using assms unfolding node_api_total_def by blast+

subsection \<open>What the Machine controller's properties rely on\<close>

text \<open>A call that does not change what \<open>view\<close> shows of the world.\<close>

definition preserves :: "('w \<Rightarrow> 'v) \<Rightarrow> ('w \<Rightarrow> 'a \<times> 'w) \<Rightarrow> bool" where
  "preserves view f \<longleftrightarrow> (\<forall>w. view (snd (f w)) = view w)"

text \<open>
  \<open>CreateOrUpdate\<close>: the mutate function is applied to the stored object, or to the given one
  when there is none, and a successful call leaves its result stored under the object's key.
  The operation result is \<open>unchanged\<close> exactly when the stored object was already that. This is about
  the modelled fields: of a kind in which the API server fills in others that the mutate function
  clears (StatefulSets and Services, see \<open>ApiTypes\<close>) it describes a server that leaves them alone.
  What is stored does not depend on it, only the result and the condition set from it.
\<close>

definition create_or_update_api ::
    "('o \<Rightarrow> ObjectKey) \<Rightarrow> ('o, 'w) create_or_update \<Rightarrow> ('w \<Rightarrow> ObjectKey \<rightharpoonup> 'o) \<Rightarrow> bool" where
  "create_or_update_api key cou store \<longleftrightarrow>
     (\<forall>obj f w res w'. cou obj f w = (Inr res, w') \<longrightarrow>
        (\<exists>obj' w1. f (case store w (key obj) of None \<Rightarrow> obj | Some stored \<Rightarrow> stored) w = (Inr obj', w1) \<and>
           store w' = (store w1)(key obj \<mapsto> obj') \<and>
           (res = OperationResultNone \<longleftrightarrow> store w (key obj) = Some obj')))"

text \<open>
  \<open>SetControllerReference\<close> changes the owner references only, and setting the same owner again
  changes nothing.
\<close>

definition owner_laws :: "(ObjectMeta \<Rightarrow> goerr + ObjectMeta) \<Rightarrow> bool" where
  "owner_laws set_owner \<longleftrightarrow>
     (\<forall>meta meta'. set_owner meta = Inr meta' \<longrightarrow>
        (\<exists>refs. meta' = meta\<lparr>OwnerReferences := refs\<rparr>) \<and> set_owner meta' = Inr meta')"

text \<open>A successful status update answers with the object that was sent.\<close>

definition machine_status_laws :: "('w, 'x) mach_env_scheme \<Rightarrow> bool" where
  "machine_status_laws E \<longleftrightarrow>
     (\<forall>m w m' w'. StatusUpdate_Machine E m w = (Inr m', w') \<longrightarrow>
        m_Spec m' = m_Spec m \<and> m_Status m' = m_Status m \<and> Labels (m_Meta m') = Labels (m_Meta m))"

text \<open>
  Listing Pods by namespace (all for the empty one) and label selector, in a cluster whose
  Pods are \<open>pods w\<close>; the Pods do not change while the controller runs.
\<close>

definition pod_list_api :: "('w, 'x) mach_env_scheme \<Rightarrow> ('w \<Rightarrow> Pod list) \<Rightarrow> bool" where
  "pod_list_api E pods \<longleftrightarrow>
     (\<forall>ns sel w ps. fst (List_Pods E ns sel w) = Inr ps \<longrightarrow>
        ps = filter (\<lambda>p. (ns = [] \<or> Namespace (pod_Meta p) = ns) \<and> selects sel (Labels (pod_Meta p)))
               (pods w)) \<and>
     (\<forall>ns sel. preserves pods (List_Pods E ns sel)) \<and>
     (\<forall>ns. preserves pods (Get_Namespace E ns))"

text \<open>\<open>mergo.Map\<close> with override puts every pair of the source into the destination.\<close>

definition mergo_laws :: "('w, 'x) mach_env_scheme \<Rightarrow> bool" where
  "mergo_laws E \<longleftrightarrow> (\<forall>dst src. mergo_Map E dst src = Inr (dst ++ src))"

lemma preservesD: "preserves view f \<Longrightarrow> view (snd (f w)) = view w"
  by (simp add: preserves_def)

text \<open>What the calls preserve, the actions made of them preserve: the rules follow their structure.\<close>

named_theorems preserves_intros \<open>rules for what an action does not change\<close>

lemma preserves_aret [preserves_intros]: "preserves view (aret x)"
  by (simp add: preserves_def act_simps)

lemma preserves_alift [preserves_intros]: "preserves view (alift r)"
  by (simp add: preserves_def act_simps)

lemma preserves_acall [preserves_intros]: "preserves view f \<Longrightarrow> preserves view (acall f)"
  by (simp add: preserves_def act_simps)

lemma preserves_ado [preserves_intros]: "(\<And>w. view (f w) = view w) \<Longrightarrow> preserves view (ado f)"
  by (simp add: preserves_def act_simps)

lemma preserves_abind [preserves_intros]:
  "preserves view m \<Longrightarrow> (\<And>x. preserves view (f x)) \<Longrightarrow> preserves view (abind m f)"
  by (simp add: preserves_def act_simps split: gores.split)

lemma preserves_atry [preserves_intros]:
  "preserves view m \<Longrightarrow> (\<And>x. preserves view (f x)) \<Longrightarrow> preserves view (atry m f)"
  by (simp add: preserves_def act_simps split: gores.split sum.split)

lemma preserves_sum [preserves_intros]:
  "(\<And>e. preserves view (f e)) \<Longrightarrow> (\<And>x. preserves view (g x)) \<Longrightarrow>
   preserves view (case r of Inl e \<Rightarrow> f e | Inr x \<Rightarrow> g x)"
  by (cases r) simp_all

lemma preserves_option [preserves_intros]:
  "preserves view m \<Longrightarrow> (\<And>x. preserves view (g x)) \<Longrightarrow>
   preserves view (case r of None \<Rightarrow> m | Some x \<Rightarrow> g x)"
  by (cases r) simp_all

lemma preserves_list [preserves_intros]:
  "preserves view m \<Longrightarrow> (\<And>x xs. preserves view (g x xs)) \<Longrightarrow>
   preserves view (case r of [] \<Rightarrow> m | x # xs \<Rightarrow> g x xs)"
  by (cases r) simp_all

lemma preserves_if [preserves_intros]:
  "preserves view m \<Longrightarrow> preserves view m' \<Longrightarrow> preserves view (if b then m else m')"
  by simp

lemma create_or_updateE:
  assumes "create_or_update_api key cou store" and "cou obj f w = (Inr res, w')"
  obtains obj' w1
    where "f (case store w (key obj) of None \<Rightarrow> obj | Some stored \<Rightarrow> stored) w = (Inr obj', w1)"
      and "store w' = (store w1)(key obj \<mapsto> obj')"
      and "res = OperationResultNone \<longleftrightarrow> store w (key obj) = Some obj'"
  using assms unfolding create_or_update_api_def by blast

lemma owner_lawsE:
  assumes "owner_laws set_owner" and "set_owner meta = Inr meta'"
  obtains refs where "meta' = meta\<lparr>OwnerReferences := refs\<rparr>" and "set_owner meta' = Inr meta'"
  using assms unfolding owner_laws_def by blast

subsection \<open>Reconcile results\<close>

text \<open>
  The contract of a \<open>Reconcile\<close> function with controller-runtime in this program: when it
  returns, it asks for a requeue exactly when it returns an error. The rules follow the
  structure of an action.
\<close>

named_theorems reports_intros \<open>rules for reconcile results\<close>

fun result_ok :: "reconcile_out gores \<Rightarrow> bool" where
  "result_ok Panic = True"
| "result_ok (Ret (res, err)) = (Requeue res \<longleftrightarrow> err \<noteq> None)"

definition requeues_errors :: "('w, reconcile_out) act \<Rightarrow> bool" where
  "requeues_errors m \<longleftrightarrow> (\<forall>w. result_ok (fst (m w)))"

lemma requeues_errors_aret [reports_intros]:
  "(Requeue res \<longleftrightarrow> err \<noteq> None) \<Longrightarrow> requeues_errors (aret (res, err))"
  by (simp add: requeues_errors_def act_simps)

lemma requeues_errors_abind [reports_intros]:
  "(\<And>x. requeues_errors (f x)) \<Longrightarrow> requeues_errors (abind m f)"
  by (simp add: requeues_errors_def act_simps split: gores.split)

lemma requeues_errors_sum [reports_intros]:
  "(\<And>e. requeues_errors (f e)) \<Longrightarrow> (\<And>x. requeues_errors (g x)) \<Longrightarrow>
   requeues_errors (case r of Inl e \<Rightarrow> f e | Inr x \<Rightarrow> g x)"
  by (cases r) simp_all

lemma requeues_errors_if [reports_intros]:
  "requeues_errors m \<Longrightarrow> requeues_errors m' \<Longrightarrow> requeues_errors (if b then m else m')"
  by simp

text \<open>Actions that never panic.\<close>

named_theorems returns_intros \<open>rules for actions that never panic\<close>

definition returns :: "('w, 'a) act \<Rightarrow> bool" where
  "returns m \<longleftrightarrow> (\<forall>w. fst (m w) \<noteq> Panic)"

lemma returns_aret [returns_intros]: "returns (aret x)"
  by (simp add: returns_def act_simps)

lemma returns_acall [returns_intros]: "returns (acall f)"
  by (simp add: returns_def act_simps)

lemma returns_ado [returns_intros]: "returns (ado f)"
  by (simp add: returns_def act_simps)

lemma returns_abind [returns_intros]: "returns m \<Longrightarrow> (\<And>x. returns (f x)) \<Longrightarrow> returns (abind m f)"
  by (simp add: returns_def act_simps split: gores.split)

lemma returns_atry [returns_intros]: "returns m \<Longrightarrow> (\<And>x. returns (f x)) \<Longrightarrow> returns (atry m f)"
  by (simp add: returns_def act_simps split: gores.split sum.split)

lemma returns_sum [returns_intros]:
  "(\<And>e. returns (f e)) \<Longrightarrow> (\<And>x. returns (g x)) \<Longrightarrow> returns (case r of Inl e \<Rightarrow> f e | Inr x \<Rightarrow> g x)"
  by (cases r) simp_all

lemma returns_option [returns_intros]:
  "returns m \<Longrightarrow> (\<And>x. returns (g x)) \<Longrightarrow> returns (case r of None \<Rightarrow> m | Some x \<Rightarrow> g x)"
  by (cases r) simp_all

lemma returns_prod [returns_intros]: "(\<And>a b. returns (f a b)) \<Longrightarrow> returns (case x of (a, b) \<Rightarrow> f a b)"
  by (cases x) simp

lemma returns_if [returns_intros]: "returns m \<Longrightarrow> returns m' \<Longrightarrow> returns (if b then m else m')"
  by simp

end
