(* ===== verification/NodePoolController.thy ===== *)
theory NodePoolController
  imports Client
begin

text \<open>
  \<open>pkg/controllers/machinenodepool_controller.go\<close>: the controller that writes the machine
  group's annotation, labels and taints to the Nodes of a MachineNodePool, removes them when
  the pool is deleted, and reports each Node's condition in the pool's status. This theory
  holds the definitions; the lemmas are in the theories that import it.
\<close>

subsection \<open>Removing what an earlier run wrote\<close>

definition removeNodeAnnotation :: "Node \<Rightarrow> Node" where
  "removeNodeAnnotation node =
     node_set_Annotations (map_delete (node_Annotations node) MachineGroupKey) node"

text \<open>
  The map \<open>scheduleMachineTypeKeys\<close> of \<open>removeNodeLabel\<close> and \<open>removeNodeTaint\<close>: a later
  entry for the same Node overwrites an earlier one.
\<close>

fun scheduleMachineTypeKeys_loop :: "(string \<rightharpoonup> string list) \<Rightarrow> NodePool list \<Rightarrow> (string \<rightharpoonup> string list)" where
  "scheduleMachineTypeKeys_loop m [] = m"
| "scheduleMachineTypeKeys_loop m (p # ps) =
     scheduleMachineTypeKeys_loop (m(np_Name p \<mapsto> GetScheduleMachineTypeKeys (np_MachineType p))) ps"

definition scheduleMachineTypeKeys :: "MachineNodePool \<Rightarrow> (string \<rightharpoonup> string list)" where
  "scheduleMachineTypeKeys pool = scheduleMachineTypeKeys_loop Map.empty (mnp_NodePool (p_Spec pool))"

fun removeLabelKeys :: "string \<Rightarrow> string list \<Rightarrow> smap \<Rightarrow> smap" where
  "removeLabelKeys grp [] ls = ls"
| "removeLabelKeys grp (mtKey # mtKeys) ls =
     (if map_get ls mtKey \<noteq> grp then removeLabelKeys grp mtKeys ls
      else removeLabelKeys grp mtKeys (map_delete ls mtKey))"

definition removeNodeLabel :: "MachineNodePool \<Rightarrow> Node \<Rightarrow> Node" where
  "removeNodeLabel pool node =
     (let ls = map_delete (node_Labels node) MachineStatusKey
      in case scheduleMachineTypeKeys pool (node_Name node) of
           None \<Rightarrow> node_set_Labels ls node
         | Some keys \<Rightarrow>
             node_set_Labels (removeLabelKeys (mnp_MachineGroupName (p_Spec pool)) keys ls) node)"

text \<open>
  \<open>for index, t := range node.Spec.Taints\<close> with the deletion of \<open>index\<close> inside: the loop
  ranges over the slice header taken at its start (\<open>k\<close> iterations are left), reads the
  shared backing array, and deletes through the current header.
\<close>

fun removeStatusTaint_loop :: "nat \<Rightarrow> nat \<Rightarrow> Taint slice \<Rightarrow> Taint slice gores" where
  "removeStatusTaint_loop 0 index s = Ret s"
| "removeStatusTaint_loop (Suc k) index s =
     (if taint_Key (fst s ! index) \<noteq> MachineStatusKey
      then removeStatusTaint_loop k (Suc index) s
      else rbind (slice_del index s) (removeStatusTaint_loop k (Suc index)))"

definition removeStatusTaint :: "Taint list \<Rightarrow> Taint slice gores" where
  "removeStatusTaint ts = removeStatusTaint_loop (length ts) 0 (slice_of ts)"

fun removeTaintKeys :: "string list \<Rightarrow> Taint list \<Rightarrow> Taint list" where
  "removeTaintKeys [] ts = ts"
| "removeTaintKeys (mtKey # mtKeys) ts =
     (case GetTaintKeyIndex ts mtKey of
        None \<Rightarrow> removeTaintKeys mtKeys ts
      | Some idx \<Rightarrow> removeTaintKeys mtKeys (remove_at idx ts))"

definition removeNodeTaint :: "MachineNodePool \<Rightarrow> Node \<Rightarrow> Node gores" where
  "removeNodeTaint pool node =
     (let taints = ExtractKeyValueFromTaint (n_Taints node)
      in rbind (if taints MachineStatusKey \<noteq> None
                then rbind (removeStatusTaint (n_Taints node)) (\<lambda>s. Ret (slice_view s))
                else Ret (n_Taints node))
           (\<lambda>ts. case scheduleMachineTypeKeys pool (node_Name node) of
                   None \<Rightarrow> Ret (node\<lparr>n_Taints := ts\<rparr>)
                 | Some keys \<Rightarrow> Ret (node\<lparr>n_Taints := removeTaintKeys keys ts\<rparr>)))"

subsection \<open>cleanupNode\<close>

text \<open>\<open>if err != nil && !errors.IsNotFound(err)\<close>: a missing object leaves the zero value.\<close>

definition ignoreNotFound :: "'a \<Rightarrow> goerr + 'a \<Rightarrow> goerr + 'a" where
  "ignoreNotFound zero r =
     (case r of Inl e \<Rightarrow> (if is_not_found e then Inr zero else Inl e) | Inr x \<Rightarrow> Inr x)"

definition cleanupEdit :: "MachineNodePool \<Rightarrow> Node \<Rightarrow> Node gores" where
  "cleanupEdit pool node = removeNodeTaint pool (removeNodeLabel pool (removeNodeAnnotation node))"

text \<open>
  When nothing changed on a Node the function returns, whatever entries are left.
\<close>

fun cleanupNode_loop :: "('w, 'x) pool_env_scheme \<Rightarrow> MachineNodePool \<Rightarrow> NodePool list \<Rightarrow>
    ('w, goerr + unit) act" where
  "cleanupNode_loop E pool [] = aret (Inr ())"
| "cleanupNode_loop E pool (p # ps) =
     abind (acall (Get_Node E ([], np_Name p))) (\<lambda>r.
       case ignoreNotFound zero_node r of
         Inl e \<Rightarrow> aret (Inl e)
       | Inr originNode \<Rightarrow>
           abind (alift (cleanupEdit pool originNode)) (\<lambda>node.
             let annotationDiff = cmp_Diff_map E (node_Annotations originNode) (node_Annotations node);
                 labelDiff = cmp_Diff_map E (node_Labels originNode) (node_Labels node);
                 taintDiff = cmp_Diff_taints E (n_Taints originNode) (n_Taints node)
             in if annotationDiff = [] \<and> labelDiff = [] \<and> taintDiff = [] then aret (Inr ())
                else atry (acall (Update_Node E node)) (\<lambda>_.
                       abind (ado (Recorder_Eventf E
                          (''cleanup annotation, label and taint from '' @ node_Name node))) (\<lambda>_.
                       cleanupNode_loop E pool ps))))"

definition cleanupNode :: "('w, 'x) pool_env_scheme \<Rightarrow> MachineNodePool \<Rightarrow> ('w, goerr + unit) act" where
  "cleanupNode E pool = cleanupNode_loop E pool (mnp_NodePool (p_Spec pool))"

subsection \<open>reconcileNode\<close>

text \<open>Looking for a taint that makes the Node unusable.\<close>

fun nodeStatus_loop :: "bool \<Rightarrow> smap \<Rightarrow> string list \<Rightarrow> NodePoolMode" where
  "nodeStatus_loop test taints [] = NodeModeReady"
| "nodeStatus_loop test taints (t # ts) =
     (if taints t = None then nodeStatus_loop test taints ts
      else if test \<and> t = NodeNotReadyTaint then nodeStatus_loop test taints ts
      else NodeModeNotReady)"

definition newPoolMachineStatus :: "environ \<Rightarrow> NodePool \<Rightarrow> smap \<Rightarrow> NodePoolMode" where
  "newPoolMachineStatus env p taints =
     (if np_Mode p = NodeModeMaintenance then NodeModeMaintenance
      else nodeStatus_loop (envtest env) taints CannotUseNodeTaints)"

fun setLabelKeys :: "string \<Rightarrow> string list \<Rightarrow> smap \<Rightarrow> smap" where
  "setLabelKeys grp [] ls = ls"
| "setLabelKeys grp (mtKey # mtKeys) ls = setLabelKeys grp mtKeys (ls(mtKey \<mapsto> grp))"

text \<open>
  One taint: \<open>taints\<close> is the map extracted before any taint was set. The taint is appended
  when its key is not in the map and otherwise overwrites the first taint with that key.
\<close>

definition setTaint :: "smap \<Rightarrow> time \<Rightarrow> string \<Rightarrow> string \<Rightarrow> Taint list \<Rightarrow> Taint list" where
  "setTaint taints now key v ts =
     (let t = \<lparr>taint_Key = key, taint_Value = v, taint_Effect = TaintEffectNoSchedule,
               taint_TimeAdded = Some now\<rparr>
      in if taints key = None then ts @ [t]
         else case GetTaintKeyIndex ts key of Some idx \<Rightarrow> ts[idx := t] | None \<Rightarrow> ts)"

fun setTaintKeys :: "smap \<Rightarrow> time \<Rightarrow> string \<Rightarrow> string list \<Rightarrow> Taint list \<Rightarrow> Taint list" where
  "setTaintKeys taints now grp [] ts = ts"
| "setTaintKeys taints now grp (mtKey # mtKeys) ts =
     setTaintKeys taints now grp mtKeys (setTaint taints now mtKey grp ts)"

text \<open>The edit of one fetched Node, after the old labels and taints were removed.\<close>

definition setNode :: "environ \<Rightarrow> MachineNodePool \<Rightarrow> NodePool \<Rightarrow> time \<Rightarrow> Node \<Rightarrow> Node" where
  "setNode env pool p now node =
     (let grp = mnp_MachineGroupName (p_Spec pool);
          node = node_set_Annotations ((node_Annotations node)(MachineGroupKey \<mapsto> grp)) node;
          taints = ExtractKeyValueFromTaint (n_Taints node);
          newPoolMachineStatusValue = newPoolMachineStatus env p taints;
          scheduleMachineTypeKey = GetScheduleMachineTypeKeys (np_MachineType p);
          node = node_set_Labels
            (setLabelKeys grp scheduleMachineTypeKey
              ((node_Labels node)(MachineStatusKey \<mapsto> mode_Value newPoolMachineStatusValue))) node
      in if np_Taint p
         then node\<lparr>n_Taints :=
                setTaintKeys taints now grp scheduleMachineTypeKey
                  (setTaint taints now MachineStatusKey (mode_Value newPoolMachineStatusValue)
                    (n_Taints node))\<rparr>
         else node)"

definition cleanupOldEnv :: "MachineNodePool \<Rightarrow> NodePool \<Rightarrow> Node \<Rightarrow> Node gores" where
  "cleanupOldEnv pool p node =
     (let node = removeNodeLabel pool node
      in if np_Taint p then removeNodeTaint pool node else Ret node)"

definition reconcileNode_step :: "('w, 'x) pool_env_scheme \<Rightarrow> MachineNodePool \<Rightarrow> NodePool \<Rightarrow>
    ('w, goerr + unit) act" where
  "reconcileNode_step E pool p =
     atry (acall (Get_Node E ([], np_Name p))) (\<lambda>originNode.
     abind (alift (cleanupOldEnv pool p originNode)) (\<lambda>node.
     abind (if np_Taint p then acall (metav1_Now E) else aret 0) (\<lambda>now.
       let node = setNode (os_environ E) pool p now node;
           taintDiff = cmp_Diff_taints E (n_Taints originNode) (n_Taints node);
           labelDiff = cmp_Diff_map E (node_Labels originNode) (node_Labels node)
       in if taintDiff = [] \<and> labelDiff = [] then aret (Inr ())
          else atry (acall (Update_Node E node)) (\<lambda>_. aret (Inr ())))))"

fun reconcileNode_loop :: "('w, 'x) pool_env_scheme \<Rightarrow> MachineNodePool \<Rightarrow> NodePool list \<Rightarrow>
    ('w, goerr + unit) act" where
  "reconcileNode_loop E pool [] = aret (Inr ())"
| "reconcileNode_loop E pool (p # ps) =
     atry (reconcileNode_step E pool p) (\<lambda>_. reconcileNode_loop E pool ps)"

definition reconcileNode :: "('w, 'x) pool_env_scheme \<Rightarrow> MachineNodePool \<Rightarrow> ('w, goerr + unit) act" where
  "reconcileNode E pool = reconcileNode_loop E pool (mnp_NodePool (p_Spec pool))"

subsection \<open>updateStatus\<close>

fun statusTaint_loop :: "string \<Rightarrow> Taint list \<Rightarrow> string" where
  "statusTaint_loop nodeLabelCondition [] = nodeLabelCondition"
| "statusTaint_loop nodeLabelCondition (t # ts) =
     (if taint_Key t \<noteq> MachineStatusKey then statusTaint_loop nodeLabelCondition ts
      else statusTaint_loop (taint_Value t) ts)"

definition nodeCondition :: "NodePool \<Rightarrow> Node \<Rightarrow> MachineNodeCondition" where
  "nodeCondition p node =
     (let nodeLabelCondition = map_get (node_Labels node) MachineStatusKey;
          nodeLabelCondition = (if np_Taint p then statusTaint_loop nodeLabelCondition (n_Taints node)
                                else nodeLabelCondition)
      in if np_Mode p = NodeModeMaintenance then NodeMaintenance
         else if nodeLabelCondition = mode_Value NodeModeReady then NodeHealthy
         else if nodeLabelCondition = mode_Value NodeModeNotReady then NodeUnhealthy
         else [])"

fun nodeConditions_loop :: "('w, 'x) pool_env_scheme \<Rightarrow> NodePoolCondition list \<Rightarrow> NodePool list \<Rightarrow>
    ('w, goerr + NodePoolCondition list) act" where
  "nodeConditions_loop E nodeConditions [] = aret (Inr nodeConditions)"
| "nodeConditions_loop E nodeConditions (p # ps) =
     atry (acall (Get_Node E ([], np_Name p))) (\<lambda>node.
       nodeConditions_loop E
         (nodeConditions @ [\<lparr>npc_Name = np_Name p, npc_NodeCondition = nodeCondition p node\<rparr>]) ps)"

definition readyCondition :: "bool \<Rightarrow> time \<Rightarrow> string \<Rightarrow> Condition" where
  "readyCondition ok now msg =
     \<lparr>cond_Type = ConditionReady,
      cond_Status = (if ok then ''True'' else ''False''),
      cond_LastTransitionTime = now,
      cond_Reason = (if ok then ''Success'' else ''Failure''),
      cond_Message = msg\<rparr>"

definition pool_setCondition :: "('w, 'x) base_env_scheme \<Rightarrow> Condition \<Rightarrow> MachineNodePool \<Rightarrow> MachineNodePool" where
  "pool_setCondition E c pool =
     pool\<lparr>p_Status := (p_Status pool)
       \<lparr>mnps_Conditions := meta_SetStatusCondition E c (mnps_Conditions (p_Status pool))\<rparr>\<rparr>"

definition pool_updateStatus :: "('w, 'x) pool_env_scheme \<Rightarrow> MachineNodePool \<Rightarrow> ('w, reconcile_out) act" where
  "pool_updateStatus E pool =
     abind (nodeConditions_loop E [] (mnp_NodePool (p_Spec pool))) (\<lambda>r.
       case r of
         Inl e \<Rightarrow> aret (\<lparr>Requeue = True\<rparr>, Some e)
       | Inr nodeConditions \<Rightarrow>
           if \<not> cmp_Equal_conds E (mnps_NodePoolCondition (p_Status pool)) nodeConditions
           then
             abind (ado (Recorder_Eventf E ''updated Node condition in status'')) (\<lambda>_.
             abind (acall (metav1_Now E)) (\<lambda>now.
             let pool = pool\<lparr>p_Status := (p_Status pool)\<lparr>mnps_NodePoolCondition := nodeConditions\<rparr>\<rparr>;
                 pool = pool_setCondition E (readyCondition True now ''update status conditions'') pool
             in abind (acall (StatusUpdate_Pool E pool)) (\<lambda>r.
                  case r of
                    Inl e \<Rightarrow> aret (\<lparr>Requeue = True\<rparr>, Some e)
                  | Inr _ \<Rightarrow> aret (\<lparr>Requeue = False\<rparr>, None))))
           else aret (\<lparr>Requeue = False\<rparr>, None))"

subsection \<open>reconcile\<close>

definition pool_setFinalizers :: "string list \<Rightarrow> MachineNodePool \<Rightarrow> MachineNodePool" where
  "pool_setFinalizers fs pool = pool\<lparr>p_Meta := (p_Meta pool)\<lparr>Finalizers := fs\<rparr>\<rparr>"

text \<open>\<open>r.Update(ctx, pool)\<close>, the error return, and the event on success.\<close>

definition updatePool_event :: "('w, 'x) pool_env_scheme \<Rightarrow> MachineNodePool \<Rightarrow> string \<Rightarrow>
    ('w, reconcile_out) act" where
  "updatePool_event E pool msg =
     abind (acall (Update_Pool E pool)) (\<lambda>r.
       case r of
         Inl e \<Rightarrow> aret (\<lparr>Requeue = True\<rparr>, Some e)
       | Inr _ \<Rightarrow> abind (ado (Recorder_Eventf E msg)) (\<lambda>_. aret (\<lparr>Requeue = False\<rparr>, None)))"

definition pool_reconcile :: "('w, 'x) pool_env_scheme \<Rightarrow> MachineNodePool \<Rightarrow> ('w, reconcile_out) act" where
  "pool_reconcile E pool =
     (let fs = Finalizers (p_Meta pool)
      in if Time_IsZero E (DeletionTimestamp (p_Meta pool)) then
           (if \<not> ContainsFinalizer E fs MachineNodePoolFinalizer
            then updatePool_event E
                   (pool_setFinalizers (AddFinalizer E fs MachineNodePoolFinalizer) pool)
                   ''add finalizer''
            else
              abind (reconcileNode E pool) (\<lambda>r.
                case r of
                  Inl e \<Rightarrow>
                    abind (acall (metav1_Now E)) (\<lambda>now.
                    abind (acall (StatusUpdate_Pool E
                             (pool_setCondition E (readyCondition False now (err_text e)) pool))) (\<lambda>_.
                    aret (\<lparr>Requeue = True\<rparr>, Some e)))
                | Inr _ \<Rightarrow> pool_updateStatus E pool))
         else
           (if ContainsFinalizer E fs MachineNodePoolFinalizer
            then
              abind (cleanupNode E pool) (\<lambda>r.
                case r of
                  Inl e \<Rightarrow> aret (\<lparr>Requeue = True\<rparr>, Some e)
                | Inr _ \<Rightarrow>
                    updatePool_event E
                      (pool_setFinalizers (RemoveFinalizer E fs MachineNodePoolFinalizer) pool)
                      ''remove finalizer'')
            else aret (\<lparr>Requeue = False\<rparr>, None)))"

definition pool_Reconcile :: "('w, 'x) pool_env_scheme \<Rightarrow> ObjectKey \<Rightarrow> ('w, reconcile_out) act" where
  "pool_Reconcile E req =
     abind (acall (Get_Pool E req)) (\<lambda>r.
       case r of
         Inl e \<Rightarrow> (if is_not_found e then aret (\<lparr>Requeue = False\<rparr>, None)
                   else aret (\<lparr>Requeue = True\<rparr>, Some e))
       | Inr pool \<Rightarrow> pool_reconcile E pool)"

subsection \<open>Which events start a run\<close>

datatype node_event = CreateEvent Node | UpdateEvent Node Node | DeleteEvent Node | GenericEvent Node

fun nodePredicates :: "('w, 'x) pool_env_scheme \<Rightarrow> node_event \<Rightarrow> bool" where
  "nodePredicates E (CreateEvent _) = False"
| "nodePredicates E (UpdateEvent old new) =
     (if \<not> cmp_Equal_map E (node_Labels new) (node_Labels old) then True
      else if \<not> cmp_Equal_map E (node_Annotations new) (node_Annotations old) then True
      else \<not> cmp_Equal_taints E (n_Taints new) (n_Taints old))"
| "nodePredicates E (DeleteEvent _) = False"
| "nodePredicates E (GenericEvent _) = False"

fun nodeReconcileRequest_loop :: "ObjectKey list \<Rightarrow> Node \<Rightarrow> MachineNodePool list \<Rightarrow> ObjectKey list" where
  "nodeReconcileRequest_loop req node [] = req"
| "nodeReconcileRequest_loop req node (pool # pools) =
     nodeReconcileRequest_loop
       (if mnp_MachineGroupName (p_Spec pool) = map_get (node_Annotations node) MachineGroupKey
        then req @ [ObjectKeyFromMeta (p_Meta pool)] else req) node pools"

definition nodeReconcileRequest :: "('w, 'x) pool_env_scheme \<Rightarrow> Node \<Rightarrow> ('w, ObjectKey list) act" where
  "nodeReconcileRequest E node =
     abind (acall (List_Pools E)) (\<lambda>r.
       case r of
         Inl _ \<Rightarrow> aret []
       | Inr pools \<Rightarrow> aret (nodeReconcileRequest_loop [] node pools))"

end
