(* ===== verification/NodeEdits.thy ===== *)
theory NodeEdits
  imports NodePoolController
begin

text \<open>
  What the node pool controller's edits do to one Node: the label map and the taint list that
  \<open>removeNodeLabel\<close>, \<open>removeNodeTaint\<close> and \<open>setNode\<close> produce, and when the in-place deletion
  of the status taint panics.
\<close>

subsection \<open>The keys of a pool entry\<close>

abbreviation entries :: "MachineNodePool \<Rightarrow> NodePool list" where
  "entries pool \<equiv> mnp_NodePool (p_Spec pool)"

abbreviation group_of :: "MachineNodePool \<Rightarrow> string" where
  "group_of pool \<equiv> mnp_MachineGroupName (p_Spec pool)"

abbreviation entry_keys :: "NodePool \<Rightarrow> string list" where
  "entry_keys p \<equiv> GetScheduleMachineTypeKeys (np_MachineType p)"

lemma schedule_loop:
  "distinct (map np_Name ps) \<Longrightarrow>
   scheduleMachineTypeKeys_loop m ps k =
     (case find (\<lambda>p. np_Name p = k) ps of Some p \<Rightarrow> Some (entry_keys p) | None \<Rightarrow> m k)"
proof (induction ps arbitrary: m)
  case Nil
  then show ?case by simp
next
  case (Cons p ps)
  have "find (\<lambda>q. np_Name q = np_Name p) ps = None"
    using Cons.prems by (simp add: find_None_iff) (metis image_eqI)
  with Cons show ?case by (auto split: option.split)
qed

lemma find_distinct:
  "distinct (map f ps) \<Longrightarrow> p \<in> set ps \<Longrightarrow> find (\<lambda>q. f q = f p) ps = Some p"
  by (induction ps) auto

lemma schedule_keys_entry:
  assumes "distinct (map np_Name (entries pool))" and "p \<in> set (entries pool)"
  shows "scheduleMachineTypeKeys pool (np_Name p) = Some (entry_keys p)"
  using assms by (simp add: scheduleMachineTypeKeys_def schedule_loop find_distinct)

subsection \<open>Labels\<close>

lemma removeLabelKeys_apply:
  "removeLabelKeys g ks ls k = (if k \<in> set ks \<and> map_get ls k = g then None else ls k)"
proof (induction ks arbitrary: ls)
  case Nil
  then show ?case by simp
next
  case (Cons a ks)
  then show ?case
    by (auto simp: map_get_def split: option.splits)
qed

lemma setLabelKeys_apply: "setLabelKeys g ks ls k = (if k \<in> set ks then Some g else ls k)"
  by (induction ks arbitrary: ls) auto

lemma removeNodeLabel_frame [simp]:
  "node_Name (removeNodeLabel pool n) = node_Name n"
  "node_Annotations (removeNodeLabel pool n) = node_Annotations n"
  "n_Taints (removeNodeLabel pool n) = n_Taints n"
  by (simp_all add: removeNodeLabel_def Let_def split: option.split)

lemma removeNodeLabel_labels:
  assumes "scheduleMachineTypeKeys pool (node_Name n) = Some ks"
  shows "node_Labels (removeNodeLabel pool n) k =
    (if k = MachineStatusKey \<or> k \<in> set ks \<and> map_get (node_Labels n) k = group_of pool
     then None else node_Labels n k)"
  using assms
  by (auto simp: removeNodeLabel_def Let_def removeLabelKeys_apply map_get_def split: option.splits)

subsection \<open>Deleting while ranging\<close>

abbreviation is_status :: "Taint \<Rightarrow> bool" where
  "is_status t \<equiv> taint_Key t = MachineStatusKey"

abbreviation count_key :: "string \<Rightarrow> Taint list \<Rightarrow> nat" where
  "count_key k ts \<equiv> length (filter (\<lambda>t. taint_Key t = k) ts)"

lemma loop_skip:
  assumes "\<forall>j. i \<le> j \<and> j < i + k \<longrightarrow> \<not> is_status (fst s ! j)"
  shows "removeStatusTaint_loop k i s = Ret s"
  using assms by (induction k arbitrary: i) auto

lemma loop_prefix:
  assumes "\<forall>j. i \<le> j \<and> j < i + k \<longrightarrow> \<not> is_status (fst s ! j)"
  shows "removeStatusTaint_loop (k + l) i s = removeStatusTaint_loop l (i + k) s"
  using assms
proof (induction k arbitrary: i)
  case 0
  then show ?case by simp
next
  case (Suc k)
  have "\<not> is_status (fst s ! i)" using Suc.prems by simp
  moreover have "removeStatusTaint_loop (k + l) (Suc i) s = removeStatusTaint_loop l (Suc i + k) s"
    by (rule Suc.IH) (use Suc.prems in auto)
  ultimately show ?case by simp
qed

text \<open>The first status taint is found at its place and deleted.\<close>

lemma loop_first:
  assumes "\<forall>t \<in> set a. \<not> is_status t" and "is_status s"
  shows "removeStatusTaint_loop (length (a @ s # b)) 0 (slice_of (a @ s # b)) =
    removeStatusTaint_loop (length b) (Suc (length a))
      (a @ b @ [last (s # b)], length a + length b)"
proof -
  have skip: "\<forall>j. 0 \<le> j \<and> j < 0 + length a \<longrightarrow> \<not> is_status (fst (slice_of (a @ s # b)) ! j)"
    using assms(1) by (auto simp: nth_append)
  have del: "slice_del (length a) (slice_of (a @ s # b)) =
      Ret (a @ b @ [last (s # b)], length a + length b)"
    by (cases b rule: rev_cases) (simp_all add: slice_del_def slice_of_def nth_append)
  have "removeStatusTaint_loop (length a + Suc (length b)) 0 (slice_of (a @ s # b)) =
      removeStatusTaint_loop (Suc (length b)) (length a) (slice_of (a @ s # b))"
    using loop_prefix [OF skip, of "Suc (length b)"] by simp
  also have "\<dots> = removeStatusTaint_loop (length b) (Suc (length a))
      (a @ b @ [last (s # b)], length a + length b)"
    using assms(2) del by simp
  finally show ?thesis by simp
qed

lemma slice_del_nth:
  assumes "slice_del i (arr, m) = Ret (arr', m')" and "m \<le> length arr"
  shows "i < m" "m' = m - 1" "length arr' = length arr"
    "\<And>j. j < length arr \<Longrightarrow> arr' ! j = (if i \<le> j \<and> j < m - 1 then arr ! Suc j else arr ! j)"
proof -
  show m: "i < m" "m' = m - 1"
    using assms(1) by (auto simp: slice_del_def split: if_splits)
  have arr': "arr' = take i arr @ drop (Suc i) (take m arr) @ drop (m - 1) arr"
    using assms(1) m(1) by (auto simp: slice_del_def)
  show "length arr' = length arr" using m assms(2) by (simp add: arr')
  show "arr' ! j = (if i \<le> j \<and> j < m - 1 then arr ! Suc j else arr ! j)"
    if j: "j < length arr" for j
  proof -
    consider "j < i" | "i \<le> j" "j < m - 1" | "i \<le> j" "m - 1 \<le> j" by linarith
    then show ?thesis
      using m assms(2) j by cases (auto simp: arr' nth_append min_def)
  qed
qed

text \<open>Once a cell has been freed, a status taint in the last cell is a panic ...\<close>

lemma loop_panics:
  assumes "is_status (arr ! (i + k - 1))" and "m < i + k" and "0 < k" and "length arr = i + k"
  shows "removeStatusTaint_loop k i (arr, m) = Panic"
  using assms
proof (induction k arbitrary: i arr m)
  case 0
  then show ?case by simp
next
  case (Suc k)
  show ?case
  proof (cases "is_status (arr ! i)")
    case False
    then have "k \<noteq> 0" using Suc.prems(1) by (cases k) auto
    with False Suc.IH [of arr "Suc i" m] Suc.prems show ?thesis by simp
  next
    case True
    show ?thesis
    proof (cases "slice_del i (arr, m)")
      case Panic
      with True show ?thesis by simp
    next
      case (Ret s)
      obtain arr' m' where s: "s = (arr', m')" by (cases s)
      note del = slice_del_nth [OF Ret [unfolded s]]
      have "is_status (arr' ! (Suc i + k - 1))" "m' < Suc i + k" "0 < k" "length arr' = Suc i + k"
        using del Suc.prems by auto
      from Suc.IH [OF this] True Ret show ?thesis by (simp add: s)
    qed
  qed
qed

text \<open>... and otherwise the loop ends: the freed cells all hold the last taint.\<close>

lemma loop_no_panic:
  assumes "0 < m" "m < length arr" "i + k = length arr"
    and "\<forall>j. m - 1 \<le> j \<and> j < length arr \<longrightarrow> \<not> is_status (arr ! j)"
  shows "removeStatusTaint_loop k i (arr, m) \<noteq> Panic"
  using assms
proof (induction k arbitrary: i arr m)
  case 0
  then show ?case by simp
next
  case (Suc k)
  show ?case
  proof (cases "is_status (arr ! i)")
    case False
    with Suc.IH [of m arr "Suc i"] Suc.prems show ?thesis by simp
  next
    case True
    have i: "i < m - 1"
      by (rule ccontr) (use Suc.prems True in auto)
    obtain arr' m' where del: "slice_del i (arr, m) = Ret (arr', m')"
      using i by (cases "slice_del i (arr, m)") (auto simp: slice_del_def split: if_splits)
    note del' = slice_del_nth [OF del less_imp_le [OF Suc.prems(2)]]
    have "\<not> is_status (arr' ! j)" if "m' - 1 \<le> j" "j < length arr'" for j
    proof (cases "j < m - 1")
      case True
      then have "m - 1 \<le> Suc j" "Suc j < length arr" using that del' Suc.prems(2) i by auto
      then show ?thesis using True that del' i Suc.prems(4) by auto
    next
      case False
      then show ?thesis using that del' Suc.prems(4) by auto
    qed
    then have "removeStatusTaint_loop k (Suc i) (arr', m') \<noteq> Panic"
      using del' Suc.prems i by (intro Suc.IH) auto
    with True del show ?thesis by simp
  qed
qed

lemma count_split:
  assumes "\<forall>t \<in> set a. \<not> is_status t" and "is_status s"
  shows "count_key MachineStatusKey (a @ s # b) = Suc (count_key MachineStatusKey b)"
  using assms by simp

lemma removeStatusTaint_panic:
  "removeStatusTaint ts = Panic \<longleftrightarrow> 2 \<le> count_key MachineStatusKey ts \<and> is_status (last ts)"
proof (cases "\<exists>t \<in> set ts. is_status t")
  case False
  then have "removeStatusTaint ts = Ret (slice_of ts)"
    unfolding removeStatusTaint_def by (intro loop_skip) auto
  moreover from False have "count_key MachineStatusKey ts = 0" by (simp add: filter_empty_conv)
  ultimately show ?thesis by simp
next
  case True
  then obtain a s b where ts: "ts = a @ s # b" and s: "is_status s" and a: "\<forall>t \<in> set a. \<not> is_status t"
    using split_list_first_prop [of ts is_status] by blast
  note first = loop_first [OF a s, of b, folded ts, folded removeStatusTaint_def]
  show ?thesis
  proof (cases "b = []")
    case True
    with first have "removeStatusTaint ts \<noteq> Panic" by simp
    moreover from True have "count_key MachineStatusKey ts = 1" using a s by (simp add: ts)
    ultimately show ?thesis by simp
  next
    case b: False
    let ?arr = "a @ b @ [last b]"
    have last: "last ts = last b" "?arr ! (length a + length b) = last b"
      "?arr ! (length a + length b - 1) = last b"
      using b by (cases b rule: rev_cases; simp add: ts nth_append)+
    have run: "removeStatusTaint ts =
        removeStatusTaint_loop (length b) (Suc (length a)) (?arr, length a + length b)"
      using first b by simp
    show ?thesis
    proof (cases "is_status (last b)")
      case True
      then have "removeStatusTaint ts = Panic"
        unfolding run using b last by (intro loop_panics) auto
      moreover have "2 \<le> count_key MachineStatusKey ts"
      proof -
        have "last b \<in> set (filter is_status b)" using True b by simp
        then have "count_key MachineStatusKey b \<noteq> 0" by (metis length_0_conv empty_iff empty_set)
        then show ?thesis unfolding ts count_split [OF a s] by linarith
      qed
      ultimately show ?thesis using True last(1) by simp
    next
      case False
      have "\<not> is_status (?arr ! j)" if "length a + length b - 1 \<le> j" "j < length ?arr" for j
      proof -
        have "j = length a + length b - 1 \<or> j = length a + length b" using that by auto
        then show ?thesis using False last by auto
      qed
      then have "removeStatusTaint ts \<noteq> Panic"
        unfolding run using b by (intro loop_no_panic) auto
      with False last(1) show ?thesis by simp
    qed
  qed
qed

text \<open>With one status taint the loop is the filter it is meant to be.\<close>

lemma removeStatusTaint_unique:
  assumes "count_key MachineStatusKey ts \<le> 1"
  obtains s where "removeStatusTaint ts = Ret s"
    and "slice_view s = filter (\<lambda>t. \<not> is_status t) ts"
proof (cases "\<exists>t \<in> set ts. is_status t")
  case False
  then have "removeStatusTaint ts = Ret (slice_of ts)"
    unfolding removeStatusTaint_def by (intro loop_skip) auto
  with False that show thesis by (auto simp: filter_id_conv)
next
  case True
  then obtain a s b where ts: "ts = a @ s # b" and s: "is_status s" and a: "\<forall>t \<in> set a. \<not> is_status t"
    using split_list_first_prop [of ts is_status] by blast
  from assms count_split [OF a s, of b] have b: "\<forall>t \<in> set b. \<not> is_status t"
    by (simp add: ts filter_empty_conv)
  have "removeStatusTaint ts = removeStatusTaint_loop (length b) (Suc (length a))
      (a @ b @ [last (s # b)], length a + length b)"
    using loop_first [OF a s, of b, folded ts, folded removeStatusTaint_def] .
  also have "\<dots> = Ret (a @ b @ [last (s # b)], length a + length b)"
  proof (rule loop_skip, intro allI impI)
    fix j assume j: "Suc (length a) \<le> j \<and> j < Suc (length a) + length b"
    then have "(a @ b @ [last (s # b)]) ! j \<in> set b"
      by (auto simp: nth_append)
    with b show "\<not> is_status (fst (a @ b @ [last (s # b)], length a + length b) ! j)" by simp
  qed
  finally have "removeStatusTaint ts = Ret (a @ b @ [last (s # b)], length a + length b)" .
  moreover have "slice_view (a @ b @ [last (s # b)], length a + length b) = filter (\<lambda>t. \<not> is_status t) ts"
    using a b s by (simp add: slice_view_def ts filter_id_conv)
  ultimately show thesis by (rule that)
qed

subsection \<open>The taints of one Node\<close>

text \<open>At most one taint for each of the given keys (other keys may occur several times).\<close>

definition own_unique :: "string list \<Rightarrow> Taint list \<Rightarrow> bool" where
  "own_unique ks ts \<longleftrightarrow> (\<forall>k \<in> set ks. count_key k ts \<le> 1)"

abbreviation managed_keys :: "NodePool \<Rightarrow> string list" where
  "managed_keys p \<equiv> MachineStatusKey # entry_keys p"

definition without_keys :: "string list \<Rightarrow> Taint list \<Rightarrow> Taint list" where
  "without_keys ks ts = filter (\<lambda>t. taint_Key t \<notin> set ks) ts"

definition new_taint :: "time \<Rightarrow> string \<Rightarrow> string \<Rightarrow> Taint" where
  "new_taint now key v = \<lparr>taint_Key = key, taint_Value = v,
     taint_Effect = TaintEffectNoSchedule, taint_TimeAdded = Some now\<rparr>"

lemma new_taint_sel [simp]:
  "taint_Key (new_taint now key v) = key" "taint_Value (new_taint now key v) = v"
  "taint_Effect (new_taint now key v) = TaintEffectNoSchedule"
  "taint_TimeAdded (new_taint now key v) = Some now"
  by (simp_all add: new_taint_def)

lemma count_key_filter: "count_key k (filter P ts) \<le> count_key k ts"
  by (induction ts) auto

lemma own_unique_filter: "own_unique ks ts \<Longrightarrow> own_unique ks (filter P ts)"
  unfolding own_unique_def using count_key_filter order_trans by blast

lemma removeTaintKeys_unique:
  "own_unique ks ts \<Longrightarrow> removeTaintKeys ks ts = without_keys ks ts"
proof (induction ks arbitrary: ts)
  case Nil
  then show ?case by (simp add: without_keys_def)
next
  case (Cons k ks)
  have uniq: "own_unique ks ts" "count_key k ts \<le> 1"
    using Cons.prems by (simp_all add: own_unique_def)
  show ?case
  proof (cases "GetTaintKeyIndex ts k")
    case None
    then have "\<forall>t \<in> set ts. taint_Key t \<noteq> k" using taint_index.search_None by blast
    then have "without_keys (k # ks) ts = without_keys ks ts"
      unfolding without_keys_def by (intro filter_cong) auto
    with None Cons.IH uniq show ?thesis by simp
  next
    case (Some i)
    have "remove_at i ts = filter (\<lambda>t. taint_Key t \<noteq> k) ts"
      by (rule taint_index.remove_only_hit [OF Some uniq(2)])
    moreover have "without_keys ks (filter (\<lambda>t. taint_Key t \<noteq> k) ts) = without_keys (k # ks) ts"
      by (auto simp: without_keys_def intro: filter_cong)
    ultimately show ?thesis
      using Some Cons.IH [OF own_unique_filter [OF uniq(1)]] by simp
  qed
qed

text \<open>Taints with other keys are never touched, whatever the node carries.\<close>

lemma removeTaintKeys_others:
  "without_keys ks (removeTaintKeys ks ts) = without_keys ks ts"
proof (induction ks arbitrary: ts)
  case Nil
  then show ?case by simp
next
  case (Cons k ks)
  have step: "without_keys (k # ks) xs = without_keys ks (filter (\<lambda>t. taint_Key t \<noteq> k) xs)"
      "without_keys (k # ks) xs = filter (\<lambda>t. taint_Key t \<noteq> k) (without_keys ks xs)" for xs
    by (auto simp: without_keys_def intro: filter_cong)
  show ?case
  proof (cases "GetTaintKeyIndex ts k")
    case None
    then show ?thesis using Cons.IH [of ts] by (simp add: step(2))
  next
    case (Some i)
    have "without_keys (k # ks) (removeTaintKeys (k # ks) ts) = without_keys (k # ks) (remove_at i ts)"
      using Some Cons.IH [of "remove_at i ts"] by (simp add: step(2))
    also have "\<dots> = without_keys (k # ks) ts"
      by (simp only: step(1) taint_index.remove_hit_others [OF Some])
    finally show ?thesis .
  qed
qed

lemma removeNodeTaint_unique:
  assumes "scheduleMachineTypeKeys pool (node_Name n) = Some ks"
    and "own_unique (MachineStatusKey # ks) (n_Taints n)"
  shows "removeNodeTaint pool n = Ret (n\<lparr>n_Taints := without_keys (MachineStatusKey # ks) (n_Taints n)\<rparr>)"
proof -
  let ?ts = "n_Taints n"
  have count: "count_key MachineStatusKey ?ts \<le> 1" and ks: "own_unique ks ?ts"
    using assms(2) by (simp_all add: own_unique_def)
  obtain s where s: "removeStatusTaint ?ts = Ret s" "slice_view s = filter (\<lambda>t. \<not> is_status t) ?ts"
    by (rule removeStatusTaint_unique [OF count])
  have none: "filter (\<lambda>t. \<not> is_status t) ?ts = ?ts" if "ExtractKeyValueFromTaint ?ts MachineStatusKey = None"
    using that by (simp add: extract_None_iff)
  have "removeNodeTaint pool n =
      Ret (n\<lparr>n_Taints := removeTaintKeys ks (filter (\<lambda>t. \<not> is_status t) ?ts)\<rparr>)"
    using s none by (simp add: removeNodeTaint_def assms(1))
  also have "removeTaintKeys ks (filter (\<lambda>t. \<not> is_status t) ?ts)
      = without_keys (MachineStatusKey # ks) ?ts"
    using removeTaintKeys_unique [OF own_unique_filter [OF ks]]
    by (auto simp: without_keys_def intro: filter_cong)
  finally show ?thesis .
qed

text \<open>The only panic of \<open>removeNodeTaint\<close> is the one of the status-taint loop.\<close>

lemma removeNodeTaint_panic:
  "removeNodeTaint pool n = Panic \<longleftrightarrow>
     2 \<le> count_key MachineStatusKey (n_Taints n) \<and> is_status (last (n_Taints n))"
proof (cases "ExtractKeyValueFromTaint (n_Taints n) MachineStatusKey")
  case None
  then have "count_key MachineStatusKey (n_Taints n) = 0"
    by (auto simp: extract_None_iff filter_empty_conv)
  with None show ?thesis by (simp add: removeNodeTaint_def split: option.split)
next
  case (Some v)
  then show ?thesis
    by (cases "scheduleMachineTypeKeys pool (node_Name n)")
      (simp_all add: removeNodeTaint_def rbind_eq_Panic removeStatusTaint_panic)
qed

lemma setTaint_fresh: "m k = None \<Longrightarrow> setTaint m now k v ts = ts @ [new_taint now k v]"
  by (simp add: setTaint_def new_taint_def)

lemma setTaintKeys_fresh:
  "\<forall>k \<in> set ks. m k = None \<Longrightarrow>
   setTaintKeys m now g ks ts = ts @ map (\<lambda>k. new_taint now k g) ks"
  by (induction ks arbitrary: ts) (simp_all add: setTaint_fresh)

subsection \<open>The status written\<close>

definition expected_status :: "environ \<Rightarrow> NodePool \<Rightarrow> Taint list \<Rightarrow> NodePoolMode" where
  "expected_status env p ts =
     (if np_Mode p = NodeModeMaintenance then NodeModeMaintenance
      else if \<exists>t \<in> set ts. taint_Key t \<in> set CannotUseNodeTaints \<and>
                \<not> (envtest env \<and> taint_Key t = NodeNotReadyTaint)
      then NodeModeNotReady else NodeModeReady)"

lemma nodeStatus_loop_eq:
  "nodeStatus_loop test m ks =
     (if \<exists>k \<in> set ks. m k \<noteq> None \<and> \<not> (test \<and> k = NodeNotReadyTaint)
      then NodeModeNotReady else NodeModeReady)"
proof (induction ks)
  case Nil
  then show ?case by simp
next
  case (Cons k ks)
  then show ?case by (cases "m k"; cases test; cases "k = NodeNotReadyTaint") simp_all
qed

lemma newPoolMachineStatus_eq:
  "newPoolMachineStatus env p (ExtractKeyValueFromTaint ts) = expected_status env p ts"
proof -
  have "(\<exists>k \<in> set CannotUseNodeTaints. ExtractKeyValueFromTaint ts k \<noteq> None \<and>
            \<not> (envtest env \<and> k = NodeNotReadyTaint)) \<longleftrightarrow>
        (\<exists>t \<in> set ts. taint_Key t \<in> set CannotUseNodeTaints \<and>
            \<not> (envtest env \<and> taint_Key t = NodeNotReadyTaint))"
    by (auto simp: extract_None_iff simp del: not_None_eq)
  then show ?thesis
    by (simp add: newPoolMachineStatus_def expected_status_def nodeStatus_loop_eq del: not_None_eq)
qed

lemma managed_not_unusable:
  "k \<in> set (managed_keys p) \<Longrightarrow> k \<notin> set CannotUseNodeTaints"
  by (auto simp: schedule_keys)

lemma expected_status_without:
  "expected_status env p (without_keys (managed_keys q) ts @ us) = expected_status env p ts"
  if "\<forall>t \<in> set us. taint_Key t \<in> set (managed_keys q)"
proof -
  have "(\<exists>t \<in> set (without_keys (managed_keys q) ts @ us). taint_Key t \<in> set CannotUseNodeTaints \<and> P t)
      \<longleftrightarrow> (\<exists>t \<in> set ts. taint_Key t \<in> set CannotUseNodeTaints \<and> P t)" for P
    using that managed_not_unusable [of _ q] by (auto simp: without_keys_def)
  then show ?thesis by (simp add: expected_status_def)
qed

lemma expected_status_cases:
  "expected_status env p ts \<in> {NodeModeReady, NodeModeNotReady, NodeModeMaintenance}"
  by (simp add: expected_status_def)

end
