(* ===== verification/NodePoolProofs.thy ===== *)
theory NodePoolProofs
  imports NodeEdits
begin

text \<open>
  The node pool controller as a whole: the edit of one Node refines the abstract \<open>prepared\<close>
  Node, the loop over the pool establishes it on every Node, it never touches what it does
  not manage, and the status it reports is the status it wrote. Also the deviations: runs
  that panic, that stop early, or that write again and again.
\<close>

subsection \<open>The abstract result of one edit\<close>

text \<open>
  What a well-formed pool is: one entry per Node, machine types of an entry all different,
  and no machine type whose label key is the key of the status label itself.
\<close>

definition entry_wf :: "NodePool \<Rightarrow> bool" where
  "entry_wf p \<longleftrightarrow> distinct (map npmt_Name (np_MachineType p)) \<and>
     (\<forall>mt \<in> set (np_MachineType p). npmt_Name mt \<noteq> ''node-pool'')"

definition pool_wf :: "MachineNodePool \<Rightarrow> bool" where
  "pool_wf pool \<longleftrightarrow> distinct (map np_Name (entries pool)) \<and> (\<forall>p \<in> set (entries pool). entry_wf p)"

lemma pool_wfD:
  assumes "pool_wf pool"
  shows "distinct (map np_Name (entries pool))" "distinct (entries pool)"
    "p \<in> set (entries pool) \<Longrightarrow> entry_wf p"
  using assms by (auto simp: pool_wf_def distinct_map)

lemma entry_wf_keys:
  assumes "entry_wf p"
  shows "distinct (managed_keys p)" "MachineStatusKey \<notin> set (entry_keys p)"
  using assms
  by (auto simp: entry_wf_def schedule_keys distinct_map inj_on_def machine_type_key_status')

definition managed_taints :: "environ \<Rightarrow> string \<Rightarrow> NodePool \<Rightarrow> time \<Rightarrow> Taint list \<Rightarrow> Taint list" where
  "managed_taints env grp p now ts =
     new_taint now MachineStatusKey (expected_status env p ts) #
       map (\<lambda>k. new_taint now k grp) (entry_keys p)"

definition prepared_labels :: "environ \<Rightarrow> string \<Rightarrow> NodePool \<Rightarrow> Taint list \<Rightarrow> smap \<Rightarrow> smap" where
  "prepared_labels env grp p ts ls =
     (\<lambda>k. if k \<in> set (entry_keys p) then Some grp
          else if k = MachineStatusKey then Some (expected_status env p ts)
          else ls k)"

definition prepared :: "environ \<Rightarrow> MachineNodePool \<Rightarrow> NodePool \<Rightarrow> time \<Rightarrow> Node \<Rightarrow> Node" where
  "prepared env pool p now n =
     n\<lparr>n_Meta := (n_Meta n)
         \<lparr>Labels := prepared_labels env (group_of pool) p (n_Taints n) (node_Labels n),
          Annotations := (node_Annotations n)(MachineGroupKey \<mapsto> group_of pool)\<rparr>,
       n_Taints := (if np_Taint p
                    then without_keys (managed_keys p) (n_Taints n) @
                         managed_taints env (group_of pool) p now (n_Taints n)
                    else n_Taints n)\<rparr>"

lemma extract_without:
  "k \<in> set ks \<Longrightarrow> ExtractKeyValueFromTaint (without_keys ks ts) k = None"
  by (auto simp: extract_None_iff without_keys_def)

lemma setNode_labels:
  assumes "scheduleMachineTypeKeys pool (node_Name n) = Some (entry_keys p)"
    and st: "newPoolMachineStatus env p (ExtractKeyValueFromTaint ts) = expected_status env p (n_Taints n)"
  shows "setNode env pool p now ((removeNodeLabel pool n)\<lparr>n_Taints := ts\<rparr>) =
    (prepared env pool p now n)\<lparr>n_Taints :=
       (if np_Taint p
        then setTaintKeys (ExtractKeyValueFromTaint ts) now (group_of pool) (entry_keys p)
          (setTaint (ExtractKeyValueFromTaint ts) now MachineStatusKey
            (expected_status env p (n_Taints n)) ts)
        else ts)\<rparr>"
proof -
  obtain ls where ls: "removeNodeLabel pool n = node_set_Labels ls n"
    using assms(1) by (simp add: removeNodeLabel_def Let_def)
  have labels: "setLabelKeys (group_of pool) (entry_keys p)
      (ls(MachineStatusKey \<mapsto> expected_status env p (n_Taints n)))
    = prepared_labels env (group_of pool) p (n_Taints n) (node_Labels n)"
    using removeNodeLabel_labels [OF assms(1)]
    by (auto simp: fun_eq_iff setLabelKeys_apply prepared_labels_def ls)
  show ?thesis
    using labels st
    by (simp add: ls setNode_def Let_def node_set_Labels_def node_set_Annotations_def
        mode_Value_def prepared_def)
qed

lemma edit_refines:
  assumes "distinct (map np_Name (entries pool))" and "p \<in> set (entries pool)"
    and "node_Name n = np_Name p"
    and "np_Taint p \<Longrightarrow> own_unique (managed_keys p) (n_Taints n)"
  shows "rbind (cleanupOldEnv pool p n) (\<lambda>n'. Ret (setNode env pool p now n'))
    = Ret (prepared env pool p now n)"
proof -
  have keys: "scheduleMachineTypeKeys pool (node_Name n) = Some (entry_keys p)"
    using schedule_keys_entry [OF assms(1,2)] assms(3) by simp
  show ?thesis
  proof (cases "np_Taint p")
    case False
    have "(removeNodeLabel pool n)\<lparr>n_Taints := n_Taints n\<rparr> = removeNodeLabel pool n"
      by (rule Node.equality) simp_all
    with setNode_labels [OF keys, of env "n_Taints n" now] False show ?thesis
      by (simp add: cleanupOldEnv_def newPoolMachineStatus_eq prepared_def)
  next
    case True
    let ?ts = "without_keys (managed_keys p) (n_Taints n)"
    have "removeNodeTaint pool (removeNodeLabel pool n) = Ret ((removeNodeLabel pool n)\<lparr>n_Taints := ?ts\<rparr>)"
      using removeNodeTaint_unique [of pool "removeNodeLabel pool n" "entry_keys p"] keys assms(4) True
      by simp
    moreover have "expected_status env p ?ts = expected_status env p (n_Taints n)"
      using expected_status_without [of "[]" p env p "n_Taints n"] by simp
    moreover have "setTaintKeys (ExtractKeyValueFromTaint ?ts) now (group_of pool) (entry_keys p)
          (setTaint (ExtractKeyValueFromTaint ?ts) now MachineStatusKey
            (expected_status env p (n_Taints n)) ?ts)
        = ?ts @ managed_taints env (group_of pool) p now (n_Taints n)"
      by (simp add: setTaint_fresh setTaintKeys_fresh extract_without managed_taints_def)
    ultimately show ?thesis
      using setNode_labels [OF keys, of env ?ts now] True
      by (simp add: cleanupOldEnv_def newPoolMachineStatus_eq prepared_def)
  qed
qed

subsection \<open>A prepared Node\<close>

text \<open>What another component may rely on: labels and taints, not the annotation.\<close>

definition node_prepared :: "environ \<Rightarrow> MachineNodePool \<Rightarrow> NodePool \<Rightarrow> Node \<Rightarrow> bool" where
  "node_prepared env pool p n \<longleftrightarrow>
     node_Labels n = prepared_labels env (group_of pool) p (n_Taints n) (node_Labels n) \<and>
     (np_Taint p \<longrightarrow> (\<exists>now. filter (\<lambda>t. taint_Key t \<in> set (managed_keys p)) (n_Taints n)
        = managed_taints env (group_of pool) p now (n_Taints n)))"

lemma managed_taints_keys:
  "map taint_Key (managed_taints env grp p now ts) = managed_keys p"
  by (simp add: managed_taints_def comp_def)

lemma expected_status_prepared:
  "expected_status env q (n_Taints (prepared env pool p now n)) = expected_status env q (n_Taints n)"
proof (cases "np_Taint p")
  case True
  have "\<forall>t \<in> set (managed_taints env (group_of pool) p now (n_Taints n)). taint_Key t \<in> set (managed_keys p)"
    by (auto simp: managed_taints_def)
  from expected_status_without [OF this] True show ?thesis by (simp add: prepared_def)
qed (simp add: prepared_def)

lemma node_prepared_cong:
  "node_Labels n = node_Labels n' \<Longrightarrow> n_Taints n = n_Taints n' \<Longrightarrow>
   node_prepared env pool p n \<longleftrightarrow> node_prepared env pool p n'"
  by (simp add: node_prepared_def)

lemma node_prepared_prepared: "node_prepared env pool p (prepared env pool p now n)"
proof -
  let ?n = "prepared env pool p now n"
  have st: "expected_status env p (n_Taints ?n) = expected_status env p (n_Taints n)"
    by (rule expected_status_prepared)
  have "node_Labels ?n = prepared_labels env (group_of pool) p (n_Taints ?n) (node_Labels ?n)"
    unfolding prepared_labels_def st
    by (simp add: prepared_def prepared_labels_def fun_eq_iff)
  moreover have "filter (\<lambda>t. taint_Key t \<in> set (managed_keys p)) (n_Taints ?n)
      = managed_taints env (group_of pool) p now (n_Taints ?n)" if "np_Taint p"
    unfolding managed_taints_def st
    using that by (auto simp: prepared_def without_keys_def managed_taints_def filter_id_conv filter_empty_conv)
  ultimately show ?thesis by (auto simp: node_prepared_def)
qed

lemma own_unique_prepared:
  assumes "entry_wf p" and "np_Taint p"
  shows "own_unique (managed_keys p) (n_Taints (prepared env pool p now n))"
proof -
  have "count_key k (n_Taints (prepared env pool p now n)) = count_list (managed_keys p) k"
    if "k \<in> set (managed_keys p)" for k
  proof -
    have "count_key k (without_keys (managed_keys p) (n_Taints n)) = 0"
      using that by (auto simp: without_keys_def filter_empty_conv)
    moreover have "count_key k us = count_list (map taint_Key us) k" for us
      by (induction us) auto
    ultimately show ?thesis
      using assms(2) by (simp add: prepared_def managed_taints_keys)
  qed
  then show ?thesis
    using count_list_distinct [OF entry_wf_keys(1) [OF assms(1)]] by (simp add: own_unique_def)
qed

subsection \<open>One step of the loop against the API server\<close>

interpretation reconcile_nodes: abort_loop
  "\<lambda>p (_ :: unit). reconcileNode_step E pool p" "\<lambda>ps (_ :: unit). reconcileNode_loop E pool ps" for E pool
  by unfold_locales simp_all

lemma removeNodeTaint_frame:
  assumes "removeNodeTaint pool n = Ret n'"
  shows "n' = n\<lparr>n_Taints := n_Taints n'\<rparr>"
  using assms
  by (auto simp: removeNodeTaint_def rbind_eq_Ret split: option.splits if_splits)

lemma cleanupOldEnv_frame:
  assumes "cleanupOldEnv pool p n = Ret n'"
  shows "node_Name n' = node_Name n" "node_Annotations n' = node_Annotations n"
    "node_Labels n' = node_Labels (removeNodeLabel pool n)" "n_Meta n' = n_Meta (removeNodeLabel pool n)"
proof -
  have "n' = (removeNodeLabel pool n)\<lparr>n_Taints := n_Taints n'\<rparr>"
    using assms removeNodeTaint_frame [of pool "removeNodeLabel pool n" n']
    by (auto simp: cleanupOldEnv_def Let_def split: if_splits)
  then show "n_Meta n' = n_Meta (removeNodeLabel pool n)"
    by (metis Node.select_convs(1) Node.surjective Node.update_convs(2))
  then show "node_Name n' = node_Name n" "node_Annotations n' = node_Annotations n"
    "node_Labels n' = node_Labels (removeNodeLabel pool n)"
    by simp_all
qed

lemma setNode_frame [simp]:
  "node_Name (setNode env pool p now n) = node_Name n"
  "node_Annotations (setNode env pool p now n) = (node_Annotations n)(MachineGroupKey \<mapsto> group_of pool)"
  by (simp_all add: setNode_def Let_def)

text \<open>The Node a step would write, from the Node it read.\<close>

definition step_now :: "('w, 'x) pool_env_scheme \<Rightarrow> NodePool \<Rightarrow> 'w \<Rightarrow> time \<times> 'w" where
  "step_now E p w = (if np_Taint p then metav1_Now E w else (0, w))"

lemma step_run:
  "reconcileNode_step E pool p w =
     (let r = Get_Node E ([], np_Name p) w in
      case fst r of
        Inl e \<Rightarrow> (Ret (Inl e), snd r)
      | Inr n \<Rightarrow>
          (case cleanupOldEnv pool p n of
             Panic \<Rightarrow> (Panic, snd r)
           | Ret n1 \<Rightarrow>
               (let c = step_now E p (snd r); n2 = setNode (os_environ E) pool p (fst c) n1 in
                if cmp_Diff_taints E (n_Taints n) (n_Taints n2) = [] \<and>
                   cmp_Diff_map E (node_Labels n) (node_Labels n2) = []
                then (Ret (Inr ()), snd c)
                else (case fst (Update_Node E n2 (snd c)) of
                        Inl e \<Rightarrow> (Ret (Inl e), snd (Update_Node E n2 (snd c)))
                      | Inr _ \<Rightarrow> (Ret (Inr ()), snd (Update_Node E n2 (snd c)))))))"
  unfolding reconcileNode_step_def step_now_def
  by (simp add: act_simps Let_def split: sum.split gores.split)

lemma step_now_nodes: "node_api E nodes \<Longrightarrow> nodes (snd (step_now E p w)) = nodes w"
  by (simp add: step_now_def node_apiD)

text \<open>Whatever happens, a step leaves the nodes as they are or writes the Node of its entry.\<close>

lemma step_frame:
  assumes "node_api E nodes"
  shows "nodes (snd (reconcileNode_step E pool p w)) = nodes w \<or>
    (\<exists>n n1 now. nodes w (np_Name p) = Some n \<and> cleanupOldEnv pool p n = Ret n1 \<and>
       nodes (snd (reconcileNode_step E pool p w)) =
         (nodes w)(np_Name p \<mapsto> setNode (os_environ E) pool p now n1))"
proof -
  let ?r = "Get_Node E ([], np_Name p) w"
  have get: "nodes (snd ?r) = nodes w" by (rule node_apiD(3) [OF assms])
  show ?thesis
  proof (cases "fst ?r")
    case (Inl e)
    with get show ?thesis by (simp add: step_run Let_def)
  next
    case n: (Inr n)
    then have stored: "nodes w (np_Name p) = Some n" using node_apiD(2) [OF assms n] by simp
    then have name: "node_Name n = np_Name p" by (rule node_apiD(1) [OF assms])
    show ?thesis
    proof (cases "cleanupOldEnv pool p n")
      case Panic
      with n get show ?thesis by (simp add: step_run Let_def)
    next
      case (Ret n1)
      let ?c = "step_now E p (snd ?r)"
      let ?n2 = "setNode (os_environ E) pool p (fst ?c) n1"
      have nm: "node_Name ?n2 = np_Name p" using cleanupOldEnv_frame(1) [OF Ret] name by simp
      have c: "nodes (snd ?c) = nodes w" using step_now_nodes [OF assms] get by simp
      have upd: "nodes (snd (Update_Node E ?n2 (snd ?c))) = nodes w \<or>
          nodes (snd (Update_Node E ?n2 (snd ?c))) = (nodes w)(np_Name p \<mapsto> ?n2)"
        using node_apiD(4,5) [OF assms, of ?n2 "snd ?c"] nm c
        by (cases "fst (Update_Node E ?n2 (snd ?c))") auto
      show ?thesis
        using n Ret stored c upd by (auto simp: step_run Let_def split: sum.split)
    qed
  qed
qed

lemma step_others:
  assumes "node_api E nodes" and "k \<noteq> np_Name p"
  shows "nodes (snd (reconcileNode_step E pool p w)) k = nodes w k"
  using step_frame [OF assms(1), of pool p w] assms(2) by auto

text \<open>A step that succeeds leaves its Node prepared, by writing it or by finding it so.\<close>

lemma step_success:
  assumes api: "node_api E nodes" and cmp: "cmp_laws E"
    and wf: "distinct (map np_Name (entries pool))" "p \<in> set (entries pool)"
    and uniq: "\<And>n. nodes w (np_Name p) = Some n \<Longrightarrow> np_Taint p \<Longrightarrow> own_unique (managed_keys p) (n_Taints n)"
    and run: "reconcileNode_step E pool p w = (Ret (Inr ()), w')"
  obtains n now where "nodes w (np_Name p) = Some n"
    and "nodes w' = (nodes w)(np_Name p \<mapsto> prepared (os_environ E) pool p now n) \<or>
      nodes w' = nodes w \<and> node_Labels n = node_Labels (prepared (os_environ E) pool p now n) \<and>
      n_Taints n = n_Taints (prepared (os_environ E) pool p now n)"
proof -
  let ?r = "Get_Node E ([], np_Name p) w"
  have get: "nodes (snd ?r) = nodes w" by (rule node_apiD(3) [OF api])
  from run obtain n where n: "fst ?r = Inr n"
    by (cases "fst ?r") (auto simp: step_run Let_def)
  then have stored: "nodes w (np_Name p) = Some n" using node_apiD(2) [OF api n] by simp
  then have name: "node_Name n = np_Name p" by (rule node_apiD(1) [OF api])
  from run n obtain n1 where n1: "cleanupOldEnv pool p n = Ret n1"
    by (cases "cleanupOldEnv pool p n") (auto simp: step_run Let_def)
  let ?c = "step_now E p (snd ?r)"
  let ?n2 = "prepared (os_environ E) pool p (fst ?c) n"
  have set: "setNode (os_environ E) pool p (fst ?c) n1 = ?n2"
    using edit_refines [OF wf name uniq [OF stored], of "os_environ E" "fst ?c"] n1 by simp
  have nm: "node_Name ?n2 = np_Name p" using name by (simp add: prepared_def)
  have c: "nodes (snd ?c) = nodes w" using step_now_nodes [OF api] get by simp
  show thesis
  proof (cases "n_Taints n = n_Taints ?n2 \<and> node_Labels n = node_Labels ?n2")
    case True
    with run n n1 set c have "nodes w' = nodes w"
      by (simp add: step_run Let_def cmp_lawsD [OF cmp])
    with True stored show thesis by (intro that) auto
  next
    case False
    with run n n1 set have "\<exists>n'. fst (Update_Node E ?n2 (snd ?c)) = Inr n'"
      and w': "w' = snd (Update_Node E ?n2 (snd ?c))"
      by (auto simp: step_run Let_def cmp_lawsD [OF cmp] split: sum.splits)
    then have "nodes w' = (nodes w)(np_Name p \<mapsto> ?n2)"
      using node_apiD(4) [OF api] nm c by auto
    with stored show thesis by (intro that) auto
  qed
qed

subsection \<open>What a run never touches\<close>

text \<open>The meta data of a Node except labels and annotations.\<close>

definition meta_rest :: "Node \<Rightarrow> ObjectMeta" where
  "meta_rest n = (n_Meta n)\<lparr>Labels := Map.empty, Annotations := Map.empty\<rparr>"

lemma meta_rest_set [simp]:
  "meta_rest (node_set_Labels ls n) = meta_rest n" "meta_rest (node_set_Annotations as n) = meta_rest n"
  "meta_rest (n\<lparr>n_Taints := ts\<rparr>) = meta_rest n"
  by (simp_all add: meta_rest_def node_set_Labels_def node_set_Annotations_def)

lemma meta_rest_Name: "meta_rest n' = meta_rest n \<Longrightarrow> node_Name n' = node_Name n"
  unfolding meta_rest_def by (drule arg_cong [where f = Name]) simp

definition unmanaged_same :: "NodePool \<Rightarrow> Node \<Rightarrow> Node \<Rightarrow> bool" where
  "unmanaged_same p n n' \<longleftrightarrow>
     meta_rest n' = meta_rest n \<and>
     (\<forall>k. k \<notin> set (managed_keys p) \<longrightarrow> node_Labels n' k = node_Labels n k) \<and>
     (\<forall>k. k \<noteq> MachineGroupKey \<longrightarrow> node_Annotations n' k = node_Annotations n k) \<and>
     without_keys (managed_keys p) (n_Taints n') = without_keys (managed_keys p) (n_Taints n) \<and>
     (\<not> np_Taint p \<longrightarrow> n_Taints n' = n_Taints n)"

lemma unmanaged_same_refl: "unmanaged_same p n n"
  by (simp add: unmanaged_same_def)

lemma unmanaged_same_trans:
  "unmanaged_same p n n' \<Longrightarrow> unmanaged_same p n' n'' \<Longrightarrow> unmanaged_same p n n''"
  by (simp add: unmanaged_same_def)

lemma without_keys_cong:
  assumes "set ks' \<subseteq> set ks" and "without_keys ks' xs = without_keys ks' ys"
  shows "without_keys ks xs = without_keys ks ys"
proof -
  have "without_keys ks zs = without_keys ks (without_keys ks' zs)" for zs
    using assms(1) by (auto simp: without_keys_def intro: filter_cong)
  with assms(2) show ?thesis by metis
qed

lemma removeStatusTaint_loop_others:
  assumes "removeStatusTaint_loop k i s = Ret s'" and "snd s \<le> length (fst s)"
  shows "filter (\<lambda>t. \<not> is_status t) (slice_view s') = filter (\<lambda>t. \<not> is_status t) (slice_view s)"
  using assms
proof (induction k arbitrary: i s)
  case 0
  then show ?case by simp
next
  case (Suc k)
  show ?case
  proof (cases "is_status (fst s ! i)")
    case False
    with Suc show ?thesis by simp
  next
    case True
    with Suc.prems(1) obtain s1 where del: "slice_del i s = Ret s1"
      and rest: "removeStatusTaint_loop k (Suc i) s1 = Ret s'"
      by (auto simp: rbind_eq_Ret)
    note view = slice_del_view [OF del Suc.prems(2)]
    have "filter (\<lambda>t. \<not> is_status t) (slice_view s1) = filter (\<lambda>t. \<not> is_status t) (slice_view s)"
      unfolding view(1) using view(4) Suc.prems(2) True
      by (intro filter_remove_at) (auto simp: slice_view_def)
    moreover have "snd s1 \<le> length (fst s1)" using view Suc.prems(2) by simp
    ultimately show ?thesis using Suc.IH [OF rest] by simp
  qed
qed

lemma removeNodeTaint_others:
  assumes "scheduleMachineTypeKeys pool (node_Name n) = Some ks" and "removeNodeTaint pool n = Ret n'"
  shows "without_keys (MachineStatusKey # ks) (n_Taints n') = without_keys (MachineStatusKey # ks) (n_Taints n)"
proof -
  obtain ts where ts: "n_Taints n' = removeTaintKeys ks ts"
    and status: "ts = n_Taints n \<or>
      (\<exists>s. removeStatusTaint (n_Taints n) = Ret s \<and> ts = slice_view s)"
    using assms by (auto simp: removeNodeTaint_def rbind_eq_Ret split: if_splits)
  have "without_keys [MachineStatusKey] ts = without_keys [MachineStatusKey] (n_Taints n)"
    using status removeStatusTaint_loop_others
    by (fastforce simp: without_keys_def removeStatusTaint_def)
  then have "without_keys (MachineStatusKey # ks) ts = without_keys (MachineStatusKey # ks) (n_Taints n)"
    by (rule without_keys_cong [rotated]) simp
  moreover have "without_keys (MachineStatusKey # ks) (removeTaintKeys ks ts)
      = without_keys (MachineStatusKey # ks) ts"
    by (rule without_keys_cong [OF _ removeTaintKeys_others]) auto
  ultimately show ?thesis by (simp add: ts)
qed

lemma setTaint_others:
  assumes "k \<in> set ks"
  shows "without_keys ks (setTaint m now k v ts) = without_keys ks ts"
proof -
  have "without_keys [k] (setTaint m now k v ts) = without_keys [k] ts"
    using taint_index.overwrite_hit_others [of ts k]
    by (auto simp: setTaint_def without_keys_def Let_def split: option.split)
  then show ?thesis by (rule without_keys_cong [rotated]) (use assms in simp)
qed

lemma setTaintKeys_others:
  "set ks' \<subseteq> set ks \<Longrightarrow> without_keys ks (setTaintKeys m now g ks' ts) = without_keys ks ts"
  by (induction ks' arbitrary: ts) (simp_all add: setTaint_others)

lemma setNode_unmanaged: "unmanaged_same p n (setNode env pool p now n)"
proof -
  have "set (entry_keys p) \<subseteq> set (managed_keys p)" by auto
  from setTaintKeys_others [OF this] show ?thesis
    by (simp add: unmanaged_same_def setNode_def Let_def setLabelKeys_apply setTaint_others)
qed

lemma cleanupOldEnv_unmanaged:
  assumes "scheduleMachineTypeKeys pool (node_Name n) = Some (entry_keys p)"
    and "cleanupOldEnv pool p n = Ret n'"
  shows "unmanaged_same p n n'"
proof -
  have "without_keys (managed_keys p) (n_Taints n') = without_keys (managed_keys p) (n_Taints n)"
    using assms removeNodeTaint_others [of pool "removeNodeLabel pool n"]
    by (auto simp: cleanupOldEnv_def Let_def split: if_splits)
  moreover have "meta_rest (removeNodeLabel pool n) = meta_rest n"
    by (simp add: removeNodeLabel_def Let_def split: option.split)
  moreover have "n_Taints n' = n_Taints n" if "\<not> np_Taint p"
    using that assms(2) by (auto simp: cleanupOldEnv_def removeNodeLabel_def Let_def split: option.split)
  ultimately show ?thesis
    using cleanupOldEnv_frame [OF assms(2)] removeNodeLabel_labels [OF assms(1)]
    by (simp add: unmanaged_same_def meta_rest_def)
qed

definition nodes_unmanaged_same :: "MachineNodePool \<Rightarrow> (string \<rightharpoonup> Node) \<Rightarrow> (string \<rightharpoonup> Node) \<Rightarrow> bool" where
  "nodes_unmanaged_same pool ns ns' \<longleftrightarrow>
     (\<forall>k. k \<notin> np_Name ` set (entries pool) \<longrightarrow> ns' k = ns k) \<and>
     (\<forall>p \<in> set (entries pool). case ns (np_Name p) of
        None \<Rightarrow> ns' (np_Name p) = None
      | Some n \<Rightarrow> (\<exists>n'. ns' (np_Name p) = Some n' \<and> unmanaged_same p n n'))"

lemma nodes_unmanaged_sameD:
  assumes "nodes_unmanaged_same pool ns ns'" and "p \<in> set (entries pool)"
    and "ns (np_Name p) = Some n" and "ns' (np_Name p) = Some n'"
  shows "unmanaged_same p n n'"
proof -
  have "case ns (np_Name p) of None \<Rightarrow> ns' (np_Name p) = None
      | Some n \<Rightarrow> (\<exists>n'. ns' (np_Name p) = Some n' \<and> unmanaged_same p n n')"
    using assms(1,2) unfolding nodes_unmanaged_same_def by blast
  with assms(3,4) show ?thesis by simp
qed

lemma nodes_unmanaged_same_refl: "nodes_unmanaged_same pool ns ns"
  by (auto simp: nodes_unmanaged_same_def unmanaged_same_refl split: option.split)

lemma nodes_unmanaged_same_update:
  assumes "nodes_unmanaged_same pool ns ns'" and "distinct (map np_Name (entries pool))"
    and "p \<in> set (entries pool)" and "ns' (np_Name p) = Some n" and "unmanaged_same p n n'"
  shows "nodes_unmanaged_same pool ns (ns'(np_Name p \<mapsto> n'))"
  unfolding nodes_unmanaged_same_def
proof (intro conjI allI impI ballI)
  show "(ns'(np_Name p \<mapsto> n')) k = ns k" if "k \<notin> np_Name ` set (entries pool)" for k
    using assms(1,3) that by (auto simp: nodes_unmanaged_same_def)
  fix q assume q: "q \<in> set (entries pool)"
  show "case ns (np_Name q) of
      None \<Rightarrow> (ns'(np_Name p \<mapsto> n')) (np_Name q) = None
    | Some m \<Rightarrow> \<exists>m'. (ns'(np_Name p \<mapsto> n')) (np_Name q) = Some m' \<and> unmanaged_same q m m'"
  proof (cases "q = p")
    case True
    with assms(1,3-5) show ?thesis
      by (auto simp: nodes_unmanaged_same_def split: option.splits dest!: bspec
          intro: unmanaged_same_trans)
  next
    case False
    then have "np_Name q \<noteq> np_Name p"
      using assms(2,3) q by (auto simp: distinct_map dest: inj_onD)
    moreover have "case ns (np_Name q) of
        None \<Rightarrow> ns' (np_Name q) = None
      | Some m \<Rightarrow> \<exists>m'. ns' (np_Name q) = Some m' \<and> unmanaged_same q m m'"
      using assms(1) q unfolding nodes_unmanaged_same_def by blast
    ultimately show ?thesis by (auto split: option.splits)
  qed
qed

lemma reconcileNode_unmanaged:
  assumes "node_api E nodes" and "distinct (map np_Name (entries pool))"
  shows "nodes_unmanaged_same pool (nodes w) (nodes (snd (reconcileNode E pool w)))"
  unfolding reconcileNode_def
proof (rule reconcile_nodes.loop_invariant [where I = "\<lambda>w'. nodes_unmanaged_same pool (nodes w) (nodes w')"])
  show "nodes_unmanaged_same pool (nodes w) (nodes w)" by (rule nodes_unmanaged_same_refl)
  fix p w' assume p: "p \<in> set (entries pool)"
    and I: "nodes_unmanaged_same pool (nodes w) (nodes w')"
  show "nodes_unmanaged_same pool (nodes w) (nodes (snd (reconcileNode_step E pool p w')))"
    using step_frame [OF assms(1), of pool p w']
  proof (elim disjE exE conjE)
    assume "nodes (snd (reconcileNode_step E pool p w')) = nodes w'"
    with I show ?thesis by simp
  next
    fix n n1 now
    assume n: "nodes w' (np_Name p) = Some n" and n1: "cleanupOldEnv pool p n = Ret n1"
      and upd: "nodes (snd (reconcileNode_step E pool p w')) =
        (nodes w')(np_Name p \<mapsto> setNode (os_environ E) pool p now n1)"
    have "node_Name n = np_Name p" by (rule node_apiD(1) [OF assms(1) n])
    then have keys: "scheduleMachineTypeKeys pool (node_Name n) = Some (entry_keys p)"
      using schedule_keys_entry [OF assms(2) p] by simp
    have "unmanaged_same p n (setNode (os_environ E) pool p now n1)"
      using unmanaged_same_trans [OF cleanupOldEnv_unmanaged [OF keys n1] setNode_unmanaged] .
    from nodes_unmanaged_same_update [OF I assms(2) p n this] show ?thesis
      by (simp add: upd)
  qed
qed

subsection \<open>The loop establishes prepared Nodes\<close>

text \<open>On the tainted entries' Nodes no managed key occurs twice.\<close>

definition taints_unique :: "MachineNodePool \<Rightarrow> (string \<rightharpoonup> Node) \<Rightarrow> bool" where
  "taints_unique pool ns \<longleftrightarrow>
     (\<forall>p \<in> set (entries pool). \<forall>n. np_Taint p \<longrightarrow> ns (np_Name p) = Some n \<longrightarrow>
        own_unique (managed_keys p) (n_Taints n))"

definition pool_prepared :: "environ \<Rightarrow> MachineNodePool \<Rightarrow> (string \<rightharpoonup> Node) \<Rightarrow> bool" where
  "pool_prepared env pool ns \<longleftrightarrow>
     (\<forall>p \<in> set (entries pool). \<exists>n. ns (np_Name p) = Some n \<and> node_prepared env pool p n)"

lemma step_keeps_unique:
  assumes api: "node_api E nodes" and cmp: "cmp_laws E" and wf: "pool_wf pool"
    and p: "p \<in> set (entries pool)" and uniq: "taints_unique pool (nodes w)"
    and run: "reconcileNode_step E pool p w = (Ret (Inr ()), w')"
  shows "taints_unique pool (nodes w') \<and>
    (\<exists>n. nodes w' (np_Name p) = Some n \<and> node_prepared (os_environ E) pool p n)"
proof -
  note d = pool_wfD(1) [OF wf]
  obtain n now where n: "nodes w (np_Name p) = Some n"
    and w': "nodes w' = (nodes w)(np_Name p \<mapsto> prepared (os_environ E) pool p now n) \<or>
      nodes w' = nodes w \<and> node_Labels n = node_Labels (prepared (os_environ E) pool p now n) \<and>
      n_Taints n = n_Taints (prepared (os_environ E) pool p now n)"
    using step_success [OF api cmp d p _ run] uniq p by (metis taints_unique_def)
  from w' show ?thesis
  proof
    assume upd: "nodes w' = (nodes w)(np_Name p \<mapsto> prepared (os_environ E) pool p now n)"
    have "own_unique (managed_keys q) (n_Taints m)"
      if q: "q \<in> set (entries pool)" "np_Taint q" "nodes w' (np_Name q) = Some m" for q m
    proof (cases "q = p")
      case True
      with q upd pool_wfD(3) [OF wf p] show ?thesis
        using own_unique_prepared by auto
    next
      case False
      then have "np_Name q \<noteq> np_Name p" using d p q(1) by (auto simp: distinct_map dest: inj_onD)
      with q upd uniq show ?thesis by (auto simp: taints_unique_def)
    qed
    then show ?thesis using upd node_prepared_prepared by (auto simp: taints_unique_def)
  next
    assume same: "nodes w' = nodes w \<and> node_Labels n = node_Labels (prepared (os_environ E) pool p now n) \<and>
      n_Taints n = n_Taints (prepared (os_environ E) pool p now n)"
    then have "node_prepared (os_environ E) pool p n"
      using node_prepared_prepared node_prepared_cong by blast
    with same uniq n show ?thesis by auto
  qed
qed

lemma reconcileNode_establishes:
  assumes "node_api E nodes" and "cmp_laws E" and wf: "pool_wf pool"
    and "taints_unique pool (nodes w)"
    and run: "reconcileNode E pool w = (Ret (Inr ()), w')"
  shows "taints_unique pool (nodes w') \<and> pool_prepared (os_environ E) pool (nodes w')"
  unfolding pool_prepared_def
proof (rule reconcile_nodes.loop_establishes
    [where I = "\<lambda>_ w. taints_unique pool (nodes w)"
       and Q = "\<lambda>p w. \<exists>n. nodes w (np_Name p) = Some n \<and> node_prepared (os_environ E) pool p n",
     OF pool_wfD(2) [OF wf] assms(4) run [unfolded reconcileNode_def]])
  show "taints_unique pool (nodes w2) \<and>
      (\<exists>n. nodes w2 (np_Name p) = Some n \<and> node_prepared (os_environ E) pool p n)"
    if "p \<in> set (entries pool)" "taints_unique pool (nodes w1)"
      "reconcileNode_step E pool p w1 = (Ret (Inr s'), w2)" for p w1 s' w2
    using step_keeps_unique [OF assms(1,2) wf that(1,2)] that(3) by simp
  show "\<exists>n. nodes w2 (np_Name p) = Some n \<and> node_prepared (os_environ E) pool p n"
    if "p \<in> set (entries pool)" "q \<in> set (entries pool)" "p \<noteq> q"
      "\<exists>n. nodes w1 (np_Name p) = Some n \<and> node_prepared (os_environ E) pool p n"
      "reconcileNode_step E pool q w1 = (Ret (Inr s'), w2)" for p q w1 s' w2
  proof -
    have "np_Name p \<noteq> np_Name q"
      using pool_wfD(1) [OF wf] that(1-3) by (auto simp: distinct_map dest: inj_onD)
    with that(4) step_others [OF assms(1), of "np_Name p" q pool w1] that(5) show ?thesis by simp
  qed
qed

text \<open>A step against an API server that does not fail, on a Node that exists, succeeds.\<close>

lemma step_total:
  assumes api: "node_api_total E nodes" and wf: "pool_wf pool" and p: "p \<in> set (entries pool)"
    and n: "nodes w (np_Name p) = Some n" and uniq: "taints_unique pool (nodes w)"
  shows "fst (reconcileNode_step E pool p w) = Ret (Inr ())"
proof -
  note api' = node_api_totalD(1) [OF api]
  let ?r = "Get_Node E ([], np_Name p) w"
  have r: "fst ?r = Inr n" using node_api_totalD(2) [OF api, of w "([], np_Name p)"] n by simp
  have name: "node_Name n = np_Name p" by (rule node_apiD(1) [OF api' n])
  have "\<exists>n1. cleanupOldEnv pool p n = Ret n1"
    using edit_refines [OF pool_wfD(1) [OF wf] p name, of "os_environ E" 0] uniq p n
    by (cases "cleanupOldEnv pool p n") (auto simp: taints_unique_def)
  then obtain n1 where n1: "cleanupOldEnv pool p n = Ret n1" by blast
  let ?c = "step_now E p (snd ?r)"
  let ?n2 = "setNode (os_environ E) pool p (fst ?c) n1"
  have "nodes (snd ?c) (node_Name ?n2) = Some n"
    using step_now_nodes [OF api'] node_apiD(3) [OF api'] n name cleanupOldEnv_frame(1) [OF n1] by simp
  then obtain n3 where "fst (Update_Node E ?n2 (snd ?c)) = Inr n3"
    using node_api_totalD(4) [OF api, of "snd ?c" ?n2] by auto
  with r n1 show ?thesis by (simp add: step_run Let_def)
qed

lemma reconcileNode_succeeds:
  assumes api: "node_api_total E nodes" and cmp: "cmp_laws E" and wf: "pool_wf pool"
    and uniq: "taints_unique pool (nodes w)"
    and ex: "\<forall>p \<in> set (entries pool). nodes w (np_Name p) \<noteq> None"
  shows "\<exists>w'. reconcileNode E pool w = (Ret (Inr ()), w')"
proof -
  note api' = node_api_totalD(1) [OF api]
  let ?I = "\<lambda>w. taints_unique pool (nodes w) \<and> (\<forall>p \<in> set (entries pool). nodes w (np_Name p) \<noteq> None)"
  have "\<exists>s' w'. reconcileNode_loop E pool (entries pool) w = (Ret (Inr s'), w') \<and> ?I w'"
  proof (rule reconcile_nodes.loop_returns [where I = ?I])
    show "?I w" using uniq ex by simp
    fix p w1 assume p: "p \<in> set (entries pool)" and I: "?I w1"
    then obtain n where n: "nodes w1 (np_Name p) = Some n" by auto
    let ?s = "reconcileNode_step E pool p w1"
    have run: "?s = (Ret (Inr ()), snd ?s)"
      using step_total [of E nodes pool p w1 n] api wf p n I by (metis prod.collapse)
    have "taints_unique pool (nodes (snd ?s))"
      using step_keeps_unique [OF api' cmp wf p _ run] I by blast
    moreover have "nodes (snd ?s) (np_Name q) \<noteq> None" if q: "q \<in> set (entries pool)" for q
      using step_frame [OF api', of pool p w1] I q by auto
    ultimately show "\<exists>s' w'. ?s = (Ret (Inr s'), w') \<and> ?I w'" using run by auto
  qed
  then show ?thesis by (auto simp: reconcileNode_def)
qed

end
