(* ===== verification/NodeCleanup.thy ===== *)
theory NodeCleanup
  imports NodePoolProofs
begin

text \<open>
  Lemmas on the deletion of a pool (\<open>cleanupNode\<close>), on the conditions reported in its status
  and on what a second run of \<open>reconcileNode\<close> does.
\<close>

subsection \<open>The Node a cleanup leaves\<close>

definition cleaned :: "MachineNodePool \<Rightarrow> NodePool \<Rightarrow> Node \<Rightarrow> Node" where
  "cleaned pool p n =
     n\<lparr>n_Meta := (n_Meta n)
         \<lparr>Labels := (\<lambda>k. if k = MachineStatusKey \<or>
                           k \<in> set (entry_keys p) \<and> map_get (node_Labels n) k = group_of pool
                        then None else node_Labels n k),
          Annotations := map_delete (node_Annotations n) MachineGroupKey\<rparr>,
       n_Taints := without_keys (managed_keys p) (n_Taints n)\<rparr>"

definition dirty :: "MachineNodePool \<Rightarrow> (string \<rightharpoonup> Node) \<Rightarrow> NodePool \<Rightarrow> bool" where
  "dirty pool ns p \<longleftrightarrow> (\<exists>n. ns (np_Name p) = Some n \<and> cleaned pool p n \<noteq> n)"

lemma cleaned_frame [simp]: "node_Name (cleaned pool p n) = node_Name n"
  by (simp add: cleaned_def)

lemma cleaned_same:
  "cleaned pool p n = n \<longleftrightarrow>
     node_Annotations (cleaned pool p n) = node_Annotations n \<and>
     node_Labels (cleaned pool p n) = node_Labels n \<and> n_Taints (cleaned pool p n) = n_Taints n"
  by (cases n, cases "n_Meta n") (auto simp: cleaned_def)

lemma cleanup_refines:
  assumes "distinct (map np_Name (entries pool))" and "p \<in> set (entries pool)"
    and "node_Name n = np_Name p" and "own_unique (managed_keys p) (n_Taints n)"
  shows "cleanupEdit pool n = Ret (cleaned pool p n)"
proof -
  let ?n1 = "removeNodeAnnotation n"
  let ?n2 = "removeNodeLabel pool ?n1"
  have n1: "node_Name ?n1 = np_Name p" "node_Labels ?n1 = node_Labels n" "n_Taints ?n1 = n_Taints n"
    "node_Annotations ?n1 = map_delete (node_Annotations n) MachineGroupKey"
    using assms(3) by (simp_all add: removeNodeAnnotation_def)
  have keys: "scheduleMachineTypeKeys pool (node_Name ?n1) = Some (entry_keys p)"
    using schedule_keys_entry [OF assms(1,2)] n1 by simp
  have "removeNodeTaint pool ?n2 = Ret (?n2\<lparr>n_Taints := without_keys (managed_keys p) (n_Taints ?n2)\<rparr>)"
    by (rule removeNodeTaint_unique) (use keys assms(4) n1 in simp_all)
  moreover have "node_Labels ?n2 = node_Labels (cleaned pool p n)"
    using removeNodeLabel_labels [OF keys] n1 by (auto simp: cleaned_def fun_eq_iff)
  moreover have "\<exists>ls. ?n2 = node_set_Labels ls ?n1"
    using keys by (auto simp: removeNodeLabel_def Let_def)
  ultimately show ?thesis
    by (auto simp: cleanupEdit_def cleaned_def removeNodeAnnotation_def node_set_Labels_def
        node_set_Annotations_def)
qed

lemma cleanup_zero:
  obtains n where "cleanupEdit pool zero_node = Ret n" "node_Annotations n = Map.empty"
    "node_Labels n = Map.empty" "n_Taints n = []"
proof -
  have keys: "removeLabelKeys g ks Map.empty = Map.empty" for g ks
    by (simp add: fun_eq_iff removeLabelKeys_apply)
  have taints: "removeTaintKeys ks [] = []" for ks
    by (induction ks) (simp_all add: GetTaintKeyIndex_def)
  have ls: "map_delete Map.empty k = Map.empty" for k :: string
    by (simp add: fun_eq_iff)
  let ?n = "removeNodeLabel pool (removeNodeAnnotation zero_node)"
  have n: "node_Annotations ?n = Map.empty" "node_Labels ?n = Map.empty" "n_Taints ?n = []"
    by (auto simp: removeNodeLabel_def removeNodeAnnotation_def zero_node_def zero_meta_def ls keys
        Let_def split: option.split)
  have "removeNodeTaint pool m = Ret (m\<lparr>n_Taints := []\<rparr>)" if "n_Taints m = []" for m
    using that by (simp add: removeNodeTaint_def ExtractKeyValueFromTaint_def taints split: option.split)
  with n that show thesis by (simp add: cleanupEdit_def)
qed

subsection \<open>The loop of cleanupNode\<close>

lemma cleanup_step_stops:
  assumes api: "node_api_total E nodes" and cmp: "cmp_laws E"
    and wf: "distinct (map np_Name (entries pool))" and p: "p \<in> set (entries pool)"
    and uniq: "\<And>n. nodes w (np_Name p) = Some n \<Longrightarrow> own_unique (managed_keys p) (n_Taints n)"
    and clean: "\<not> dirty pool (nodes w) p"
  shows "\<exists>w'. cleanupNode_loop E pool (p # ps) w = (Ret (Inr ()), w') \<and> nodes w' = nodes w"
proof -
  note api' = node_api_totalD(1) [OF api]
  let ?r = "Get_Node E ([], np_Name p) w"
  have get: "nodes (snd ?r) = nodes w" by (rule node_apiD(3) [OF api'])
  show ?thesis
  proof (cases "nodes w (np_Name p)")
    case None
    then obtain s where s: "fst ?r = Inl (NotFound s)"
      using node_api_totalD(3) [OF api, of w "([], np_Name p)"] by auto
    obtain n where n: "cleanupEdit pool zero_node = Ret n" "node_Annotations n = Map.empty"
        "node_Labels n = Map.empty" "n_Taints n = []"
      by (rule cleanup_zero)
    show ?thesis
      using s get n
      by (simp add: act_simps ignoreNotFound_def Let_def cmp_lawsD [OF cmp])
        (simp add: zero_node_def zero_meta_def)
  next
    case (Some n)
    then have r: "fst ?r = Inr n" using node_api_totalD(2) [OF api, of w "([], np_Name p)"] by simp
    have "cleanupEdit pool n = Ret (cleaned pool p n)"
      by (rule cleanup_refines [OF wf p node_apiD(1) [OF api' Some] uniq [OF Some]])
    moreover have "cleaned pool p n = n" using clean Some by (simp add: dirty_def)
    ultimately show ?thesis
      using r get by (simp add: act_simps ignoreNotFound_def Let_def cmp_lawsD [OF cmp])
  qed
qed

lemma cleanup_step_writes:
  assumes api: "node_api_total E nodes" and cmp: "cmp_laws E"
    and wf: "distinct (map np_Name (entries pool))" and p: "p \<in> set (entries pool)"
    and n: "nodes w (np_Name p) = Some n" and uniq: "own_unique (managed_keys p) (n_Taints n)"
    and dirty: "cleaned pool p n \<noteq> n"
  shows "\<exists>w1. cleanupNode_loop E pool (p # ps) w = cleanupNode_loop E pool ps w1 \<and>
    nodes w1 = (nodes w)(np_Name p \<mapsto> cleaned pool p n)"
proof -
  note api' = node_api_totalD(1) [OF api]
  let ?r = "Get_Node E ([], np_Name p) w"
  have get: "nodes (snd ?r) = nodes w" by (rule node_apiD(3) [OF api'])
  have name: "node_Name n = np_Name p" by (rule node_apiD(1) [OF api' n])
  have r: "fst ?r = Inr n" using node_api_totalD(2) [OF api, of w "([], np_Name p)"] n by simp
  have edit: "cleanupEdit pool n = Ret (cleaned pool p n)"
    by (rule cleanup_refines [OF wf p name uniq])
  obtain n3 where upd: "fst (Update_Node E (cleaned pool p n) (snd ?r)) = Inr n3"
    using node_api_totalD(4) [OF api, of "snd ?r" "cleaned pool p n"] get n name by auto
  have nodes: "nodes (snd (Update_Node E (cleaned pool p n) (snd ?r))) = (nodes w)(np_Name p \<mapsto> cleaned pool p n)"
    using node_apiD(4) [OF api' upd] get name by simp
  have "\<not> (node_Annotations n = node_Annotations (cleaned pool p n) \<and>
      node_Labels n = node_Labels (cleaned pool p n) \<and> n_Taints n = n_Taints (cleaned pool p n))"
    using dirty cleaned_same [of pool p n] by metis
  then have "cleanupNode_loop E pool (p # ps) w = cleanupNode_loop E pool ps
      (Recorder_Eventf E (''cleanup annotation, label and taint from '' @ node_Name (cleaned pool p n))
        (snd (Update_Node E (cleaned pool p n) (snd ?r))))"
    using r edit upd
    by (auto simp: act_simps ignoreNotFound_def Let_def cmp_lawsD [OF cmp] simp del: cleaned_frame)
  then show ?thesis using nodes node_apiD(7) [OF api'] by metis
qed

lemma cleanup_loop_exact:
  assumes api: "node_api_total E nodes" and cmp: "cmp_laws E"
    and wf: "distinct (map np_Name (entries pool))"
    and ps: "set ps \<subseteq> set (entries pool)" "distinct (map np_Name ps)"
    and uniq: "\<forall>p \<in> set ps. \<forall>n. nodes w (np_Name p) = Some n \<longrightarrow> own_unique (managed_keys p) (n_Taints n)"
  shows "\<exists>w'. cleanupNode_loop E pool ps w = (Ret (Inr ()), w') \<and>
    nodes w' = (\<lambda>k. case find (\<lambda>p. np_Name p = k) (takeWhile (dirty pool (nodes w)) ps) of
      None \<Rightarrow> nodes w k | Some p \<Rightarrow> map_option (cleaned pool p) (nodes w k))"
  using ps uniq
proof (induction ps arbitrary: w)
  case Nil
  then show ?case by (simp add: act_simps)
next
  case (Cons p ps)
  have p: "p \<in> set (entries pool)" using Cons.prems by simp
  show ?case
  proof (cases "dirty pool (nodes w) p")
    case False
    with cleanup_step_stops [OF api cmp wf p, of w ps] Cons.prems(3) show ?thesis by auto
  next
    case True
    then obtain n where n: "nodes w (np_Name p) = Some n" "cleaned pool p n \<noteq> n"
      by (auto simp: dirty_def)
    obtain w1 where w1: "cleanupNode_loop E pool (p # ps) w = cleanupNode_loop E pool ps w1"
        "nodes w1 = (nodes w)(np_Name p \<mapsto> cleaned pool p n)"
      using cleanup_step_writes [OF api cmp wf p n(1) _ n(2), of ps] Cons.prems(3) n(1) by auto
    have fresh: "np_Name q \<noteq> np_Name p" if "q \<in> set ps" for q
      using Cons.prems(2) that by (metis distinct.simps(2) image_eqI list.simps(9) set_map)
    have tw: "takeWhile (dirty pool (nodes w1)) ps = takeWhile (dirty pool (nodes w)) ps"
      by (rule takeWhile_cong) (use fresh in \<open>auto simp: w1(2) dirty_def\<close>)
    have uniq1: "\<forall>q \<in> set ps. \<forall>m. nodes w1 (np_Name q) = Some m \<longrightarrow> own_unique (managed_keys q) (n_Taints m)"
      using Cons.prems(3) fresh w1(2) by simp
    have "set ps \<subseteq> set (entries pool)" "distinct (map np_Name ps)" using Cons.prems(1,2) by simp_all
    from Cons.IH [OF this uniq1] obtain w' where loop: "cleanupNode_loop E pool ps w1 = (Ret (Inr ()), w')"
      and w': "nodes w' = (\<lambda>k. case find (\<lambda>p. np_Name p = k) (takeWhile (dirty pool (nodes w1)) ps) of
          None \<Rightarrow> nodes w1 k | Some p \<Rightarrow> map_option (cleaned pool p) (nodes w1 k))"
      by blast
    have "find (\<lambda>q. np_Name q = np_Name p) (takeWhile (dirty pool (nodes w)) ps) = None"
      using fresh by (auto simp: find_None_iff dest: set_takeWhileD)
    then have "nodes w' = (\<lambda>k. case find (\<lambda>p. np_Name p = k) (takeWhile (dirty pool (nodes w)) (p # ps)) of
          None \<Rightarrow> nodes w k | Some p \<Rightarrow> map_option (cleaned pool p) (nodes w k))"
      using True n(1) by (auto simp: w' [unfolded tw] w1(2) fun_eq_iff split: option.split)
    moreover have "cleanupNode_loop E pool (p # ps) w = (Ret (Inr ()), w')"
      using w1(1) loop by simp
    ultimately show ?thesis by blast
  qed
qed

subsection \<open>The conditions reported\<close>

definition reported :: "environ \<Rightarrow> NodePool \<Rightarrow> Taint list \<Rightarrow> MachineNodeCondition" where
  "reported env p ts =
     (if np_Mode p = NodeModeMaintenance then NodeMaintenance
      else if expected_status env p ts = NodeModeReady then NodeHealthy else NodeUnhealthy)"

lemma statusTaint_loop_eq:
  "statusTaint_loop v ts =
     (case filter is_status ts of [] \<Rightarrow> v | us \<Rightarrow> taint_Value (last us))"
  by (induction ts arbitrary: v) (auto split: list.split)

lemma nodeCondition_prepared:
  assumes wf: "entry_wf p" and prep: "node_prepared env pool p n"
  shows "nodeCondition p n = reported env p (n_Taints n)"
proof -
  have key: "MachineStatusKey \<notin> set (entry_keys p)" by (rule entry_wf_keys(2) [OF wf])
  have "node_Labels n MachineStatusKey =
      prepared_labels env (group_of pool) p (n_Taints n) (node_Labels n) MachineStatusKey"
    using prep by (metis node_prepared_def)
  then have label: "map_get (node_Labels n) MachineStatusKey = expected_status env p (n_Taints n)"
    using key by (simp add: prepared_labels_def)
  have "statusTaint_loop v (n_Taints n) = expected_status env p (n_Taints n)" if taint: "np_Taint p" for v
  proof -
    obtain now where m: "filter (\<lambda>t. taint_Key t \<in> set (managed_keys p)) (n_Taints n)
        = managed_taints env (group_of pool) p now (n_Taints n)"
      using prep taint by (auto simp: node_prepared_def)
    have "filter is_status (n_Taints n)
        = filter is_status (filter (\<lambda>t. taint_Key t \<in> set (managed_keys p)) (n_Taints n))"
      by (auto simp: conj_commute intro!: filter_cong)
    also have "\<dots> = [new_taint now MachineStatusKey (expected_status env p (n_Taints n))]"
      unfolding m using key by (auto simp: managed_taints_def filter_empty_conv)
    finally show ?thesis by (simp add: statusTaint_loop_eq)
  qed
  with label expected_status_cases [of env p "n_Taints n"] show ?thesis
    by (auto simp: nodeCondition_def reported_def Let_def mode_Value_def expected_status_def)
qed

definition condition_step :: "('w, 'x) pool_env_scheme \<Rightarrow> NodePool \<Rightarrow> NodePoolCondition list \<Rightarrow>
    ('w, goerr + NodePoolCondition list) act" where
  "condition_step E p cs =
     atry (acall (Get_Node E ([], np_Name p))) (\<lambda>node.
       aret (Inr (cs @ [\<lparr>npc_Name = np_Name p, npc_NodeCondition = nodeCondition p node\<rparr>])))"

interpretation node_conditions: abort_loop
  "condition_step E" "\<lambda>ps cs. nodeConditions_loop E cs ps" for E
  by unfold_locales
    (simp_all add: condition_step_def fun_eq_iff act_simps split: gores.split sum.split)

text \<open>One condition per entry, in the order of the pool, of the Node stored now.\<close>

lemma nodeConditions_exact:
  assumes api: "node_api_total E nodes" and ex: "\<forall>p \<in> set ps. nodes w (np_Name p) \<noteq> None"
  shows "\<exists>w'. nodeConditions_loop E cs ps w =
      (Ret (Inr (cs @ map (\<lambda>p. \<lparr>npc_Name = np_Name p,
         npc_NodeCondition = nodeCondition p (the (nodes w (np_Name p)))\<rparr>) ps)), w') \<and>
    nodes w' = nodes w"
  using ex
proof (induction ps arbitrary: cs w)
  case Nil
  then show ?case by (simp add: act_simps)
next
  case (Cons p ps)
  let ?r = "Get_Node E ([], np_Name p) w"
  have get: "nodes (snd ?r) = nodes w" by (rule node_apiD(3) [OF node_api_totalD(1) [OF api]])
  from Cons.prems obtain n where n: "nodes w (np_Name p) = Some n" by auto
  then have r: "fst ?r = Inr n" using node_api_totalD(2) [OF api, of w "([], np_Name p)"] by simp
  let ?c = "\<lparr>npc_Name = np_Name p, npc_NodeCondition = nodeCondition p n\<rparr>"
  have "condition_step E p cs w = (Ret (Inr (cs @ [?c])), snd ?r)"
    using r by (simp add: condition_step_def act_simps)
  from node_conditions.loop_Cons_Inr [OF this, of ps] Cons.IH [of "snd ?r" "cs @ [?c]"] Cons.prems get n
  show ?case by (auto simp del: nodeConditions_loop.simps)
qed

subsection \<open>A second run\<close>

text \<open>
  An environment that answers updates differently. A step that finds nothing to write does not
  notice; this states that no update is sent.
\<close>

lemma step_quiet:
  assumes api: "node_api E nodes" and cmp: "cmp_laws E"
    and wf: "distinct (map np_Name (entries pool))" "p \<in> set (entries pool)"
    and n: "nodes w (np_Name p) = Some n" and prep: "node_prepared (os_environ E) pool p n"
    and untainted: "\<not> np_Taint p"
  shows "reconcileNode_step (E\<lparr>Update_Node := U\<rparr>) pool p w = reconcileNode_step E pool p w \<and>
    nodes (snd (reconcileNode_step E pool p w)) = nodes w"
proof -
  let ?r = "Get_Node E ([], np_Name p) w"
  have get: "nodes (snd ?r) = nodes w" by (rule node_apiD(3) [OF api])
  show ?thesis
  proof (cases "fst ?r")
    case (Inl e)
    with get show ?thesis by (simp add: step_run Let_def)
  next
    case r: (Inr n')
    then have "n' = n" using node_apiD(2) [OF api r] n by simp
    have name: "node_Name n = np_Name p" by (rule node_apiD(1) [OF api n])
    obtain n1 where n1: "cleanupOldEnv pool p n = Ret n1" "setNode (os_environ E) pool p 0 n1 =
        prepared (os_environ E) pool p 0 n"
      using edit_refines [OF wf name, of "os_environ E" 0] untainted
      by (cases "cleanupOldEnv pool p n") auto
    have "node_Labels (prepared (os_environ E) pool p 0 n) = node_Labels n"
      "n_Taints (prepared (os_environ E) pool p 0 n) = n_Taints n"
      using prep untainted by (simp_all add: prepared_def node_prepared_def)
    with r n1 get \<open>n' = n\<close> untainted show ?thesis
      by (simp add: step_run Let_def step_now_def cmp_lawsD [OF cmp])
  qed
qed

lemma loop_quiet:
  assumes api: "node_api E nodes" and cmp: "cmp_laws E"
    and wf: "distinct (map np_Name (entries pool))" and ps: "set ps \<subseteq> set (entries pool)"
    and prep: "pool_prepared (os_environ E) pool (nodes w)"
    and untainted: "\<forall>p \<in> set (entries pool). \<not> np_Taint p"
  shows "reconcileNode_loop (E\<lparr>Update_Node := U\<rparr>) pool ps w = reconcileNode_loop E pool ps w \<and>
    nodes (snd (reconcileNode_loop E pool ps w)) = nodes w"
  using ps prep
proof (induction ps arbitrary: w)
  case Nil
  then show ?case by (simp add: act_simps)
next
  case (Cons p ps)
  obtain n where n: "nodes w (np_Name p) = Some n" "node_prepared (os_environ E) pool p n"
    using Cons.prems by (auto simp: pool_prepared_def)
  note step = step_quiet [OF api cmp wf _ n, of U]
  show ?case
  proof (cases "reconcileNode_step E pool p w")
    case (Pair r w1)
    with step Cons.prems untainted have "nodes w1 = nodes w" by simp
    with Cons.IH [of w1] Cons.prems step Pair untainted show ?thesis
      by (auto simp: act_simps split: gores.split sum.split)
  qed
qed

end
