(* ===== verification/MachineController.thy ===== *)
theory MachineController
  imports Client
begin

text \<open>
  \<open>pkg/controllers/machine_controller.go\<close> and \<open>controller_utils.go\<close>: the Machine
  controller. One reconciliation brings the group's MachineNodePool, the StatefulSets that
  reserve resources and the Services up to date and then counts Pods into the status.

  The handlers share the pointer \<open>machine\<close>: a status update replaces it by the server's
  answer, and also a failing one has already changed its conditions. So the in-memory Machine
  is threaded through, and the error value of a handler carries it.
\<close>

subsection \<open>Constants of the Kubernetes API\<close>

definition PodRunning :: string where "PodRunning = ''Running''"
definition PodPending :: string where "PodPending = ''Pending''"
definition ConditionTrue :: string where "ConditionTrue = ''True''"
definition ConditionFalse :: string where "ConditionFalse = ''False''"
definition ContainersReady :: string where "ContainersReady = ''ContainersReady''"
definition PodScheduled :: string where "PodScheduled = ''PodScheduled''"
definition PodReasonUnschedulable :: string where "PodReasonUnschedulable = ''Unschedulable''"
definition StatusSuccess :: string where "StatusSuccess = ''Success''"
definition StatusFailure :: string where "StatusFailure = ''Failure''"

type_synonym ('w, 'a) mact = "('w, (goerr \<times> Machine) + 'a) act"

text \<open>A call whose error leaves the machine \<open>m\<close> behind, possibly with a wrapped error.\<close>

definition with_machine :: "(goerr \<Rightarrow> goerr) \<Rightarrow> Machine \<Rightarrow> (goerr + 'a) \<Rightarrow> (goerr \<times> Machine) + 'a" where
  "with_machine wrap m r = (case r of Inl e \<Rightarrow> Inl (wrap e, m) | Inr x \<Rightarrow> Inr x)"

subsection \<open>controller\_utils.go\<close>

fun getUnscheduledPodNum_loop :: "('w, 'x) mach_env_scheme \<Rightarrow> int32 \<Rightarrow> Pod list \<Rightarrow> int32" where
  "getUnscheduledPodNum_loop E unscheduledPodNum [] = unscheduledPodNum"
| "getUnscheduledPodNum_loop E unscheduledPodNum (p # pods) =
     (if \<not> Time_IsZero E (DeletionTimestamp (pod_Meta p))
      then getUnscheduledPodNum_loop E unscheduledPodNum pods
      else if pod_Phase p \<noteq> PodPending then getUnscheduledPodNum_loop E unscheduledPodNum pods
      else if ps_NodeName (pod_Spec p) \<noteq> []
      then getUnscheduledPodNum_loop E unscheduledPodNum pods
      else case GetPodConditionTypeMap (pod_Conditions p) PodScheduled of
        None \<Rightarrow> getUnscheduledPodNum_loop E unscheduledPodNum pods
      | Some scheduledCondition \<Rightarrow>
          if pc_Reason scheduledCondition = PodReasonUnschedulable
             \<and> pc_Status scheduledCondition = ConditionFalse
          then getUnscheduledPodNum_loop E (unscheduledPodNum + 1) pods
          else getUnscheduledPodNum_loop E unscheduledPodNum pods)"

definition getUnscheduledPodNum ::
    "('w, 'x) mach_env_scheme \<Rightarrow> smap \<Rightarrow> string \<Rightarrow> 'w \<Rightarrow> (goerr + int32) \<times> 'w" where
  "getUnscheduledPodNum E podLabels ns w =
     (case List_Pods E ns podLabels w of
        (Inl err, w') \<Rightarrow> (Inl err, w')
      | (Inr pods, w') \<Rightarrow>
          (if pods = [] then (Inr 0, w')
           else (Inr (getUnscheduledPodNum_loop E 0 pods), w')))"

definition machine_setCondition ::
    "('w, 'x) mach_env_scheme \<Rightarrow> string \<Rightarrow> string \<Rightarrow> string \<Rightarrow> time \<Rightarrow> Machine \<Rightarrow> Machine" where
  "machine_setCondition E status reason message now machine =
     machine\<lparr>m_Status := (m_Status machine)\<lparr>mst_Conditions :=
       meta_SetStatusCondition E
         \<lparr>cond_Type = ConditionReady, cond_Status = status, cond_LastTransitionTime = now,
          cond_Reason = reason, cond_Message = message\<rparr>
         (mst_Conditions (m_Status machine))\<rparr>\<rparr>"

definition updateReconcileFailedStatus ::
    "('w, 'x) mach_env_scheme \<Rightarrow> Machine \<Rightarrow> goerr \<Rightarrow> ('w, reconcile_out) act" where
  "updateReconcileFailedStatus E machine reconcileErr =
     abind (acall (metav1_Now E)) (\<lambda>now.
     abind (acall (StatusUpdate_Machine E
       (machine_setCondition E ConditionFalse StatusFailure (err_text reconcileErr) now machine)))
     (\<lambda>r. case r of
        Inl err \<Rightarrow> aret (\<lparr>Requeue = True\<rparr>, Some err)
      | Inr _ \<Rightarrow> aret (\<lparr>Requeue = True\<rparr>, None)))"

definition updateReconcileSuccessStatus ::
    "('w, 'x) mach_env_scheme \<Rightarrow> Machine \<Rightarrow> ('w, Machine) mact" where
  "updateReconcileSuccessStatus E machine =
     abind (acall (metav1_Now E)) (\<lambda>now.
       let machine' = machine_setCondition E ConditionTrue StatusSuccess
             ''update status conditions'' now machine
       in abind (acall (StatusUpdate_Machine E machine')) (\<lambda>r. aret (with_machine id machine' r)))"

definition updateReconcileConditions ::
    "('w, 'x) mach_env_scheme \<Rightarrow> OperationResult \<Rightarrow> Machine \<Rightarrow> ('w, Machine) mact" where
  "updateReconcileConditions E opeResult machine =
     (if opeResult = OperationResultUpdated \<or> opeResult = OperationResultCreated
      then updateReconcileSuccessStatus E machine
      else aret (Inr machine))"

subsection \<open>reconcileMachineNodePool\<close>

definition named_meta :: "string \<Rightarrow> string \<Rightarrow> ObjectMeta" where
  "named_meta namespace name = zero_meta\<lparr>Name := name, Namespace := namespace\<rparr>"

fun poolMachineTypeStockMap_loop :: "(string \<Rightarrow> bool) \<Rightarrow> NodePoolMachineTypeStock list \<Rightarrow> (string \<Rightarrow> bool)" where
  "poolMachineTypeStockMap_loop m [] = m"
| "poolMachineTypeStockMap_loop m (mts # stock) =
     (if m (stock_Name mts) then poolMachineTypeStockMap_loop m stock
      else poolMachineTypeStockMap_loop (m(stock_Name mts := True)) stock)"

fun appendStock_loop ::
    "(string \<Rightarrow> bool) \<Rightarrow> NodePoolMachineTypeStock list \<Rightarrow> MachineType list \<Rightarrow>
     NodePoolMachineTypeStock list" where
  "appendStock_loop m stock [] = stock"
| "appendStock_loop m stock (mt # mts) =
     (if m (mt_Name mt) then appendStock_loop m stock mts
      else appendStock_loop m (stock @ [\<lparr>stock_Name = mt_Name mt\<rparr>]) mts)"

text \<open>
  The functions given to \<open>ctrl.CreateOrUpdate\<close> change the object and end with
  \<open>return ctrl.SetControllerReference(machine, object, r.Scheme)\<close>, which writes the owner into
  the object's meta data or fails.
\<close>

definition edit_pool :: "Machine \<Rightarrow> string \<Rightarrow> MachineNodePool \<Rightarrow> MachineNodePool" where
  "edit_pool machine machineGroup pool =
     (let stockMap = poolMachineTypeStockMap_loop (\<lambda>_. False) (mnp_MachineTypeStock (p_Spec pool));
          labels = Labels (p_Meta pool);
          labels = (if labels MachineGroupKey = None
                    then labels(MachineGroupKey \<mapsto> machineGroup) else labels);
          spec = \<lparr>mnp_MachineGroupName = machineGroup,
                  mnp_NodePool = ms_NodePool (m_Spec machine),
                  mnp_MachineTypeStock = appendStock_loop stockMap
                    (mnp_MachineTypeStock (p_Spec pool)) (ms_MachineTypes (m_Spec machine))\<rparr>
      in pool\<lparr>p_Meta := (p_Meta pool)\<lparr>Labels := labels\<rparr>, p_Spec := spec\<rparr>)"

definition mutate_pool ::
    "('w, 'x) mach_env_scheme \<Rightarrow> Machine \<Rightarrow> string \<Rightarrow> MachineNodePool \<Rightarrow> goerr + MachineNodePool" where
  "mutate_pool E machine machineGroup pool =
     (let pool = edit_pool machine machineGroup pool
      in case SetControllerReference E machine (p_Meta pool) of
           Inl err \<Rightarrow> Inl err
         | Inr meta \<Rightarrow> Inr (pool\<lparr>p_Meta := meta\<rparr>))"

definition new_pool :: "string \<Rightarrow> MachineNodePool" where
  "new_pool name =
     \<lparr>p_Meta = named_meta [] name,
      p_Spec = \<lparr>mnp_MachineGroupName = [], mnp_NodePool = [], mnp_MachineTypeStock = []\<rparr>,
      p_Status = \<lparr>mnps_Conditions = [], mnps_NodePoolCondition = []\<rparr>\<rparr>"

text \<open>\<open>fmt.Errorf("\<dots>; %v", err)\<close>.\<close>

definition errorf :: "string \<Rightarrow> goerr \<Rightarrow> goerr" where
  "errorf prefix err = Errorf (prefix @ ''; '' @ err_text err)"

definition reconcileMachineNodePool ::
    "('w, 'x) mach_env_scheme \<Rightarrow> Machine \<Rightarrow> ('w, Machine) mact" where
  "reconcileMachineNodePool E machine =
     (let machineGroup = GetMachineGroup (Labels (m_Meta machine));
          pool = new_pool (GenerateMachineNodePoolName machineGroup)
      in atry (abind (acall (CreateOrUpdate_Pool E pool (\<lambda>p w. (mutate_pool E machine machineGroup p, w))))
                (\<lambda>r. aret (with_machine (errorf ''failed to reconcile MachineNodePool'') machine r)))
           (\<lambda>opeResult. updateReconcileConditions E opeResult machine))"

subsection \<open>reconcileStatefulSet\<close>

fun nodePoolTypes_inner :: "(string \<Rightarrow> bool) \<Rightarrow> NodePoolMachineType list \<Rightarrow> (string \<Rightarrow> bool)" where
  "nodePoolTypes_inner m [] = m"
| "nodePoolTypes_inner m (npmt # npmts) =
     (if m (npmt_Name npmt) then nodePoolTypes_inner m npmts
      else nodePoolTypes_inner (m(npmt_Name npmt := True)) npmts)"

fun nodePoolMachineTypeMap_loop :: "(string \<Rightarrow> bool) \<Rightarrow> NodePool list \<Rightarrow> (string \<Rightarrow> bool)" where
  "nodePoolMachineTypeMap_loop m [] = m"
| "nodePoolMachineTypeMap_loop m (np # nps) =
     nodePoolMachineTypeMap_loop (nodePoolTypes_inner m (np_MachineType np)) nps"

definition stsReplica :: "UsageCondition \<Rightarrow> int32 \<Rightarrow> int32" where
  "stsReplica usage unscheduledPodNum =
     (let replica = Maximum usage - (Used usage + Waiting usage + unscheduledPodNum)
      in if lt0 replica then 0 else replica)"

definition mutate_sts ::
    "('w, 'x) mach_env_scheme \<Rightarrow> Machine \<Rightarrow> string \<Rightarrow> MachineType \<Rightarrow> UsageCondition \<Rightarrow>
     StatefulSet \<Rightarrow> 'w \<Rightarrow> (goerr + StatefulSet) \<times> 'w" where
  "mutate_sts E machine machineGroup mt usage sts w =
     (let reservationPodLabels = GenerateReservationResourceLabel machineGroup (mt_Name mt)
      in case getUnscheduledPodNum E reservationPodLabels (ImperatorCoreNamespace (os_environ E)) w of
           (Inl err, w') \<Rightarrow> (Inl err, w')
         | (Inr unscheduledPodNum, w') \<Rightarrow>
             (let sts = GenerateStatefulSet mt machineGroup (stsReplica usage unscheduledPodNum) sts
              in case SetControllerReference E machine (sts_Meta sts) of
                   Inl err \<Rightarrow> (Inl err, w')
                 | Inr meta \<Rightarrow> (Inr (sts\<lparr>sts_Meta := meta\<rparr>), w')))"

definition new_sts :: "string \<Rightarrow> string \<Rightarrow> StatefulSet" where
  "new_sts namespace name =
     \<lparr>sts_Meta = named_meta namespace name, sts_Selector = None, sts_ServiceName = [],
      sts_Replicas = None, sts_TemplateLabels = Map.empty, sts_TemplateSpec = zero_podspec\<rparr>"

definition reconcileStatefulSet_step ::
    "('w, 'x) mach_env_scheme \<Rightarrow> string \<Rightarrow> (string \<Rightarrow> bool) \<Rightarrow> MachineType \<Rightarrow> Machine \<Rightarrow>
     ('w, Machine) mact" where
  "reconcileStatefulSet_step E machineGroup nodePoolMachineTypeMap mt machine =
     (if \<not> nodePoolMachineTypeMap (mt_Name mt) then aret (Inr machine)
      else case GetMachineTypeUsage (mst_AvailableMachines (m_Status machine)) (mt_Name mt) of
        None \<Rightarrow> aret (Inr machine)
      | Some usage \<Rightarrow>
          (let sts = new_sts (ImperatorCoreNamespace (os_environ E))
                 (GenerateReservationResourceName machineGroup (mt_Name mt))
           in atry (abind (acall (CreateOrUpdate_Sts E sts (mutate_sts E machine machineGroup mt usage)))
                     (\<lambda>r. aret (with_machine
                        (errorf (''failed to reconcile StatefulSet for machineType, '' @ mt_Name mt))
                        machine r)))
                (\<lambda>opeResult. updateReconcileConditions E opeResult machine)))"

fun reconcileStatefulSet_loop ::
    "('w, 'x) mach_env_scheme \<Rightarrow> string \<Rightarrow> (string \<Rightarrow> bool) \<Rightarrow> MachineType list \<Rightarrow> Machine \<Rightarrow>
     ('w, Machine) mact" where
  "reconcileStatefulSet_loop E grp nodePoolMachineTypeMap [] machine = aret (Inr machine)"
| "reconcileStatefulSet_loop E grp nodePoolMachineTypeMap (mt # mts) machine =
     atry (reconcileStatefulSet_step E grp nodePoolMachineTypeMap mt machine)
       (\<lambda>machine'. reconcileStatefulSet_loop E grp nodePoolMachineTypeMap mts machine')"

definition reconcileStatefulSet ::
    "('w, 'x) mach_env_scheme \<Rightarrow> Machine \<Rightarrow> ('w, Machine) mact" where
  "reconcileStatefulSet E machine =
     reconcileStatefulSet_loop E (GetMachineGroup (Labels (m_Meta machine)))
       (nodePoolMachineTypeMap_loop (\<lambda>_. False) (ms_NodePool (m_Spec machine)))
       (ms_MachineTypes (m_Spec machine)) machine"

subsection \<open>reconcileService\<close>

definition mutate_svc ::
    "('w, 'x) mach_env_scheme \<Rightarrow> Machine \<Rightarrow> string \<Rightarrow> string \<Rightarrow> Service \<Rightarrow> goerr + Service" where
  "mutate_svc E machine machineGroup mtName svc =
     (let svc = GenerateService mtName machineGroup svc
      in case SetControllerReference E machine (svc_Meta svc) of
           Inl err \<Rightarrow> Inl err
         | Inr meta \<Rightarrow> Inr (svc\<lparr>svc_Meta := meta\<rparr>))"

definition new_svc :: "string \<Rightarrow> string \<Rightarrow> Service" where
  "new_svc namespace name =
     \<lparr>svc_Meta = named_meta namespace name, svc_Selector = Map.empty, svc_Ports = [], svc_Type = []\<rparr>"

definition reconcileService_step ::
    "('w, 'x) mach_env_scheme \<Rightarrow> string \<Rightarrow> MachineType \<Rightarrow> Machine \<Rightarrow> ('w, Machine) mact" where
  "reconcileService_step E machineGroup mt machine =
     (case GetMachineTypeUsage (mst_AvailableMachines (m_Status machine)) (mt_Name mt) of
        None \<Rightarrow> aret (Inr machine)
      | Some usage \<Rightarrow>
          (let svc = new_svc (ImperatorCoreNamespace (os_environ E))
                 (GenerateReservationResourceName machineGroup (mt_Name mt))
           in atry (abind (acall (CreateOrUpdate_Svc E svc
                          (\<lambda>s w. (mutate_svc E machine machineGroup (mt_Name mt) s, w))))
                     (\<lambda>r. aret (with_machine
                        (errorf (''failed to reconcile Service for machineType, '' @ mt_Name mt))
                        machine r)))
                (\<lambda>opeResult. updateReconcileConditions E opeResult machine)))"

fun reconcileService_loop ::
    "('w, 'x) mach_env_scheme \<Rightarrow> string \<Rightarrow> MachineType list \<Rightarrow> Machine \<Rightarrow> ('w, Machine) mact" where
  "reconcileService_loop E grp [] machine = aret (Inr machine)"
| "reconcileService_loop E grp (mt # mts) machine =
     atry (reconcileService_step E grp mt machine)
       (\<lambda>machine'. reconcileService_loop E grp mts machine')"

definition reconcileService :: "('w, 'x) mach_env_scheme \<Rightarrow> Machine \<Rightarrow> ('w, Machine) mact" where
  "reconcileService E machine =
     reconcileService_loop E (GetMachineGroup (Labels (m_Meta machine)))
       (ms_MachineTypes (m_Spec machine)) machine"

subsection \<open>updateStatus\<close>

fun desiredMachineTypeNum_loop :: "(string \<Rightarrow> int32) \<Rightarrow> MachineType list \<Rightarrow> (string \<Rightarrow> int32)" where
  "desiredMachineTypeNum_loop m [] = m"
| "desiredMachineTypeNum_loop m (mt # mts) =
     desiredMachineTypeNum_loop (m(mt_Name mt := mt_Available mt)) mts"

fun availableMachinesMap_loop :: "(string \<Rightarrow> bool) \<Rightarrow> AvailableMachineCondition list \<Rightarrow> (string \<Rightarrow> bool)" where
  "availableMachinesMap_loop m [] = m"
| "availableMachinesMap_loop m (am # ams) = availableMachinesMap_loop (m(am_Name am := True)) ams"

fun appendAvailable_loop ::
    "(string \<Rightarrow> bool) \<Rightarrow> AvailableMachineCondition list \<Rightarrow> MachineType list \<Rightarrow>
     AvailableMachineCondition list" where
  "appendAvailable_loop m ams [] = ams"
| "appendAvailable_loop m ams (mt # mts) =
     (if m (mt_Name mt) then appendAvailable_loop m ams mts
      else appendAvailable_loop m
        (ams @ [\<lparr>am_Name = mt_Name mt, am_Usage =
           \<lparr>Maximum = mt_Available mt, Reserved = 0, Used = 0, Waiting = 0\<rparr>\<rparr>]) mts)"

text \<open>\<open>podConditionTypeMap[t].Status\<close>: a missing entry reads as the zero \<open>PodCondition\<close>.\<close>

definition cond_StatusOf :: "(string \<rightharpoonup> PodCondition) \<Rightarrow> string \<Rightarrow> string" where
  "cond_StatusOf m t = (case m t of None \<Rightarrow> [] | Some c \<Rightarrow> pc_Status c)"

fun countReserved_loop :: "int32 \<Rightarrow> Pod list \<Rightarrow> int32" where
  "countReserved_loop reserved [] = reserved"
| "countReserved_loop reserved (po # pods) =
     (if DeletionTimestamp (pod_Meta po) \<noteq> None then countReserved_loop reserved pods
      else if pod_Phase po = PodRunning
           \<and> cond_StatusOf (GetPodConditionTypeMap (pod_Conditions po)) ContainersReady = ConditionTrue
      then countReserved_loop (reserved + 1) pods
      else if pod_Phase po = PodPending \<and> ps_NodeName (pod_Spec po) \<noteq> []
      then countReserved_loop (reserved + 1) pods
      else countReserved_loop reserved pods)"

text \<open>The counters after one guest Pod of a namespace with injection enabled.\<close>

definition countGuest ::
    "('w, 'x) mach_env_scheme \<Rightarrow> Pod \<Rightarrow> int32 \<times> int32 \<Rightarrow> int32 \<times> int32" where
  "countGuest E po = (\<lambda>(used, waiting).
     if \<not> Time_IsZero E (DeletionTimestamp (pod_Meta po)) then (used, waiting)
     else if pod_Phase po = PodRunning
          \<and> cond_StatusOf (GetPodConditionTypeMap (pod_Conditions po)) ContainersReady = ConditionTrue
     then (used + 1, waiting)
     else if pod_Phase po = PodPending
     then (if ps_NodeName (pod_Spec po) \<noteq> [] then (used + 1, waiting)
           else case GetPodConditionTypeMap (pod_Conditions po) PodScheduled of
             None \<Rightarrow> (used, waiting)
           | Some scheduledCondition \<Rightarrow>
               if pc_Reason scheduledCondition = PodReasonUnschedulable
                  \<and> pc_Status scheduledCondition = ConditionFalse
               then (used, waiting + 1) else (used, waiting))
     else (used, waiting))"

definition injectionEnabled :: "ObjectMeta \<Rightarrow> bool" where
  "injectionEnabled ns \<longleftrightarrow>
     map_get (Labels ns) ImperatorResourceInjectionKey = ImperatorResourceInjectionEnabled"

definition guest_step ::
    "('w, 'x) mach_env_scheme \<Rightarrow> Pod \<Rightarrow> int32 \<times> int32 \<Rightarrow> ('w, goerr + int32 \<times> int32) act" where
  "guest_step E po counts =
     atry (acall (Get_Namespace E (Namespace (pod_Meta po)))) (\<lambda>ns.
       if \<not> injectionEnabled ns then aret (Inr counts)
       else aret (Inr (countGuest E po counts)))"

fun guest_loop ::
    "('w, 'x) mach_env_scheme \<Rightarrow> Pod list \<Rightarrow> int32 \<times> int32 \<Rightarrow> ('w, goerr + int32 \<times> int32) act" where
  "guest_loop E [] counts = aret (Inr counts)"
| "guest_loop E (po # pods) counts = atry (guest_step E po counts) (\<lambda>counts'. guest_loop E pods counts')"

text \<open>One iteration over the status list: the entry with its counters recomputed.\<close>

definition updateStatus_entry ::
    "('w, 'x) mach_env_scheme \<Rightarrow> string \<Rightarrow> (string \<Rightarrow> int32) \<Rightarrow> AvailableMachineCondition \<Rightarrow>
     ('w, goerr + AvailableMachineCondition) act" where
  "updateStatus_entry E machineGroup desiredMachineTypeNum statusMT =
     (let roleCommonLabels = [MachineGroupKey \<mapsto> machineGroup, MachineTypeKey \<mapsto> am_Name statusMT];
          reservationRoleLabels = [PodRoleKey \<mapsto> PodRoleReservation];
          guestRoleLabels = [PodRoleKey \<mapsto> PodRoleGuest]
      in atry (aret (mergo_Map E reservationRoleLabels roleCommonLabels)) (\<lambda>reservationRoleLabels.
         atry (aret (mergo_Map E guestRoleLabels roleCommonLabels)) (\<lambda>guestRoleLabels.
         atry (acall (List_Pods E [] reservationRoleLabels)) (\<lambda>reservationPods.
         let reserved = countReserved_loop 0 reservationPods
         in atry (acall (List_Pods E [] guestRoleLabels)) (\<lambda>guestPods.
            atry (guest_loop E guestPods (0, 0)) (\<lambda>counts.
            aret (Inr (statusMT\<lparr>am_Usage :=
              \<lparr>Maximum = desiredMachineTypeNum (am_Name statusMT), Reserved = reserved,
               Used = fst counts, Waiting = snd counts\<rparr>\<rparr>))))))))"

text \<open>
  The loop over the indices of \<open>machine.Status.AvailableMachines\<close>: the entries already
  written are the threaded value.
\<close>

definition updateStatus_step ::
    "('w, 'x) mach_env_scheme \<Rightarrow> string \<Rightarrow> (string \<Rightarrow> int32) \<Rightarrow> AvailableMachineCondition \<Rightarrow>
     AvailableMachineCondition list \<Rightarrow> ('w, goerr + AvailableMachineCondition list) act" where
  "updateStatus_step E machineGroup desired statusMT written =
     atry (updateStatus_entry E machineGroup desired statusMT) (\<lambda>am. aret (Inr (written @ [am])))"

fun updateStatus_loop ::
    "('w, 'x) mach_env_scheme \<Rightarrow> string \<Rightarrow> (string \<Rightarrow> int32) \<Rightarrow> AvailableMachineCondition list \<Rightarrow>
     AvailableMachineCondition list \<Rightarrow> ('w, goerr + AvailableMachineCondition list) act" where
  "updateStatus_loop E grp desired [] written = aret (Inr written)"
| "updateStatus_loop E grp desired (am # ams) written =
     atry (updateStatus_step E grp desired am written)
       (\<lambda>written'. updateStatus_loop E grp desired ams written')"

definition desiredMachineTypeNum :: "Machine \<Rightarrow> string \<Rightarrow> int32" where
  "desiredMachineTypeNum machine = desiredMachineTypeNum_loop (\<lambda>_. 0) (ms_MachineTypes (m_Spec machine))"

text \<open>The status list after the missing entries are created (lines 310-328).\<close>

definition withMissingEntries :: "Machine \<Rightarrow> AvailableMachineCondition list" where
  "withMissingEntries machine =
     (let ams = mst_AvailableMachines (m_Status machine)
      in appendAvailable_loop (availableMachinesMap_loop (\<lambda>_. False) ams) ams
           (ms_MachineTypes (m_Spec machine)))"

definition updateStatus :: "('w, 'x) mach_env_scheme \<Rightarrow> Machine \<Rightarrow> ('w, reconcile_out) act" where
  "updateStatus E machine =
     (let machineGroup = GetMachineGroup (Labels (m_Meta machine));
          originAvailableMachineStatus = mst_AvailableMachines (m_Status machine)
      in abind (updateStatus_loop E machineGroup (desiredMachineTypeNum machine)
                 (withMissingEntries machine) []) (\<lambda>r.
         case r of
           Inl err \<Rightarrow> aret (\<lparr>Requeue = True\<rparr>, Some err)
         | Inr ams \<Rightarrow>
             let machine' = machine\<lparr>m_Status := (m_Status machine)\<lparr>mst_AvailableMachines := ams\<rparr>\<rparr>
             in if cmp_Diff_avail E originAvailableMachineStatus ams \<noteq> []
                then abind (ado (Recorder_Eventf E ''updated available machine status'')) (\<lambda>_.
                     abind (updateReconcileSuccessStatus E machine') (\<lambda>r.
                     case r of
                       Inl (err, _) \<Rightarrow> aret (\<lparr>Requeue = True\<rparr>, Some err)
                     | Inr _ \<Rightarrow> aret (\<lparr>Requeue = False\<rparr>, None)))
                else aret (\<lparr>Requeue = False\<rparr>, None)))"

subsection \<open>reconcile and Reconcile\<close>

text \<open>
  \<open>if err := stage(machine); err != nil { return r.updateReconcileFailedStatus(...) }\<close>
\<close>

definition stage ::
    "('w, 'x) mach_env_scheme \<Rightarrow> ('w, Machine) mact \<Rightarrow> (Machine \<Rightarrow> ('w, reconcile_out) act) \<Rightarrow>
     ('w, reconcile_out) act" where
  "stage E m next_stage =
     abind m (\<lambda>r. case r of
       Inl (err, machine) \<Rightarrow> updateReconcileFailedStatus E machine err
     | Inr machine \<Rightarrow> next_stage machine)"

definition machine_reconcile :: "('w, 'x) mach_env_scheme \<Rightarrow> Machine \<Rightarrow> ('w, reconcile_out) act" where
  "machine_reconcile E machine =
     stage E (reconcileMachineNodePool E machine) (\<lambda>machine.
     stage E (reconcileStatefulSet E machine) (\<lambda>machine.
     stage E (reconcileService E machine) (\<lambda>machine.
     updateStatus E machine)))"

definition machine_Reconcile :: "('w, 'x) mach_env_scheme \<Rightarrow> ObjectKey \<Rightarrow> ('w, reconcile_out) act" where
  "machine_Reconcile E req =
     abind (acall (Get_Machine E req)) (\<lambda>r. case r of
       Inl err \<Rightarrow> (if is_not_found err then aret (\<lparr>Requeue = False\<rparr>, None)
                   else aret (\<lparr>Requeue = True\<rparr>, Some err))
     | Inr machine \<Rightarrow> machine_reconcile E machine)"

subsection \<open>podReconcileRequest\<close>

fun podRequest_types :: "ObjectKey \<Rightarrow> string \<Rightarrow> MachineType list \<Rightarrow> ObjectKey list" where
  "podRequest_types key machineType [] = []"
| "podRequest_types key machineType (mt # mts) =
     (if mt_Name mt = machineType then [key] else podRequest_types key machineType mts)"

definition podReconcileRequest ::
    "('w, 'x) mach_env_scheme \<Rightarrow> ObjectMeta \<Rightarrow> ('w, ObjectKey list) act" where
  "podReconcileRequest E pod =
     abind (acall (Get_Namespace E (Namespace pod))) (\<lambda>r. case r of
       Inl err \<Rightarrow> aret []
     | Inr ns \<Rightarrow>
         if \<not> injectionEnabled ns \<and> map_get (Labels pod) PodRoleKey = PodRoleGuest then aret []
         else case Labels pod MachineGroupKey of
           None \<Rightarrow> aret []
         | Some machineGroupName \<Rightarrow>
             abind (acall (List_Machines E [MachineGroupKey \<mapsto> machineGroupName])) (\<lambda>r. case r of
               Inl err \<Rightarrow> aret []
             | Inr items \<Rightarrow>
                 (case items of
                    [item] \<Rightarrow>
                      (case Labels pod MachineTypeKey of
                         None \<Rightarrow> aret []
                       | Some machineType \<Rightarrow>
                           aret (podRequest_types (ObjectKeyFromMeta (m_Meta item)) machineType
                             (ms_MachineTypes (m_Spec item))))
                  | _ \<Rightarrow> aret [])))"

end
