(* ===== verification/MachineFrames.thy ===== *)
theory MachineFrames
  imports MachineController
begin

text \<open>
  What the parts of a Machine reconciliation leave alone: each part changes nothing of the world
  that none of the calls it makes changes.
\<close>

lemma preserves_prod [preserves_intros]:
  "(\<And>a b. preserves view (f a b)) \<Longrightarrow> preserves view (case x of (a, b) \<Rightarrow> f a b)"
  by (cases x) simp

lemma preserves_pure: "preserves view (\<lambda>w. (x, w))"
  by (simp add: preserves_def)

lemma preserves_pair:
  "preserves (\<lambda>w. (f w, g w)) call \<longleftrightarrow> preserves f call \<and> preserves g call"
  by (auto simp: preserves_def)

text \<open>The calls of a status update.\<close>

definition status_frame :: "('w, 'x) mach_env_scheme \<Rightarrow> ('w \<Rightarrow> 'v) \<Rightarrow> bool" where
  "status_frame E view \<longleftrightarrow>
     preserves view (metav1_Now E) \<and> (\<forall>m. preserves view (StatusUpdate_Machine E m))"

lemma status_frameD:
  "status_frame E view \<Longrightarrow> preserves view (metav1_Now E)"
  "status_frame E view \<Longrightarrow> preserves view (StatusUpdate_Machine E m)"
  by (simp_all add: status_frame_def)

lemma success_frame: "status_frame E view \<Longrightarrow> preserves view (updateReconcileSuccessStatus E m)"
  unfolding updateReconcileSuccessStatus_def Let_def by (intro preserves_intros status_frameD)

lemma failed_frame: "status_frame E view \<Longrightarrow> preserves view (updateReconcileFailedStatus E m e)"
  unfolding updateReconcileFailedStatus_def Let_def by (intro preserves_intros status_frameD)

lemma reconcileConditions_frame:
  "status_frame E view \<Longrightarrow> preserves view (updateReconcileConditions E r m)"
  unfolding updateReconcileConditions_def by (intro preserves_intros success_frame)

text \<open>The first three stages.\<close>

lemma pool_stage_frame:
  assumes "status_frame E view" and "\<And>x g. preserves view (CreateOrUpdate_Pool E x (\<lambda>p w. (mutate_pool E m g p, w)))"
  shows "preserves view (reconcileMachineNodePool E m)"
  unfolding reconcileMachineNodePool_def Let_def by (intro preserves_intros reconcileConditions_frame assms)

lemma mutate_sts_frame:
  assumes "\<And>ns sel. preserves view (List_Pods E ns sel)"
  shows "preserves view (mutate_sts E m g mt u s)"
proof -
  have "view w' = view w" if "List_Pods E ns sel w = (r, w')" for ns sel w r w'
    using preservesD [OF assms, of ns sel w] that by simp
  then show ?thesis
    by (auto simp: preserves_def mutate_sts_def getUnscheduledPodNum_def Let_def split: prod.split sum.split)
qed

lemma sts_stage_frame:
  assumes "status_frame E view" and "\<And>x m g mt u. preserves view (CreateOrUpdate_Sts E x (mutate_sts E m g mt u))"
  shows "preserves view (reconcileStatefulSet E m)"
proof -
  have "preserves view (reconcileStatefulSet_step E grp types mt m)" for grp types mt m
    unfolding reconcileStatefulSet_step_def Let_def by (intro preserves_intros reconcileConditions_frame assms)
  then have "preserves view (reconcileStatefulSet_loop E grp types mts m)" for grp types mts m
    by (induction mts arbitrary: m) (simp_all add: preserves_intros)
  then show ?thesis by (simp add: reconcileStatefulSet_def)
qed

lemma svc_stage_frame:
  assumes "status_frame E view"
    and "\<And>x m g t. preserves view (CreateOrUpdate_Svc E x (\<lambda>s w. (mutate_svc E m g t s, w)))"
  shows "preserves view (reconcileService E m)"
proof -
  have "preserves view (reconcileService_step E grp mt m)" for grp mt m
    unfolding reconcileService_step_def Let_def by (intro preserves_intros reconcileConditions_frame assms)
  then have "preserves view (reconcileService_loop E grp mts m)" for grp mts m
    by (induction mts arbitrary: m) (simp_all add: preserves_intros)
  then show ?thesis by (simp add: reconcileService_def)
qed

text \<open>The last stage.\<close>

lemma updateStatus_loop_frame:
  assumes "\<And>ns sel. preserves view (List_Pods E ns sel)" and "\<And>name. preserves view (Get_Namespace E name)"
  shows "preserves view (updateStatus_loop E grp desired ams s)"
proof -
  have "preserves view (guest_step E p c)" for p c
    unfolding guest_step_def by (intro preserves_intros assms)
  then have guest: "preserves view (guest_loop E ps c)" for ps c
    by (induction ps arbitrary: c) (simp_all add: preserves_intros)
  have "preserves view (updateStatus_step E grp desired am s)" for grp desired am s
    unfolding updateStatus_step_def updateStatus_entry_def Let_def by (intro preserves_intros guest assms)
  then show ?thesis by (induction ams arbitrary: s) (simp_all add: preserves_intros)
qed

lemma updateStatus_frame:
  assumes "status_frame E view" and "\<And>s w. view (Recorder_Eventf E s w) = view w"
    and "\<And>ns sel. preserves view (List_Pods E ns sel)" and "\<And>name. preserves view (Get_Namespace E name)"
  shows "preserves view (updateStatus E m)"
  unfolding updateStatus_def Let_def
  by (intro preserves_intros updateStatus_loop_frame success_frame assms)

end
