(* ===== verification/MachineProofs.thy ===== *)
theory MachineProofs
  imports MachineFrames
begin

text \<open>
  Lemmas on the Machine controller: the Pod counters, the replica count, the functions given to
  \<open>CreateOrUpdate\<close>, the loops over the machine types, and the status.
\<close>

subsection \<open>Counting loops\<close>

text \<open>
  The contract of a loop that counts the Pods with some property in an \<open>int32\<close>. The counters of
  the status and of the unscheduled Pods interpret it.
\<close>

locale pod_counter =
  fixes count :: "int32 \<Rightarrow> Pod list \<Rightarrow> int32"
    and hit :: "Pod \<Rightarrow> bool"
  assumes count_Nil: "count n [] = n"
    and count_Cons: "count n (p # ps) = count (if hit p then n + 1 else n) ps"
begin

lemma count_from: "count n ps = n + of_nat (length (filter hit ps))"
  by (induction ps arbitrary: n) (simp_all add: count_Nil count_Cons)

lemma count_exact: "count 0 ps = of_nat (length (filter hit ps))"
  by (simp add: count_from)

lemma count_sint:
  "length (filter hit ps) < 2 ^ 31 \<Longrightarrow> sint (count 0 ps) = int (length (filter hit ps))"
  by (simp add: count_exact sint_of_nat_small)

lemma count_append: "count n (ps @ qs) = count (count n ps) qs"
  by (simp add: count_from)

end

definition has_condition :: "string \<Rightarrow> (PodCondition \<Rightarrow> bool) \<Rightarrow> Pod \<Rightarrow> bool" where
  "has_condition t P p \<longleftrightarrow>
     (case find (\<lambda>c. pc_Type c = t) (pod_Conditions p) of None \<Rightarrow> False | Some c \<Rightarrow> P c)"

definition live :: "Pod \<Rightarrow> bool" where
  "live p \<longleftrightarrow> DeletionTimestamp (pod_Meta p) = None"

text \<open>The Pod runs with its containers ready, or its containers are being created.\<close>

definition occupies :: "Pod \<Rightarrow> bool" where
  "occupies p \<longleftrightarrow> live p \<and>
     (pod_Phase p = PodRunning \<and> has_condition ContainersReady (\<lambda>c. pc_Status c = ConditionTrue) p \<or>
      pod_Phase p = PodPending \<and> ps_NodeName (pod_Spec p) \<noteq> [])"

text \<open>The scheduler has found no Node for the Pod.\<close>

definition unscheduled :: "Pod \<Rightarrow> bool" where
  "unscheduled p \<longleftrightarrow> live p \<and> pod_Phase p = PodPending \<and> ps_NodeName (pod_Spec p) = [] \<and>
     has_condition PodScheduled
       (\<lambda>c. pc_Reason c = PodReasonUnschedulable \<and> pc_Status c = ConditionFalse) p"

lemma phases_distinct [simp]: "PodRunning \<noteq> PodPending" "PodPending \<noteq> PodRunning"
  by (simp_all add: PodRunning_def PodPending_def)

lemma cond_status_true:
  "cond_StatusOf (GetPodConditionTypeMap cs) t = ConditionTrue \<longleftrightarrow>
     (case find (\<lambda>c. pc_Type c = t) cs of None \<Rightarrow> False | Some c \<Rightarrow> pc_Status c = ConditionTrue)"
  by (simp add: cond_StatusOf_def condition_map ConditionTrue_def split: option.split)

interpretation reserved_count: pod_counter countReserved_loop occupies
  by unfold_locales
    (auto simp: occupies_def live_def has_condition_def cond_status_true split: option.splits)

text \<open>\<open>metav1.Time.IsZero\<close> on a pointer: nil, or the zero time, which the API server never sets.\<close>

definition time_laws :: "('w, 'x) base_env_scheme \<Rightarrow> bool" where
  "time_laws E \<longleftrightarrow> (\<forall>t. Time_IsZero E t \<longleftrightarrow> t = None)"

text \<open>Without that law: a Pod whose deletion time reads as zero counts as live.\<close>

definition unscheduled_at :: "('w, 'x) mach_env_scheme \<Rightarrow> Pod \<Rightarrow> bool" where
  "unscheduled_at E p \<longleftrightarrow> Time_IsZero E (DeletionTimestamp (pod_Meta p)) \<and> pod_Phase p = PodPending \<and>
     ps_NodeName (pod_Spec p) = [] \<and>
     has_condition PodScheduled
       (\<lambda>c. pc_Reason c = PodReasonUnschedulable \<and> pc_Status c = ConditionFalse) p"

definition occupies_at :: "('w, 'x) mach_env_scheme \<Rightarrow> Pod \<Rightarrow> bool" where
  "occupies_at E p \<longleftrightarrow> Time_IsZero E (DeletionTimestamp (pod_Meta p)) \<and>
     (pod_Phase p = PodRunning \<and> has_condition ContainersReady (\<lambda>c. pc_Status c = ConditionTrue) p \<or>
      pod_Phase p = PodPending \<and> ps_NodeName (pod_Spec p) \<noteq> [])"

lemma at_time_laws:
  assumes "time_laws E"
  shows "unscheduled_at E = unscheduled" "occupies_at E = occupies"
  using assms
  by (auto simp: fun_eq_iff unscheduled_at_def unscheduled_def occupies_at_def occupies_def
      live_def time_laws_def)

interpretation unscheduled_count: pod_counter "getUnscheduledPodNum_loop E" "unscheduled_at E" for E
  by unfold_locales
    (auto simp: unscheduled_at_def has_condition_def condition_map split: option.splits)

text \<open>The guest counters: one fold over the Pods, two counters.\<close>

fun count_used :: "('w, 'x) mach_env_scheme \<Rightarrow> int32 \<Rightarrow> Pod list \<Rightarrow> int32" where
  "count_used E n [] = n"
| "count_used E n (p # ps) = count_used E (fst (countGuest E p (n, 0))) ps"

fun count_waiting :: "('w, 'x) mach_env_scheme \<Rightarrow> int32 \<Rightarrow> Pod list \<Rightarrow> int32" where
  "count_waiting E n [] = n"
| "count_waiting E n (p # ps) = count_waiting E (snd (countGuest E p (0, n))) ps"

lemma countGuest_eq:
  "countGuest E p (u, v) =
     (if occupies_at E p then u + 1 else u, if unscheduled_at E p then v + 1 else v)"
  by (auto simp: countGuest_def occupies_at_def unscheduled_at_def has_condition_def condition_map
      cond_status_true split: option.splits)

interpretation used_count: pod_counter "count_used E" "occupies_at E" for E
  by unfold_locales (simp_all add: countGuest_eq)

interpretation waiting_count: pod_counter "count_waiting E" "unscheduled_at E" for E
  by unfold_locales (simp_all add: countGuest_eq)

lemma occupies_unscheduled: "\<not> (occupies p \<and> unscheduled p)"
  by (auto simp: occupies_def unscheduled_def)

subsection \<open>The replica count\<close>

definition usage_sum :: "UsageCondition \<Rightarrow> int32 \<Rightarrow> int" where
  "usage_sum u n = sint (Used u) + sint (Waiting u) + sint n"

text \<open>The counters of a status and of a Pod list are not negative and do not overflow.\<close>

definition usage_ok :: "UsageCondition \<Rightarrow> int32 \<Rightarrow> bool" where
  "usage_ok u n \<longleftrightarrow> 0 \<le> sint (Maximum u) \<and> 0 \<le> sint (Used u) \<and> 0 \<le> sint (Waiting u) \<and>
     0 \<le> sint n \<and> usage_sum u n < 2 ^ 31"

lemma stsReplica_nonneg: "0 \<le> sint (stsReplica u n)"
  by (auto simp: stsReplica_def lt0_def Let_def)

lemma stsReplica_exact:
  assumes "usage_ok u n"
  shows "sint (stsReplica u n) = max 0 (sint (Maximum u) - usage_sum u n)"
proof -
  have uw: "sint (Used u + Waiting u) = sint (Used u) + sint (Waiting u)"
    by (rule sint_add_small) (use assms in \<open>simp_all add: usage_ok_def usage_sum_def\<close>)
  have s: "sint (Used u + Waiting u + n) = usage_sum u n"
    by (subst sint_add_small) (use assms uw in \<open>simp_all add: usage_ok_def usage_sum_def\<close>)
  have "sint (Maximum u - (Used u + Waiting u + n)) = sint (Maximum u) - usage_sum u n"
    by (subst sint_diff_small)
      (use assms s sint_range32 [of "Maximum u"] in \<open>simp_all add: usage_ok_def usage_sum_def\<close>)
  then show ?thesis by (auto simp: stsReplica_def lt0_def Let_def)
qed

subsection \<open>Edits given to CreateOrUpdate\<close>

text \<open>
  The contract of the functions given to \<open>CreateOrUpdate\<close>: editing an edited object changes
  nothing, also with other owner references, and the object keeps its name. From it follows
  that a second reconciliation finds the object as it wants it.
\<close>

definition own_edited ::
    "('o \<Rightarrow> 'o) \<Rightarrow> ('o \<Rightarrow> ObjectMeta) \<Rightarrow> (ObjectMeta \<Rightarrow> 'o \<Rightarrow> 'o) \<Rightarrow>
     (ObjectMeta \<Rightarrow> goerr + ObjectMeta) \<Rightarrow> 'o \<Rightarrow> goerr + 'o" where
  "own_edited edit meta set_meta set_owner x =
     (case set_owner (meta (edit x)) of Inl e \<Rightarrow> Inl e | Inr m \<Rightarrow> Inr (set_meta m (edit x)))"

locale object_edit =
  fixes edit :: "'o \<Rightarrow> 'o"
    and meta :: "'o \<Rightarrow> ObjectMeta"
    and set_meta :: "ObjectMeta \<Rightarrow> 'o \<Rightarrow> 'o"
  assumes meta_set: "meta (set_meta m x) = m"
    and set_set: "set_meta m (set_meta m' x) = set_meta m x"
    and edit_again: "edit (set_meta ((meta (edit x))\<lparr>OwnerReferences := refs\<rparr>) (edit x)) =
      set_meta ((meta (edit x))\<lparr>OwnerReferences := refs\<rparr>) (edit x)"
    and edit_key: "ObjectKeyFromMeta (meta (edit x)) = ObjectKeyFromMeta (meta x)"
begin

lemma own_edited_cases:
  assumes "owner_laws set_owner" and "own_edited edit meta set_meta set_owner x = Inr y"
  obtains refs where "y = set_meta ((meta (edit x))\<lparr>OwnerReferences := refs\<rparr>) (edit x)"
    and "set_owner (meta y) = Inr (meta y)"
proof -
  from assms(2) obtain m where m: "set_owner (meta (edit x)) = Inr m" "y = set_meta m (edit x)"
    by (auto simp: own_edited_def split: sum.splits)
  from owner_lawsE [OF assms(1) m(1)] that m(2) show thesis by (metis meta_set)
qed

text \<open>The result is a fixed point of the edit, and of the whole function.\<close>

lemma own_edited_fixed:
  assumes "owner_laws set_owner" and "own_edited edit meta set_meta set_owner x = Inr y"
  shows "edit y = y"
  using own_edited_cases [OF assms] edit_again by metis

lemma own_edited_again:
  assumes "owner_laws set_owner" and "own_edited edit meta set_meta set_owner x = Inr y"
  shows "own_edited edit meta set_meta set_owner y = Inr y"
proof -
  obtain refs where y: "y = set_meta ((meta (edit x))\<lparr>OwnerReferences := refs\<rparr>) (edit x)"
    and own: "set_owner (meta y) = Inr (meta y)"
    by (rule own_edited_cases [OF assms])
  have "set_meta (meta y) y = y" by (simp add: y meta_set set_set)
  with own own_edited_fixed [OF assms] show ?thesis by (simp add: own_edited_def)
qed

lemma own_edited_key:
  assumes "owner_laws set_owner" and "own_edited edit meta set_meta set_owner x = Inr y"
  shows "ObjectKeyFromMeta (meta y) = ObjectKeyFromMeta (meta x)"
proof -
  obtain refs where y: "y = set_meta ((meta (edit x))\<lparr>OwnerReferences := refs\<rparr>) (edit x)"
    by (rule own_edited_cases [OF assms])
  have "ObjectKeyFromMeta (meta y) = ObjectKeyFromMeta (meta (edit x))"
    by (simp add: y meta_set ObjectKeyFromMeta_def)
  then show ?thesis by (simp add: edit_key)
qed

text \<open>
  \<open>CreateOrUpdate\<close> on a stored object that an earlier call left: nothing changes and the
  operation result says so.
\<close>

lemma upsert_again:
  assumes api: "create_or_update_api key cou store" and law: "owner_laws set_owner"
    and stored: "store w (key obj) = Some y" "own_edited edit meta set_meta set_owner x = Inr y"
    and run: "cou obj (\<lambda>z w. (own_edited edit meta set_meta set_owner z, w)) w = (Inr res, w')"
  shows "res = OperationResultNone \<and> store w' = store w"
proof -
  from create_or_updateE [OF api run] obtain obj' w1
    where "(own_edited edit meta set_meta set_owner y, w) = (Inr obj', w1)"
      and w': "store w' = (store w1)(key obj \<mapsto> obj')"
      and res: "res = OperationResultNone \<longleftrightarrow> store w (key obj) = Some obj'"
    unfolding stored(1) option.case(2) by metis
  with own_edited_again [OF law stored(2)] have "obj' = y" "w1 = w" by simp_all
  with w' res stored(1) show ?thesis by (simp add: fun_upd_idem)
qed

end

lemma stockMap: "poolMachineTypeStockMap_loop m stock t \<longleftrightarrow> m t \<or> t \<in> stock_Name ` set stock"
  by (induction stock arbitrary: m) auto

lemma appendStock_eq:
  "appendStock_loop m stock mts =
     stock @ map (\<lambda>mt. \<lparr>stock_Name = mt_Name mt\<rparr>) (filter (\<lambda>mt. \<not> m (mt_Name mt)) mts)"
  by (induction mts arbitrary: stock) simp_all

lemma edit_pool_stock:
  "mnp_MachineTypeStock (p_Spec (edit_pool machine grp pool)) =
     mnp_MachineTypeStock (p_Spec pool) @ map (\<lambda>mt. \<lparr>stock_Name = mt_Name mt\<rparr>)
       (filter (\<lambda>mt. mt_Name mt \<notin> stock_Name ` set (mnp_MachineTypeStock (p_Spec pool)))
         (ms_MachineTypes (m_Spec machine)))"
  by (simp add: edit_pool_def Let_def appendStock_eq stockMap)

lemma edit_pool_covers:
  "mt \<in> set (ms_MachineTypes (m_Spec machine)) \<Longrightarrow>
   mt_Name mt \<in> stock_Name ` set (mnp_MachineTypeStock (p_Spec (edit_pool machine grp pool)))"
  unfolding edit_pool_stock set_append image_Un set_map image_image by auto

lemma edit_pool_sel:
  "group_name = grp \<Longrightarrow> mnp_MachineGroupName (p_Spec (edit_pool machine grp pool)) = group_name"
  "mnp_NodePool (p_Spec (edit_pool machine grp pool)) = ms_NodePool (m_Spec machine)"
  "p_Status (edit_pool machine grp pool) = p_Status pool"
  "Labels (p_Meta (edit_pool machine grp pool)) =
     (if Labels (p_Meta pool) MachineGroupKey = None
      then (Labels (p_Meta pool))(MachineGroupKey \<mapsto> grp) else Labels (p_Meta pool))"
  by (simp_all add: edit_pool_def Let_def)

interpretation pool_edit: object_edit "edit_pool machine grp" p_Meta "\<lambda>m p. p\<lparr>p_Meta := m\<rparr>"
  for machine grp
proof
  fix pool :: MachineNodePool and refs
  let ?p = "edit_pool machine grp pool"
  let ?q = "?p\<lparr>p_Meta := (p_Meta ?p)\<lparr>OwnerReferences := refs\<rparr>\<rparr>"
  have "filter (\<lambda>mt. mt_Name mt \<notin> stock_Name ` set (mnp_MachineTypeStock (p_Spec ?q)))
      (ms_MachineTypes (m_Spec machine)) = []"
    using edit_pool_covers by (simp add: filter_empty_conv)
  then have "mnp_MachineTypeStock (p_Spec (edit_pool machine grp ?q)) = mnp_MachineTypeStock (p_Spec ?q)"
    by (simp add: edit_pool_stock)
  moreover have "Labels (p_Meta ?q) MachineGroupKey \<noteq> None"
    by (simp add: edit_pool_sel(4))
  ultimately show "edit_pool machine grp ?q = ?q"
    by (intro MachineNodePool.equality ObjectMeta.equality MachineNodePoolSpec.equality)
      (simp_all add: edit_pool_def Let_def)
qed (simp_all add: edit_pool_def Let_def ObjectKeyFromMeta_def)

interpretation sts_edit: object_edit "GenerateStatefulSet mt grp n" sts_Meta "\<lambda>m s. s\<lparr>sts_Meta := m\<rparr>"
  for mt grp n
  by unfold_locales (simp_all add: GenerateStatefulSet_def Let_def ObjectKeyFromMeta_def)

interpretation svc_edit: object_edit "GenerateService t grp" svc_Meta "\<lambda>m s. s\<lparr>svc_Meta := m\<rparr>"
  for t grp
  by unfold_locales (simp_all add: GenerateService_def Let_def ObjectKeyFromMeta_def)

lemma mutate_pool_own:
  "mutate_pool E machine grp =
     own_edited (edit_pool machine grp) p_Meta (\<lambda>m p. p\<lparr>p_Meta := m\<rparr>) (SetControllerReference E machine)"
  by (simp add: fun_eq_iff mutate_pool_def own_edited_def Let_def)

lemma mutate_svc_own:
  "mutate_svc E machine grp t =
     own_edited (GenerateService t grp) svc_Meta (\<lambda>m s. s\<lparr>svc_Meta := m\<rparr>) (SetControllerReference E machine)"
  by (simp add: fun_eq_iff mutate_svc_def own_edited_def Let_def)

end
