(* ===== verification/MachineStages.thy ===== *)
theory MachineStages
  imports MachineProofs
begin

text \<open>
  The stages of the Machine controller against an API server: what a successful run stores for
  the MachineNodePool, the StatefulSets and the Services, and what it leaves alone.
\<close>

subsection \<open>Names and maps of the stages\<close>

lemma reservation_name_inj [simp]:
  "GenerateReservationResourceName g t = GenerateReservationResourceName g t' \<longleftrightarrow> t = t'"
  by (simp add: GenerateReservationResourceName_def)

lemma nodePoolTypes: "nodePoolTypes_inner m ts t \<longleftrightarrow> m t \<or> t \<in> npmt_Name ` set ts"
  by (induction ts arbitrary: m) auto

lemma nodePoolMachineTypeMap:
  "nodePoolMachineTypeMap_loop m nps t \<longleftrightarrow> m t \<or> (\<exists>np \<in> set nps. t \<in> npmt_Name ` set (np_MachineType np))"
  by (induction nps arbitrary: m) (auto simp: nodePoolTypes)

definition in_node_pool :: "Machine \<Rightarrow> string \<Rightarrow> bool" where
  "in_node_pool machine t \<longleftrightarrow>
     (\<exists>np \<in> set (ms_NodePool (m_Spec machine)). t \<in> npmt_Name ` set (np_MachineType np))"

abbreviation avail :: "Machine \<Rightarrow> AvailableMachineCondition list" where
  "avail m \<equiv> mst_AvailableMachines (m_Status m)"

abbreviation machine_group :: "Machine \<Rightarrow> string" where
  "machine_group m \<equiv> GetMachineGroup (Labels (m_Meta m))"

definition reservation_key :: "('w, 'x) mach_env_scheme \<Rightarrow> string \<Rightarrow> string \<Rightarrow> ObjectKey" where
  "reservation_key E grp t =
     (ImperatorCoreNamespace (os_environ E), GenerateReservationResourceName grp t)"

text \<open>The reservation Pods of a machine type, and how many of them no Node has room for.\<close>

definition reservation_pods :: "('w, 'x) mach_env_scheme \<Rightarrow> string \<Rightarrow> string \<Rightarrow> Pod list \<Rightarrow> Pod list" where
  "reservation_pods E grp t =
     filter (\<lambda>p. (ImperatorCoreNamespace (os_environ E) = [] \<or>
                  Namespace (pod_Meta p) = ImperatorCoreNamespace (os_environ E)) \<and>
                 selects (GenerateReservationResourceLabel grp t) (Labels (pod_Meta p)))"

definition unscheduled_num :: "('w, 'x) mach_env_scheme \<Rightarrow> string \<Rightarrow> string \<Rightarrow> Pod list \<Rightarrow> int32" where
  "unscheduled_num E grp t ps = of_nat (length (filter (unscheduled_at E) (reservation_pods E grp t ps)))"

lemma getUnscheduledPodNum_exact:
  assumes "pod_list_api E pods"
    and "getUnscheduledPodNum E (GenerateReservationResourceLabel grp t)
      (ImperatorCoreNamespace (os_environ E)) w = (Inr n, w')"
  shows "n = unscheduled_num E grp t (pods w)" and "pods w' = pods w"
proof -
  let ?r = "List_Pods E (ImperatorCoreNamespace (os_environ E)) (GenerateReservationResourceLabel grp t) w"
  from assms(2) obtain ps where ps: "fst ?r = Inr ps" "w' = snd ?r"
    and n: "n = (if ps = [] then 0 else getUnscheduledPodNum_loop E 0 ps)"
    by (auto simp: getUnscheduledPodNum_def split: prod.splits sum.splits if_splits)
  have "ps = reservation_pods E grp t (pods w)"
    using assms(1) ps(1) by (auto simp: pod_list_api_def reservation_pods_def)
  with n show "n = unscheduled_num E grp t (pods w)"
    by (auto simp: unscheduled_num_def unscheduled_count.count_exact)
  show "pods w' = pods w" using assms(1) ps(2) by (simp add: pod_list_api_def preserves_def)
qed

subsection \<open>The status update after a stage\<close>

lemma machine_setCondition_sel [simp]:
  "m_Spec (machine_setCondition E s r msg now m) = m_Spec m"
  "avail (machine_setCondition E s r msg now m) = avail m"
  "m_Meta (machine_setCondition E s r msg now m) = m_Meta m"
  by (simp_all add: machine_setCondition_def)

lemma conditions_frame:
  assumes "machine_status_laws E" and "preserves view (metav1_Now E)"
    and "\<And>m. preserves view (StatusUpdate_Machine E m)"
    and "updateReconcileConditions E r m w = (Ret (Inr m'), w')"
  shows "m_Spec m' = m_Spec m" "avail m' = avail m" "Labels (m_Meta m') = Labels (m_Meta m)"
    "view w' = view w"
proof -
  have upd: "m_Spec m' = m_Spec m \<and> avail m' = avail m \<and> Labels (m_Meta m') = Labels (m_Meta m) \<and>
      view w' = view w"
    if "updateReconcileSuccessStatus E m w = (Ret (Inr m'), w')"
  proof -
    let ?t = "metav1_Now E w"
    let ?m = "machine_setCondition E ConditionTrue StatusSuccess ''update status conditions'' (fst ?t) m"
    let ?u = "StatusUpdate_Machine E ?m (snd ?t)"
    from that have u: "?u = (Inr m', w')"
      by (cases ?u) (auto simp: updateReconcileSuccessStatus_def act_simps Let_def with_machine_def
          split: sum.splits)
    have "view (snd ?u) = view w" using assms(2,3) by (simp add: preservesD)
    then show ?thesis using u assms(1) unfolding machine_status_laws_def by fastforce
  qed
  show "m_Spec m' = m_Spec m" "avail m' = avail m" "Labels (m_Meta m') = Labels (m_Meta m)"
    "view w' = view w"
    using upd assms(4) by (auto simp: updateReconcileConditions_def act_simps split: if_splits)
qed

text \<open>The common shape of a stage: \<open>CreateOrUpdate\<close>, then the conditions.\<close>

lemma upsert_stage:
  assumes "atry (abind (acall call) (\<lambda>r. aret (with_machine wrap m r)))
      (\<lambda>res. updateReconcileConditions E res m) w = (Ret (Inr m'), w')"
  obtains res w1 where "call w = (Inr res, w1)"
    and "updateReconcileConditions E res m w1 = (Ret (Inr m'), w')"
  using assms
  by (cases "call w") (auto simp: act_simps with_machine_def split: sum.splits)

lemma upsert_conditions:
  assumes api: "create_or_update_api key cou store" and laws: "machine_status_laws E"
    and view: "preserves store (metav1_Now E)" "\<And>m. preserves store (StatusUpdate_Machine E m)"
    and run: "atry (abind (acall (cou obj f)) (\<lambda>r. aret (with_machine wrap m r)))
      (\<lambda>res. updateReconcileConditions E res m) w = (Ret (Inr m'), w')"
  obtains obj' w1 where
    "f (case store w (key obj) of None \<Rightarrow> obj | Some stored \<Rightarrow> stored) w = (Inr obj', w1)"
    "store w' = (store w1)(key obj \<mapsto> obj')"
    "m_Spec m' = m_Spec m" "avail m' = avail m" "Labels (m_Meta m') = Labels (m_Meta m)"
proof -
  obtain res w1 where 1: "cou obj f w = (Inr res, w1)"
    "updateReconcileConditions E res m w1 = (Ret (Inr m'), w')"
    by (rule upsert_stage [OF run])
  obtain obj' w2 where 2: "f (case store w (key obj) of None \<Rightarrow> obj | Some stored \<Rightarrow> stored) w = (Inr obj', w2)"
      "store w1 = (store w2)(key obj \<mapsto> obj')"
    by (rule create_or_updateE [OF api 1(1)])
  note frame = conditions_frame [OF laws view 1(2)]
  from 2 frame show thesis by (intro that [of obj' w2]) simp_all
qed

subsection \<open>The MachineNodePool stage\<close>

abbreviation pool_key :: "MachineNodePool \<Rightarrow> ObjectKey" where
  "pool_key p \<equiv> ObjectKeyFromMeta (p_Meta p)"

definition group_pool_key :: "string \<Rightarrow> ObjectKey" where
  "group_pool_key grp = ([], GenerateMachineNodePoolName grp)"

definition pool_stage_laws :: "('w, 'x) mach_env_scheme \<Rightarrow> ('w \<Rightarrow> ObjectKey \<rightharpoonup> MachineNodePool) \<Rightarrow> bool" where
  "pool_stage_laws E pools \<longleftrightarrow>
     create_or_update_api pool_key (CreateOrUpdate_Pool E) pools \<and>
     (\<forall>m. owner_laws (SetControllerReference E m)) \<and> machine_status_laws E \<and>
     preserves pools (metav1_Now E) \<and> (\<forall>m. preserves pools (StatusUpdate_Machine E m))"

lemma new_pool_key [simp]: "pool_key (new_pool name) = ([], name)"
  by (simp add: new_pool_def named_meta_def zero_meta_def ObjectKeyFromMeta_def)

lemma pool_stage:
  assumes laws: "pool_stage_laws E pools"
    and run: "reconcileMachineNodePool E m w = (Ret (Inr m'), w')"
  obtains old p where "old = (case pools w (group_pool_key (machine_group m)) of
        None \<Rightarrow> new_pool (GenerateMachineNodePoolName (machine_group m)) | Some stored \<Rightarrow> stored)"
    and "pools w' = (pools w)(group_pool_key (machine_group m) \<mapsto> p)"
    and "own_edited (edit_pool m (machine_group m)) p_Meta (\<lambda>m p. p\<lparr>p_Meta := m\<rparr>)
      (SetControllerReference E m) old = Inr p"
    and "m_Spec m' = m_Spec m" "avail m' = avail m" "Labels (m_Meta m') = Labels (m_Meta m)"
proof -
  let ?g = "machine_group m"
  let ?obj = "new_pool (GenerateMachineNodePoolName ?g)"
  have key: "pool_key ?obj = group_pool_key ?g" by (simp add: group_pool_key_def)
  obtain obj' w1 where
    1: "(\<lambda>p w. (mutate_pool E m ?g p, w))
      (case pools w (pool_key ?obj) of None \<Rightarrow> ?obj | Some stored \<Rightarrow> stored) w = (Inr obj', w1)"
      "pools w' = (pools w1)(pool_key ?obj \<mapsto> obj')"
      "m_Spec m' = m_Spec m" "avail m' = avail m" "Labels (m_Meta m') = Labels (m_Meta m)"
    by (rule upsert_conditions [where cou = "CreateOrUpdate_Pool E" and key = pool_key and store = pools
          and obj = ?obj and f = "\<lambda>p w. (mutate_pool E m ?g p, w)", OF _ _ _ _ run [unfolded reconcileMachineNodePool_def Let_def]])
      (use laws in \<open>simp_all add: pool_stage_laws_def\<close>)
  from 1(1) have "mutate_pool E m ?g
      (case pools w (group_pool_key ?g) of None \<Rightarrow> ?obj | Some stored \<Rightarrow> stored) = Inr obj' \<and> w = w1"
    unfolding key prod.inject .
  then have edit: "mutate_pool E m ?g
      (case pools w (group_pool_key ?g) of None \<Rightarrow> ?obj | Some stored \<Rightarrow> stored) = Inr obj'" and "w1 = w"
    by blast+
  show thesis
    by (rule that [OF refl _ edit [unfolded mutate_pool_own] 1(3-5)])
      (simp add: 1(2) \<open>w1 = w\<close> group_pool_key_def)
qed

lemma pool_stage_again:
  assumes laws: "pool_stage_laws E pools"
    and run: "reconcileMachineNodePool E m w = (Ret (Inr m1), w1)"
    and same: "pools w2 = pools w1"
    and run2: "reconcileMachineNodePool E m w2 = (Ret (Inr m2), w3)"
  shows "m2 = m \<and> pools w3 = pools w2"
proof -
  let ?g = "machine_group m"
  let ?obj = "new_pool (GenerateMachineNodePoolName ?g)"
  let ?f = "\<lambda>p w. (own_edited (edit_pool m ?g) p_Meta (\<lambda>m p. p\<lparr>p_Meta := m\<rparr>) (SetControllerReference E m) p, w)"
  have key: "pool_key ?obj = group_pool_key ?g" by (simp add: group_pool_key_def)
  have law: "owner_laws (SetControllerReference E m)" using laws by (simp add: pool_stage_laws_def)
  obtain old p where p: "pools w1 = (pools w)(group_pool_key ?g \<mapsto> p)"
      "own_edited (edit_pool m ?g) p_Meta (\<lambda>m p. p\<lparr>p_Meta := m\<rparr>) (SetControllerReference E m) old = Inr p"
    by (rule pool_stage [OF laws run])
  have again: "own_edited (edit_pool m ?g) p_Meta (\<lambda>m p. p\<lparr>p_Meta := m\<rparr>) (SetControllerReference E m) p = Inr p"
    by (rule pool_edit.own_edited_again [OF law p(2)])
  obtain res w2' where u: "CreateOrUpdate_Pool E ?obj ?f w2 = (Inr res, w2')"
    "updateReconcileConditions E res m w2' = (Ret (Inr m2), w3)"
    by (rule upsert_stage [OF run2 [unfolded reconcileMachineNodePool_def Let_def mutate_pool_own]])
  have "res = OperationResultNone \<and> pools w2' = pools w2"
    by (rule pool_edit.upsert_again [where cou = "CreateOrUpdate_Pool E" and key = pool_key and obj = ?obj and y = p, OF _ law _ again u(1)])
      (use laws p same key in \<open>simp_all add: pool_stage_laws_def\<close>)
  with u(2) show ?thesis by (simp add: updateReconcileConditions_def act_simps)
qed

subsection \<open>The StatefulSet stage\<close>

abbreviation sts_key :: "StatefulSet \<Rightarrow> ObjectKey" where
  "sts_key s \<equiv> ObjectKeyFromMeta (sts_Meta s)"

definition sts_stage_laws ::
    "('w, 'x) mach_env_scheme \<Rightarrow> ('w \<Rightarrow> ObjectKey \<rightharpoonup> StatefulSet) \<Rightarrow> ('w \<Rightarrow> Pod list) \<Rightarrow> bool" where
  "sts_stage_laws E stss pods \<longleftrightarrow>
     create_or_update_api sts_key (CreateOrUpdate_Sts E) stss \<and>
     (\<forall>m. owner_laws (SetControllerReference E m)) \<and> machine_status_laws E \<and>
     pod_list_api E pods \<and> (\<forall>ns sel. preserves stss (List_Pods E ns sel)) \<and>
     preserves stss (metav1_Now E) \<and> (\<forall>m. preserves stss (StatusUpdate_Machine E m)) \<and>
     preserves pods (metav1_Now E) \<and> (\<forall>m. preserves pods (StatusUpdate_Machine E m)) \<and>
     (\<forall>obj f. (\<forall>x. preserves pods (f x)) \<longrightarrow> preserves pods (CreateOrUpdate_Sts E obj f))"

lemma new_sts_key [simp]: "sts_key (new_sts ns name) = (ns, name)"
  by (simp add: new_sts_def named_meta_def zero_meta_def ObjectKeyFromMeta_def)

lemma mutate_sts_own:
  assumes "pod_list_api E pods" and "mutate_sts E m grp mt u x w = (Inr y, w1)"
  shows "own_edited (GenerateStatefulSet mt grp (stsReplica u (unscheduled_num E grp (mt_Name mt) (pods w)))) sts_Meta
    (\<lambda>m s. s\<lparr>sts_Meta := m\<rparr>) (SetControllerReference E m) x = Inr y"
proof -
  obtain n where n: "getUnscheduledPodNum E (GenerateReservationResourceLabel grp (mt_Name mt))
      (ImperatorCoreNamespace (os_environ E)) w = (Inr n, w1)"
    and edit: "own_edited (GenerateStatefulSet mt grp (stsReplica u n)) sts_Meta
      (\<lambda>m s. s\<lparr>sts_Meta := m\<rparr>) (SetControllerReference E m) x = Inr y"
    using assms(2) by (auto simp: mutate_sts_def own_edited_def Let_def split: prod.splits sum.splits)
  with getUnscheduledPodNum_exact(1) [OF assms(1) n] show ?thesis by simp
qed

lemma mutate_sts_exact:
  assumes "pod_list_api E pods" and "owner_laws (SetControllerReference E m)"
    and "mutate_sts E m grp mt u s w = (Inr s', w')"
  shows "GenerateStatefulSet mt grp (stsReplica u (unscheduled_num E grp (mt_Name mt) (pods w))) s' = s'"
  by (rule sts_edit.own_edited_fixed [OF assms(2) mutate_sts_own [OF assms(1,3)]])

lemma sts_step:
  assumes laws: "sts_stage_laws E stss pods"
    and run: "reconcileStatefulSet_step E grp types mt m w = (Ret (Inr m'), w')"
  shows "avail m' = avail m" "pods w' = pods w"
    "\<And>u. types (mt_Name mt) \<Longrightarrow> GetMachineTypeUsage (avail m) (mt_Name mt) = Some u \<Longrightarrow>
       \<exists>s. stss w' = (stss w)(reservation_key E grp (mt_Name mt) \<mapsto> s) \<and>
         GenerateStatefulSet mt grp (stsReplica u (unscheduled_num E grp (mt_Name mt) (pods w))) s = s"
    "\<And>k. (types (mt_Name mt) \<longrightarrow> k \<noteq> reservation_key E grp (mt_Name mt)) \<Longrightarrow> stss w' k = stss w k"
proof -
  note laws' = laws [unfolded sts_stage_laws_def]
  let ?skip = "\<not> types (mt_Name mt) \<or> GetMachineTypeUsage (avail m) (mt_Name mt) = None"
  have skip: "m' = m \<and> w' = w" if ?skip
    using run that by (auto simp: reconcileStatefulSet_step_def act_simps split: if_splits)
  have act: "avail m' = avail m \<and> pods w' = pods w \<and>
      (\<exists>s. stss w' = (stss w)(reservation_key E grp (mt_Name mt) \<mapsto> s) \<and>
         GenerateStatefulSet mt grp (stsReplica u (unscheduled_num E grp (mt_Name mt) (pods w))) s = s)"
    if types: "types (mt_Name mt)" and u: "GetMachineTypeUsage (avail m) (mt_Name mt) = Some u" for u
  proof -
    let ?obj = "new_sts (ImperatorCoreNamespace (os_environ E)) (GenerateReservationResourceName grp (mt_Name mt))"
    let ?f = "mutate_sts E m grp mt u"
    from run types u have run': "atry (abind (acall (CreateOrUpdate_Sts E ?obj ?f)) (\<lambda>r. aret
          (with_machine (errorf (''failed to reconcile StatefulSet for machineType, '' @ mt_Name mt)) m r)))
        (\<lambda>res. updateReconcileConditions E res m) w = (Ret (Inr m'), w')"
      by (simp add: reconcileStatefulSet_step_def Let_def)
    have key: "sts_key ?obj = reservation_key E grp (mt_Name mt)" by (simp add: reservation_key_def)
    obtain s w1 where s: "?f (case stss w (sts_key ?obj) of None \<Rightarrow> ?obj | Some stored \<Rightarrow> stored) w = (Inr s, w1)"
        "stss w' = (stss w1)(sts_key ?obj \<mapsto> s)" "avail m' = avail m"
      by (rule upsert_conditions [where cou = "CreateOrUpdate_Sts E" and key = sts_key and store = stss
            and obj = ?obj and f = ?f, OF _ _ _ _ run']) (use laws' in simp_all)
    have "stss w1 = stss w"
      using preservesD [OF mutate_sts_frame, of stss E m grp mt u _ w] s(1) laws' by (metis snd_conv)
    moreover have "GenerateStatefulSet mt grp
        (stsReplica u (unscheduled_num E grp (mt_Name mt) (pods w))) s = s"
      by (rule mutate_sts_exact [OF _ _ s(1)]) (use laws' in simp_all)
    moreover have "pods w' = pods w"
    proof -
      obtain res w2 where c: "CreateOrUpdate_Sts E ?obj ?f w = (Inr res, w2)"
        "updateReconcileConditions E res m w2 = (Ret (Inr m'), w')"
        by (rule upsert_stage [OF run'])
      have "preserves pods (?f x)" for x
        by (rule mutate_sts_frame) (use laws' in \<open>simp add: pod_list_api_def\<close>)
      then have "pods w2 = pods w" using laws' c(1) by (metis preservesD snd_conv)
      moreover have "pods w' = pods w2"
        by (rule conditions_frame(4) [OF _ _ _ c(2)]) (use laws' in simp_all)
      ultimately show ?thesis by simp
    qed
    ultimately show ?thesis using s(2,3) key by auto
  qed
  show "avail m' = avail m" "pods w' = pods w" using skip act by (cases ?skip; fastforce)+
  show "\<exists>s. stss w' = (stss w)(reservation_key E grp (mt_Name mt) \<mapsto> s) \<and>
         GenerateStatefulSet mt grp (stsReplica u (unscheduled_num E grp (mt_Name mt) (pods w))) s = s"
    if "types (mt_Name mt)" "GetMachineTypeUsage (avail m) (mt_Name mt) = Some u" for u
    using act [OF that] by blast
  show "stss w' k = stss w k" if "types (mt_Name mt) \<longrightarrow> k \<noteq> reservation_key E grp (mt_Name mt)" for k
    using skip act that by (cases ?skip; fastforce)
qed

interpretation sts_loop: abort_loop "reconcileStatefulSet_step E grp types"
  "reconcileStatefulSet_loop E grp types" for E grp types
  by unfold_locales simp_all

text \<open>The names of the StatefulSets of the machine types some entry of the node pool offers.\<close>

definition offered_keys :: "('w, 'x) mach_env_scheme \<Rightarrow> Machine \<Rightarrow> ObjectKey set" where
  "offered_keys E m = (\<lambda>mt. reservation_key E (machine_group m) (mt_Name mt)) `
     {mt \<in> set (ms_MachineTypes (m_Spec m)). in_node_pool m (mt_Name mt)}"

lemma sts_stage:
  assumes laws: "sts_stage_laws E stss pods"
    and dist: "distinct (map mt_Name (ms_MachineTypes (m_Spec m)))"
    and run: "reconcileStatefulSet E m w = (Ret (Inr m'), w')"
  shows "\<forall>mt \<in> set (ms_MachineTypes (m_Spec m)). \<forall>u. in_node_pool m (mt_Name mt) \<longrightarrow>
      GetMachineTypeUsage (avail m) (mt_Name mt) = Some u \<longrightarrow>
      (\<exists>s. stss w' (reservation_key E (machine_group m) (mt_Name mt)) = Some s \<and>
        GenerateStatefulSet mt (machine_group m)
          (stsReplica u (unscheduled_num E (machine_group m) (mt_Name mt) (pods w))) s = s)"
    and "\<forall>k. k \<notin> offered_keys E m \<longrightarrow> stss w' k = stss w k"
proof -
  let ?g = "machine_group m"
  let ?ts = "ms_MachineTypes (m_Spec m)"
  let ?key = "\<lambda>mt. reservation_key E ?g (mt_Name mt)"
  let ?types = "nodePoolMachineTypeMap_loop (\<lambda>_. False) (ms_NodePool (m_Spec m))"
  let ?I = "\<lambda>s v. avail s = avail m \<and> pods v = pods w \<and> (\<forall>k. k \<notin> offered_keys E m \<longrightarrow> stss v k = stss w k)"
  let ?Q = "\<lambda>mt v. \<forall>u. in_node_pool m (mt_Name mt) \<longrightarrow> GetMachineTypeUsage (avail m) (mt_Name mt) = Some u \<longrightarrow>
      (\<exists>s. stss v (?key mt) = Some s \<and>
        GenerateStatefulSet mt ?g (stsReplica u (unscheduled_num E ?g (mt_Name mt) (pods w))) s = s)"
  have types: "?types t \<longleftrightarrow> in_node_pool m t" for t
    by (simp add: nodePoolMachineTypeMap in_node_pool_def)
  have "?I m' w' \<and> (\<forall>mt \<in> set ?ts. ?Q mt w')"
  proof (rule sts_loop.loop_establishes [where I = ?I and Q = ?Q, OF _ _ run [unfolded reconcileStatefulSet_def]])
    show "distinct ?ts" using dist by (simp add: distinct_map)
    show "?I m w" by simp
    fix mt s v s' v' assume mt: "mt \<in> set ?ts" and I: "?I s v"
      and step: "reconcileStatefulSet_step E ?g ?types mt s v = (Ret (Inr s'), v')"
    note st = sts_step [OF laws step]
    have Q: "?Q mt v'"
      using st(3) I types by fastforce
    have "stss v' k = stss w k" if "k \<notin> offered_keys E m" for k
    proof -
      have "?types (mt_Name mt) \<longrightarrow> k \<noteq> ?key mt" using that mt types by (auto simp: offered_keys_def)
      moreover have "stss v k = stss w k" using I that by blast
      ultimately show ?thesis using st(4) by simp
    qed
    then have "?I s' v'" using st(1,2) I by simp
    with Q show "?I s' v' \<and> ?Q mt v'" by simp
  next
    fix p q s v s' v' assume "p \<in> set ?ts" "q \<in> set ?ts" "p \<noteq> q" and I: "?I s v" and Q: "?Q p v"
      and step: "reconcileStatefulSet_step E ?g ?types q s v = (Ret (Inr s'), v')"
    then have "?key p \<noteq> ?key q" using dist by (auto simp: reservation_key_def distinct_map dest: inj_onD)
    then show "?Q p v'" using sts_step(4) [OF laws step] Q by simp
  qed
  then show "\<forall>mt \<in> set ?ts. ?Q mt w'" "\<forall>k. k \<notin> offered_keys E m \<longrightarrow> stss w' k = stss w k" by blast+
qed

subsection \<open>The Service stage\<close>

abbreviation svc_key :: "Service \<Rightarrow> ObjectKey" where
  "svc_key s \<equiv> ObjectKeyFromMeta (svc_Meta s)"

definition svc_stage_laws :: "('w, 'x) mach_env_scheme \<Rightarrow> ('w \<Rightarrow> ObjectKey \<rightharpoonup> Service) \<Rightarrow> bool" where
  "svc_stage_laws E svcs \<longleftrightarrow>
     create_or_update_api svc_key (CreateOrUpdate_Svc E) svcs \<and>
     (\<forall>m. owner_laws (SetControllerReference E m)) \<and> machine_status_laws E \<and>
     preserves svcs (metav1_Now E) \<and> (\<forall>m. preserves svcs (StatusUpdate_Machine E m))"

lemma new_svc_key [simp]: "svc_key (new_svc ns name) = (ns, name)"
  by (simp add: new_svc_def named_meta_def zero_meta_def ObjectKeyFromMeta_def)

lemma svc_step:
  assumes laws: "svc_stage_laws E svcs"
    and run: "reconcileService_step E grp mt m w = (Ret (Inr m'), w')"
  shows "avail m' = avail m"
    "GetMachineTypeUsage (avail m) (mt_Name mt) \<noteq> None \<Longrightarrow>
       \<exists>s. svcs w' = (svcs w)(reservation_key E grp (mt_Name mt) \<mapsto> s) \<and>
         GenerateService (mt_Name mt) grp s = s"
    "GetMachineTypeUsage (avail m) (mt_Name mt) = None \<Longrightarrow> svcs w' = svcs w"
proof -
  note laws' = laws [unfolded svc_stage_laws_def]
  have act: "avail m' = avail m \<and> (\<exists>s. svcs w' = (svcs w)(reservation_key E grp (mt_Name mt) \<mapsto> s) \<and>
         GenerateService (mt_Name mt) grp s = s)"
    if u: "GetMachineTypeUsage (avail m) (mt_Name mt) = Some u" for u
  proof -
    let ?obj = "new_svc (ImperatorCoreNamespace (os_environ E)) (GenerateReservationResourceName grp (mt_Name mt))"
    let ?f = "\<lambda>s w. (mutate_svc E m grp (mt_Name mt) s, w)"
    from run u have run': "atry (abind (acall (CreateOrUpdate_Svc E ?obj ?f)) (\<lambda>r. aret
          (with_machine (errorf (''failed to reconcile Service for machineType, '' @ mt_Name mt)) m r)))
        (\<lambda>res. updateReconcileConditions E res m) w = (Ret (Inr m'), w')"
      by (simp add: reconcileService_step_def Let_def)
    have key: "svc_key ?obj = reservation_key E grp (mt_Name mt)" by (simp add: reservation_key_def)
    obtain s w1 where s: "?f (case svcs w (svc_key ?obj) of None \<Rightarrow> ?obj | Some stored \<Rightarrow> stored) w = (Inr s, w1)"
        "svcs w' = (svcs w1)(svc_key ?obj \<mapsto> s)" "avail m' = avail m"
      by (rule upsert_conditions [where cou = "CreateOrUpdate_Svc E" and key = svc_key and store = svcs
            and obj = ?obj and f = ?f, OF _ _ _ _ run']) (use laws' in simp_all)
    have edit: "own_edited (GenerateService (mt_Name mt) grp) svc_Meta (\<lambda>m s. s\<lparr>svc_Meta := m\<rparr>)
        (SetControllerReference E m)
        (case svcs w (svc_key ?obj) of None \<Rightarrow> ?obj | Some stored \<Rightarrow> stored) = Inr s" and "w1 = w"
      using s(1) unfolding prod.inject mutate_svc_own by blast+
    have "GenerateService (mt_Name mt) grp s = s"
      by (rule svc_edit.own_edited_fixed [OF _ edit]) (use laws' in simp)
    then show ?thesis using s(2,3) key \<open>w1 = w\<close> by auto
  qed
  have skip: "m' = m \<and> w' = w" if "GetMachineTypeUsage (avail m) (mt_Name mt) = None"
    using run that by (auto simp: reconcileService_step_def act_simps)
  show "avail m' = avail m"
    using skip act by (cases "GetMachineTypeUsage (avail m) (mt_Name mt)") auto
  show "\<exists>s. svcs w' = (svcs w)(reservation_key E grp (mt_Name mt) \<mapsto> s) \<and> GenerateService (mt_Name mt) grp s = s"
    if "GetMachineTypeUsage (avail m) (mt_Name mt) \<noteq> None"
    using act that by auto
  show "svcs w' = svcs w" if "GetMachineTypeUsage (avail m) (mt_Name mt) = None"
    using skip that by simp
qed

interpretation svc_loop: abort_loop "reconcileService_step E grp" "reconcileService_loop E grp" for E grp
  by unfold_locales simp_all

lemma svc_stage:
  assumes laws: "svc_stage_laws E svcs"
    and dist: "distinct (map mt_Name (ms_MachineTypes (m_Spec m)))"
    and run: "reconcileService E m w = (Ret (Inr m'), w')"
  shows "\<forall>mt \<in> set (ms_MachineTypes (m_Spec m)). GetMachineTypeUsage (avail m) (mt_Name mt) \<noteq> None \<longrightarrow>
      (\<exists>s. svcs w' (reservation_key E (machine_group m) (mt_Name mt)) = Some s \<and>
        GenerateService (mt_Name mt) (machine_group m) s = s)"
proof -
  let ?g = "machine_group m"
  let ?ts = "ms_MachineTypes (m_Spec m)"
  let ?Q = "\<lambda>mt v. GetMachineTypeUsage (avail m) (mt_Name mt) \<noteq> None \<longrightarrow>
      (\<exists>s. svcs v (reservation_key E ?g (mt_Name mt)) = Some s \<and> GenerateService (mt_Name mt) ?g s = s)"
  have "avail m' = avail m \<and> (\<forall>mt \<in> set ?ts. ?Q mt w')"
  proof (rule svc_loop.loop_establishes [where I = "\<lambda>s v. avail s = avail m" and Q = ?Q,
        OF _ _ run [unfolded reconcileService_def]])
    show "distinct ?ts" using dist by (simp add: distinct_map)
    show "avail m = avail m" by simp
    fix mt s v s' v' assume I: "avail s = avail m"
      and step: "reconcileService_step E ?g mt s v = (Ret (Inr s'), v')"
    show "avail s' = avail m \<and> ?Q mt v'"
      using svc_step(1,2) [OF laws step] I by fastforce
  next
    fix p q s v s' v' assume "p \<in> set ?ts" "q \<in> set ?ts" "p \<noteq> q" and I: "avail s = avail m" and Q: "?Q p v"
      and step: "reconcileService_step E ?g q s v = (Ret (Inr s'), v')"
    then have "reservation_key E ?g (mt_Name p) \<noteq> reservation_key E ?g (mt_Name q)"
      using dist by (auto simp: reservation_key_def distinct_map dest: inj_onD)
    then show "?Q p v'" using svc_step(2,3) [OF laws step] Q
      by (cases "GetMachineTypeUsage (avail s) (mt_Name q)") auto
  qed
  then show ?thesis by blast
qed

subsection \<open>The status\<close>

lemma desired_loop:
  "desiredMachineTypeNum_loop m mts t =
     (case find (\<lambda>mt. mt_Name mt = t) (rev mts) of None \<Rightarrow> m t | Some mt \<Rightarrow> mt_Available mt)"
proof (induction mts arbitrary: m)
  case (Cons a mts)
  have app: "find P (xs @ [a]) = (case find P xs of Some x \<Rightarrow> Some x | None \<Rightarrow> if P a then Some a else None)"
    for P and xs :: "MachineType list"
    by (induction xs) auto
  show ?case by (simp add: Cons.IH app split: option.split)
qed simp

lemma desired_absent:
  "t \<notin> mt_Name ` set (ms_MachineTypes (m_Spec m)) \<Longrightarrow> desiredMachineTypeNum m t = 0"
proof -
  assume "t \<notin> mt_Name ` set (ms_MachineTypes (m_Spec m))"
  then have "find (\<lambda>mt. mt_Name mt = t) (rev (ms_MachineTypes (m_Spec m))) = None"
    by (auto simp: find_None_iff)
  then show ?thesis by (simp add: desiredMachineTypeNum_def desired_loop)
qed

lemma desired_present:
  assumes "distinct (map mt_Name (ms_MachineTypes (m_Spec m)))" and "mt \<in> set (ms_MachineTypes (m_Spec m))"
  shows "desiredMachineTypeNum m (mt_Name mt) = mt_Available mt"
proof -
  have "find (\<lambda>x. mt_Name x = mt_Name mt) (rev (ms_MachineTypes (m_Spec m))) \<noteq> None"
    using assms(2) by (auto simp: find_None_iff)
  then obtain x where x: "find (\<lambda>x. mt_Name x = mt_Name mt) (rev (ms_MachineTypes (m_Spec m))) = Some x" by blast
  then have "x = mt"
    using assms by (auto simp: distinct_map inj_on_def dest!: find_SomeD)
  with x show ?thesis by (simp add: desiredMachineTypeNum_def desired_loop)
qed

lemma availableMap: "availableMachinesMap_loop m ams t \<longleftrightarrow> m t \<or> t \<in> am_Name ` set ams"
  by (induction ams arbitrary: m) auto

lemma appendAvailable_eq:
  "appendAvailable_loop m ams mts =
     ams @ map (\<lambda>mt. \<lparr>am_Name = mt_Name mt, am_Usage =
       \<lparr>Maximum = mt_Available mt, Reserved = 0, Used = 0, Waiting = 0\<rparr>\<rparr>) (filter (\<lambda>mt. \<not> m (mt_Name mt)) mts)"
  by (induction mts arbitrary: ams) simp_all

lemma withMissing_eq:
  "map am_Name (withMissingEntries m) = map am_Name (avail m) @
     map mt_Name (filter (\<lambda>mt. mt_Name mt \<notin> am_Name ` set (avail m)) (ms_MachineTypes (m_Spec m)))"
  by (simp add: withMissingEntries_def appendAvailable_eq availableMap Let_def comp_def)

end
