(* ===== verification/MachineStatus.thy ===== *)
theory MachineStatus
  imports MachineStages
begin

text \<open>
  What \<open>updateStatus\<close> writes: for every entry of the status list the counters of the Pods the
  API server lists, and the maximum of the specification.
\<close>

definition role_labels :: "string \<Rightarrow> string \<Rightarrow> string \<Rightarrow> smap" where
  "role_labels role grp t = [PodRoleKey \<mapsto> role, MachineGroupKey \<mapsto> grp, MachineTypeKey \<mapsto> t]"

definition role_pods :: "string \<Rightarrow> string \<Rightarrow> string \<Rightarrow> Pod list \<Rightarrow> Pod list" where
  "role_pods role grp t = filter (\<lambda>p. selects (role_labels role grp t) (Labels (pod_Meta p)))"

text \<open>The guest Pods of the namespaces in which injection is enabled.\<close>

definition guest_pods :: "string \<Rightarrow> string \<Rightarrow> (string \<rightharpoonup> ObjectMeta) \<Rightarrow> Pod list \<Rightarrow> Pod list" where
  "guest_pods grp t ns ps =
     filter (\<lambda>p. \<exists>m. ns (Namespace (pod_Meta p)) = Some m \<and> injectionEnabled m) (role_pods PodRoleGuest grp t ps)"

definition counted :: "('w, 'x) mach_env_scheme \<Rightarrow> string \<Rightarrow> (string \<Rightarrow> int32) \<Rightarrow> Pod list \<Rightarrow>
    (string \<rightharpoonup> ObjectMeta) \<Rightarrow> AvailableMachineCondition \<Rightarrow> AvailableMachineCondition" where
  "counted E grp desired ps ns am =
     (let t = am_Name am; guests = guest_pods grp t ns ps in
      am\<lparr>am_Usage :=
        \<lparr>Maximum = desired t,
         Reserved = of_nat (length (filter occupies (role_pods PodRoleReservation grp t ps))),
         Used = of_nat (length (filter (occupies_at E) guests)),
         Waiting = of_nat (length (filter (unscheduled_at E) guests))\<rparr>\<rparr>)"

definition status_laws ::
    "('w, 'x) mach_env_scheme \<Rightarrow> ('w \<Rightarrow> Pod list) \<Rightarrow> ('w \<Rightarrow> string \<rightharpoonup> ObjectMeta) \<Rightarrow> bool" where
  "status_laws E pods nss \<longleftrightarrow>
     pod_list_api E pods \<and> mergo_laws E \<and>
     (\<forall>name w m. fst (Get_Namespace E name w) = Inr m \<longrightarrow> nss w name = Some m) \<and>
     (\<forall>name. preserves nss (Get_Namespace E name)) \<and> (\<forall>ns sel. preserves nss (List_Pods E ns sel))"

interpretation guest_counter: abort_loop "guest_step E" "guest_loop E" for E
  by unfold_locales simp_all

interpretation status_entries: abort_loop "updateStatus_step E grp desired" "updateStatus_loop E grp desired"
  for E grp desired
  by unfold_locales simp_all

lemma guest_step_exact:
  assumes laws: "status_laws E pods nss" and run: "guest_step E p (u, v) w = (Ret (Inr c), w')"
  shows "\<exists>m. nss w (Namespace (pod_Meta p)) = Some m \<and>
      c = (if injectionEnabled m
           then (if occupies_at E p then u + 1 else u, if unscheduled_at E p then v + 1 else v)
           else (u, v))"
    and "pods w' = pods w" and "nss w' = nss w"
proof -
  let ?r = "Get_Namespace E (Namespace (pod_Meta p)) w"
  obtain m where m: "fst ?r = Inr m" and w': "w' = snd ?r"
    and c: "c = (if injectionEnabled m then countGuest E p (u, v) else (u, v))"
    using run by (auto simp: guest_step_def act_simps split: sum.splits if_splits)
  show "\<exists>m. nss w (Namespace (pod_Meta p)) = Some m \<and>
      c = (if injectionEnabled m
           then (if occupies_at E p then u + 1 else u, if unscheduled_at E p then v + 1 else v)
           else (u, v))"
    using laws m c by (auto simp: status_laws_def countGuest_eq)
  show "pods w' = pods w" "nss w' = nss w"
    using laws w' by (auto simp: status_laws_def pod_list_api_def preserves_def)
qed

lemma guest_loop_exact:
  assumes laws: "status_laws E pods nss" and run: "guest_loop E ps (u, v) w = (Ret (Inr c), w')"
  shows "c = (u + of_nat (length (filter (occupies_at E)
                 (filter (\<lambda>p. \<exists>m. nss w (Namespace (pod_Meta p)) = Some m \<and> injectionEnabled m) ps))),
              v + of_nat (length (filter (unscheduled_at E)
                 (filter (\<lambda>p. \<exists>m. nss w (Namespace (pod_Meta p)) = Some m \<and> injectionEnabled m) ps))))
    \<and> pods w' = pods w \<and> nss w' = nss w"
  using run
proof (induction ps arbitrary: u v w)
  case Nil
  then show ?case by (simp add: act_simps)
next
  case (Cons p ps)
  obtain c1 w1 where step: "guest_step E p (u, v) w = (Ret (Inr c1), w1)"
    and rest: "guest_loop E ps c1 w1 = (Ret (Inr c), w')"
    by (rule guest_counter.loop_ConsE [OF Cons.prems])
  note st = guest_step_exact [OF laws step]
  obtain u1 v1 where c1: "c1 = (u1, v1)" by (cases c1)
  note IH = Cons.IH [OF rest [unfolded c1]]
  from st(1) obtain m where m: "nss w (Namespace (pod_Meta p)) = Some m"
    and c1': "c1 = (if injectionEnabled m
           then (if occupies_at E p then u + 1 else u, if unscheduled_at E p then v + 1 else v)
           else (u, v))" by blast
  show ?case
    using IH st(2,3) m c1 c1' by (auto split: if_splits)
qed

lemma pod_list_all:
  assumes "pod_list_api E pods" and "fst (List_Pods E [] sel w) = Inr ps"
  shows "ps = filter (\<lambda>p. selects sel (Labels (pod_Meta p))) (pods w)"
proof -
  have "ps = filter (\<lambda>p. (([] :: string) = [] \<or> Namespace (pod_Meta p) = []) \<and> selects sel (Labels (pod_Meta p))) (pods w)"
    using assms unfolding pod_list_api_def by blast
  then show ?thesis by simp
qed

lemma entry_exact:
  assumes laws: "status_laws E pods nss"
    and run: "updateStatus_entry E grp desired am w = (Ret (Inr am'), w')"
  shows "am' = counted E grp desired (pods w) (nss w) am" "pods w' = pods w" "nss w' = nss w"
proof -
  let ?t = "am_Name am"
  have pods_law: "pod_list_api E pods" using laws by (simp add: status_laws_def)
  have merge: "mergo_Map E dst src = Inr (dst ++ src)" for dst src
    using laws by (simp add: status_laws_def mergo_laws_def)
  let ?r1 = "List_Pods E [] (role_labels PodRoleReservation grp ?t) w"
  let ?r2 = "List_Pods E [] (role_labels PodRoleGuest grp ?t) (snd ?r1)"
  obtain ps1 ps2 u v where ps: "fst ?r1 = Inr ps1" "fst ?r2 = Inr ps2"
    and guests: "guest_loop E ps2 (0, 0) (snd ?r2) = (Ret (Inr (u, v)), w')"
    and am': "am' = am\<lparr>am_Usage := \<lparr>Maximum = desired ?t, Reserved = countReserved_loop 0 ps1,
      Used = u, Waiting = v\<rparr>\<rparr>"
  proof -
    from run obtain ps1 ps2 c where 1: "fst ?r1 = Inr ps1" "fst ?r2 = Inr ps2"
      "fst (guest_loop E ps2 (0, 0) (snd ?r2)) = Ret (Inr c)"
      "w' = snd (guest_loop E ps2 (0, 0) (snd ?r2))"
      "am' = am\<lparr>am_Usage := \<lparr>Maximum = desired ?t, Reserved = countReserved_loop 0 ps1,
        Used = fst c, Waiting = snd c\<rparr>\<rparr>"
      by (auto simp: updateStatus_entry_def act_simps Let_def merge role_labels_def
          split: sum.splits gores.splits)
    then show thesis by (intro that [of ps1 ps2 "fst c" "snd c"]) (simp_all add: prod_eq_iff)
  qed
  have list: "ps1 = role_pods PodRoleReservation grp ?t (pods w)"
    "ps2 = role_pods PodRoleGuest grp ?t (pods (snd ?r1))"
    using pod_list_all [OF pods_law] ps by (simp_all add: role_pods_def)
  have keep: "pods (snd ?r1) = pods w" "nss (snd ?r1) = nss w" "pods (snd ?r2) = pods w" "nss (snd ?r2) = nss w"
    using laws by (simp_all add: status_laws_def pod_list_api_def preserves_def)
  note g = guest_loop_exact [OF laws guests]
  show "am' = counted E grp desired (pods w) (nss w) am"
    using g am' list keep
    by (simp add: counted_def Let_def reserved_count.count_exact guest_pods_def)
  show "pods w' = pods w" "nss w' = nss w" using g keep by simp_all
qed

lemma status_loop_exact:
  assumes laws: "status_laws E pods nss"
    and run: "updateStatus_loop E grp desired ams written w = (Ret (Inr res), w')"
  shows "res = written @ map (counted E grp desired (pods w) (nss w)) ams \<and>
    pods w' = pods w \<and> nss w' = nss w"
  using run
proof (induction ams arbitrary: written w)
  case Nil
  then show ?case by (simp add: act_simps)
next
  case (Cons am ams)
  obtain written1 w1 where step: "updateStatus_step E grp desired am written w = (Ret (Inr written1), w1)"
    and rest: "updateStatus_loop E grp desired ams written1 w1 = (Ret (Inr res), w')"
    by (rule status_entries.loop_ConsE [OF Cons.prems])
  from step obtain am' where "updateStatus_entry E grp desired am w = (Ret (Inr am'), w1)"
    and "written1 = written @ [am']"
    by (cases "updateStatus_entry E grp desired am w")
      (auto simp: updateStatus_step_def act_simps split: gores.splits sum.splits)
  with entry_exact [OF laws] Cons.IH [OF rest] show ?case by fastforce
qed

subsection \<open>What is stored\<close>

text \<open>
  The Machines of the API server: a successful status update stores the Machine that was sent,
  and no other call of \<open>updateStatus\<close> changes them; go-cmp compares by value.
\<close>

definition machine_store_laws :: "('w, 'x) mach_env_scheme \<Rightarrow> ('w \<Rightarrow> ObjectKey \<rightharpoonup> Machine) \<Rightarrow> bool" where
  "machine_store_laws E machines \<longleftrightarrow>
     (\<forall>m w m' w'. StatusUpdate_Machine E m w = (Inr m', w') \<longrightarrow>
        machines w' = (machines w)(ObjectKeyFromMeta (m_Meta m) \<mapsto> m)) \<and>
     (\<forall>name. preserves machines (Get_Namespace E name)) \<and>
     (\<forall>ns sel. preserves machines (List_Pods E ns sel)) \<and>
     preserves machines (metav1_Now E) \<and> (\<forall>s w. machines (Recorder_Eventf E s w) = machines w) \<and>
     (\<forall>a b. cmp_Diff_avail E a b = [] \<longleftrightarrow> a = b)"

lemma updateStatus_stores:
  assumes laws: "status_laws E pods nss" and store: "machine_store_laws E machines"
    and stored: "machines w (ObjectKeyFromMeta (m_Meta m)) = Some m"
    and run: "updateStatus E m w = (Ret (res, None), w')"
  shows "\<exists>m'. machines w' (ObjectKeyFromMeta (m_Meta m)) = Some m' \<and> m_Meta m' = m_Meta m \<and> m_Spec m' = m_Spec m \<and>
    avail m' = map (counted E (machine_group m) (desiredMachineTypeNum m) (pods w) (nss w)) (withMissingEntries m)"
proof -
  let ?loop = "updateStatus_loop E (machine_group m) (desiredMachineTypeNum m) (withMissingEntries m) [] w"
  have view: "machines (snd ?loop) = machines w"
    by (rule preservesD [OF updateStatus_loop_frame]) (use store in \<open>simp_all add: machine_store_laws_def\<close>)
  obtain ams w1 where loop: "?loop = (Ret (Inr ams), w1)"
    using run by (cases ?loop) (auto simp: updateStatus_def act_simps Let_def split: gores.splits sum.splits)
  note ams = status_loop_exact [OF laws loop]
  let ?m = "m\<lparr>m_Status := (m_Status m)\<lparr>mst_AvailableMachines := ams\<rparr>\<rparr>"
  show ?thesis
  proof (cases "avail m = ams")
    case True
    with run loop store have "w' = w1"
      by (simp add: updateStatus_def act_simps Let_def machine_store_laws_def)
    with view loop stored True ams show ?thesis by simp
  next
    case False
    let ?w2 = "Recorder_Eventf E ''updated available machine status'' w1"
    let ?t = "metav1_Now E ?w2"
    let ?m' = "machine_setCondition E ConditionTrue StatusSuccess ''update status conditions'' (fst ?t) ?m"
    from run loop store False obtain m' where "StatusUpdate_Machine E ?m' (snd ?t) = (Inr m', w')"
      by (cases "StatusUpdate_Machine E ?m' (snd ?t)")
        (auto simp: updateStatus_def updateReconcileSuccessStatus_def with_machine_def act_simps Let_def
          machine_store_laws_def split: sum.splits)
    then have "machines w' (ObjectKeyFromMeta (m_Meta m)) = Some ?m'"
      using store unfolding machine_store_laws_def by fastforce
    with ams show ?thesis by simp
  qed
qed

subsection \<open>The controller never panics\<close>

lemma returns_conditions [returns_intros]: "returns (updateReconcileConditions E r m)"
  unfolding updateReconcileConditions_def updateReconcileSuccessStatus_def Let_def
  by (intro returns_intros)

lemma returns_pool_stage: "returns (reconcileMachineNodePool E m)"
  unfolding reconcileMachineNodePool_def Let_def by (intro returns_intros)

lemma returns_sts_stage: "returns (reconcileStatefulSet E m)"
proof -
  have "returns (reconcileStatefulSet_step E grp types mt m)" for grp types mt m
    unfolding reconcileStatefulSet_step_def Let_def by (intro returns_intros)
  then have "returns (reconcileStatefulSet_loop E grp types mts m)" for grp types mts m
    by (induction mts arbitrary: m) (simp_all add: returns_intros)
  then show ?thesis by (simp add: reconcileStatefulSet_def)
qed

lemma returns_svc_stage: "returns (reconcileService E m)"
proof -
  have "returns (reconcileService_step E grp mt m)" for grp mt m
    unfolding reconcileService_step_def Let_def by (intro returns_intros)
  then have "returns (reconcileService_loop E grp mts m)" for grp mts m
    by (induction mts arbitrary: m) (simp_all add: returns_intros)
  then show ?thesis by (simp add: reconcileService_def)
qed

lemma returns_updateStatus: "returns (updateStatus E m)"
proof -
  have "returns (guest_step E p c)" for p c
    unfolding guest_step_def by (intro returns_intros)
  then have guest: "returns (guest_loop E ps c)" for ps c
    by (induction ps arbitrary: c) (simp_all add: returns_intros)
  have "returns (updateStatus_step E grp desired am s)" for grp desired am s
    unfolding updateStatus_step_def updateStatus_entry_def Let_def by (intro returns_intros guest)
  then have loop: "returns (updateStatus_loop E grp desired ams s)" for grp desired ams s
    by (induction ams arbitrary: s) (simp_all add: returns_intros)
  show ?thesis
    unfolding updateStatus_def updateReconcileSuccessStatus_def Let_def by (intro returns_intros loop)
qed

text \<open>A result with an error asks for a requeue.\<close>

fun error_ok :: "reconcile_out gores \<Rightarrow> bool" where
  "error_ok Panic = True"
| "error_ok (Ret (res, err)) = (err = None \<or> Requeue res)"

definition error_requeues :: "('w, reconcile_out) act \<Rightarrow> bool" where
  "error_requeues m \<longleftrightarrow> (\<forall>w. error_ok (fst (m w)))"

lemma error_requeues_aret: "err = None \<or> Requeue res \<Longrightarrow> error_requeues (aret (res, err))"
  by (simp add: error_requeues_def act_simps)

lemma error_requeues_abind: "(\<And>x. error_requeues (f x)) \<Longrightarrow> error_requeues (abind m f)"
  by (simp add: error_requeues_def act_simps split: gores.split)

lemma error_requeues_sum:
  "(\<And>e. error_requeues (f e)) \<Longrightarrow> (\<And>x. error_requeues (g x)) \<Longrightarrow>
   error_requeues (case r of Inl e \<Rightarrow> f e | Inr x \<Rightarrow> g x)"
  by (cases r) simp_all

lemma error_requeues_prod:
  "(\<And>a b. error_requeues (f a b)) \<Longrightarrow> error_requeues (case x of (a, b) \<Rightarrow> f a b)"
  by (cases x) simp

lemma error_requeues_if: "error_requeues m \<Longrightarrow> error_requeues m' \<Longrightarrow> error_requeues (if b then m else m')"
  by simp

lemmas error_requeues_intros =
  error_requeues_aret error_requeues_abind error_requeues_sum error_requeues_prod error_requeues_if

lemma machine_Reconcile_contract:
  "returns (machine_Reconcile E req) \<and> error_requeues (machine_Reconcile E req)"
proof
  have failed: "returns (updateReconcileFailedStatus E m e)" "error_requeues (updateReconcileFailedStatus E m e)" for m e
    unfolding updateReconcileFailedStatus_def
    by (intro returns_intros) (intro error_requeues_intros, simp_all)
  show "returns (machine_Reconcile E req)"
    unfolding machine_Reconcile_def machine_reconcile_def stage_def
    by (intro returns_intros returns_pool_stage returns_sts_stage returns_svc_stage returns_updateStatus failed)
  have "error_requeues (updateStatus E m)" for m
    unfolding updateStatus_def Let_def by (intro error_requeues_intros) simp_all
  then show "error_requeues (machine_Reconcile E req)"
    unfolding machine_Reconcile_def machine_reconcile_def stage_def
    by (intro error_requeues_intros failed) simp_all
qed

end
