(* ===== verification/MachineWebhook.thy ===== *)
theory MachineWebhook
  imports Client
begin

text \<open>
  \<open>pkg/api/v1alpha1/machine_webhook.go\<close>: the defaulting and the validating admission webhook
  of Machine. \<open>kubeReader\<close> is the environment \<open>E\<close>.
\<close>

subsection \<open>Default\<close>

fun Default_loop :: "AvailableMachineCondition list \<Rightarrow> MachineType list \<Rightarrow> AvailableMachineCondition list" where
  "Default_loop ams [] = ams"
| "Default_loop ams (mt # mts) =
     Default_loop
       (ams @ [\<lparr>am_Name = mt_Name mt,
                am_Usage = \<lparr>Maximum = mt_Available mt, Reserved = 0, Used = 0, Waiting = 0\<rparr>\<rparr>]) mts"

definition machine_Default :: "Machine \<Rightarrow> Machine" where
  "machine_Default r =
     r\<lparr>m_Status := (m_Status r)\<lparr>mst_AvailableMachines :=
          Default_loop (mst_AvailableMachines (m_Status r)) (ms_MachineTypes (m_Spec r))\<rparr>\<rparr>"

subsection \<open>ValidateLabel and ValidateNodeName\<close>

fun validateLabel_loop :: "Machine \<Rightarrow> Machine list \<Rightarrow> goerr + unit" where
  "validateLabel_loop r [] = Inr ()"
| "validateLabel_loop r (m # ms) =
     (if Name (m_Meta m) \<noteq> Name (m_Meta r)
      then Inl (Errorf ''machineGroup label is duplicate, machineGroup must be set as unique'')
      else validateLabel_loop r ms)"

definition ValidateLabel :: "('w, 'x) webhook_env_scheme \<Rightarrow> Machine \<Rightarrow> ('w, goerr + unit) act" where
  "ValidateLabel E r =
     (case Labels (m_Meta r) MachineGroupKey of
        None \<Rightarrow> aret (Inl (Errorf (MachineGroupKey @ '' is must be set in .metadata.labels'')))
      | Some machineGroupName \<Rightarrow>
          atry (acall (wh_List_Machines E [MachineGroupKey \<mapsto> machineGroupName])) (\<lambda>machines.
            if machines = [] then aret (Inr ())
            else aret (validateLabel_loop r machines)))"

fun existNodes_loop :: "(string \<rightharpoonup> bool) \<Rightarrow> Node list \<Rightarrow> (string \<rightharpoonup> bool)" where
  "existNodes_loop m [] = m"
| "existNodes_loop m (n # ns) = existNodes_loop (m(node_Name n \<mapsto> True)) ns"

fun validateNodeName_loop :: "(string \<rightharpoonup> bool) \<Rightarrow> NodePool list \<Rightarrow> goerr + unit" where
  "validateNodeName_loop existNodes [] = Inr ()"
| "validateNodeName_loop existNodes (np # nps) =
     (if existNodes (np_Name np) \<noteq> Some True
      then Inl (Errorf (''failed to find node '' @ np_Name np @ '' in Kubernetes Cluster''))
      else validateNodeName_loop existNodes nps)"

definition ValidateNodeName :: "('w, 'x) webhook_env_scheme \<Rightarrow> Machine \<Rightarrow> ('w, goerr + unit) act" where
  "ValidateNodeName E r =
     atry (acall (wh_List_Nodes E)) (\<lambda>nodes.
       aret (validateNodeName_loop (existNodes_loop Map.empty nodes) (ms_NodePool (m_Spec r))))"

subsection \<open>ValidateNodePoolMachineTypeName\<close>

fun machineTypeMap_loop :: "(string \<rightharpoonup> MachineType) \<Rightarrow> MachineType list \<Rightarrow> goerr + (string \<rightharpoonup> MachineType)" where
  "machineTypeMap_loop machineTypeMap [] = Inr machineTypeMap"
| "machineTypeMap_loop machineTypeMap (m # ms) =
     (if machineTypeMap (mt_Name m) \<noteq> None
      then Inl (Errorf (''machineType name <'' @ mt_Name m @ ''> is duplicated''))
      else machineTypeMap_loop (machineTypeMap(mt_Name m \<mapsto> m)) ms)"

fun validateEntryTypes_loop :: "(string \<rightharpoonup> MachineType) \<Rightarrow> NodePoolMachineType list \<Rightarrow> goerr + unit" where
  "validateEntryTypes_loop machineTypeMap [] = Inr ()"
| "validateEntryTypes_loop machineTypeMap (mt # mts) =
     (if machineTypeMap (npmt_Name mt) = None
      then Inl (Errorf (npmt_Name mt @ '' was not found in spec.machineTypes''))
      else validateEntryTypes_loop machineTypeMap mts)"

fun validateNodePool_loop :: "(string \<rightharpoonup> MachineType) \<Rightarrow> NodePool list \<Rightarrow> goerr + unit" where
  "validateNodePool_loop machineTypeMap [] = Inr ()"
| "validateNodePool_loop machineTypeMap (p # ps) =
     (if length (np_MachineType p) \<noteq> 1
      then Inl (Errorf (''<'' @ np_Name p @ ''>; can not set multiple machineType in nodePool.machineType''))
      else case validateEntryTypes_loop machineTypeMap (np_MachineType p) of
             Inl e \<Rightarrow> Inl e
           | Inr _ \<Rightarrow> validateNodePool_loop machineTypeMap ps)"

definition ValidateNodePoolMachineTypeName :: "Machine \<Rightarrow> goerr + unit" where
  "ValidateNodePoolMachineTypeName r =
     (case machineTypeMap_loop Map.empty (ms_MachineTypes (m_Spec r)) of
        Inl e \<Rightarrow> Inl e
      | Inr machineTypeMap \<Rightarrow> validateNodePool_loop machineTypeMap (ms_NodePool (m_Spec r)))"

subsection \<open>ValidateGPUSpec\<close>

fun gpuSelectorTypes_loop :: "string list \<Rightarrow> string list \<Rightarrow> string list" where
  "gpuSelectorTypes_loop gpuSelectorTypes [] = gpuSelectorTypes"
| "gpuSelectorTypes_loop gpuSelectorTypes (s # ss) =
     (if s = [] then gpuSelectorTypes_loop gpuSelectorTypes ss
      else gpuSelectorTypes_loop (gpuSelectorTypes @ [s]) ss)"

fun validateGPU_loop :: "(quantity \<Rightarrow> int) \<Rightarrow> MachineType list \<Rightarrow> goerr + unit" where
  "validateGPU_loop qv [] = Inr ()"
| "validateGPU_loop qv (m # ms) =
     (case GPU (mt_Spec m) of
        None \<Rightarrow> validateGPU_loop qv ms
      | Some gpu \<Rightarrow>
          (if gpu_Type gpu = [] then Inl (Errorf ''gpu.type must be set value'')
           else if qv (gpu_Num gpu) < 0 then Inl (Errorf ''gpu.num must be set 0 or more value'')
           else let gpuSelectorTypes =
                      gpuSelectorTypes_loop [] [gpu_Family gpu, gpu_Product gpu, gpu_Machine gpu]
                in if gpuSelectorTypes = []
                   then Inl (Errorf ''you must set a value for either gpu.family, gpu.product or gpu.machine'')
                   else if length gpuSelectorTypes > 1
                   then Inl (Errorf ''only one GPU family, product or machine cane be set'')
                   else validateGPU_loop qv ms))"

definition ValidateGPUSpec :: "('w, 'x) webhook_env_scheme \<Rightarrow> Machine \<Rightarrow> goerr + unit" where
  "ValidateGPUSpec E r = validateGPU_loop (Quantity_Value E) (ms_MachineTypes (m_Spec r))"

subsection \<open>The admission entry points\<close>

definition ValidateAllOperation :: "('w, 'x) webhook_env_scheme \<Rightarrow> Machine \<Rightarrow> ('w, goerr + unit) act" where
  "ValidateAllOperation E r =
     atry (ValidateLabel E r) (\<lambda>_.
     atry (ValidateNodeName E r) (\<lambda>_.
     atry (aret (ValidateNodePoolMachineTypeName r)) (\<lambda>_.
     aret (ValidateGPUSpec E r))))"

definition ValidateCreate :: "('w, 'x) webhook_env_scheme \<Rightarrow> Machine \<Rightarrow> ('w, goerr + unit) act" where
  "ValidateCreate E r = ValidateAllOperation E r"

definition ValidateUpdate :: "('w, 'x) webhook_env_scheme \<Rightarrow> Machine \<Rightarrow> Machine \<Rightarrow> ('w, goerr + unit) act" where
  "ValidateUpdate E r old = ValidateAllOperation E r"

definition ValidateDelete :: "Machine \<Rightarrow> ('w, goerr + unit) act" where
  "ValidateDelete r = aret (Inr ())"

end
