(* ===== verification/PodInjector.thy ===== *)
theory PodInjector
  imports Client
begin

text \<open>
  \<open>pkg/api/v1alpha1/pod_resource_injector.go\<close>: the mutating webhook that turns a guest Pod
  into a user of its machine type. Log lines and the diffs computed only for them are left
  out. A nil dereference or an index out of range is the outcome \<open>Panic\<close>.
\<close>

subsection \<open>requiredInjection and replacePods\<close>

definition requiredInjection :: "Pod \<Rightarrow> bool" where
  "requiredInjection pod =
     (let ls = Labels (pod_Meta pod) in
      if ls MachineGroupKey = None then False
      else if ls MachineTypeKey = None then False
      else if map_get ls PodRoleKey \<noteq> PodRoleGuest then False
      else True)"

definition replacePods :: "('w, 'x) injector_env_scheme \<Rightarrow> Pod \<Rightarrow> ('w, goerr + unit) act" where
  "replacePods E pod =
     abind (acall (inj_Get_Pod E (ObjectKeyFromMeta (pod_Meta pod)))) (\<lambda>r.
       case r of
         Inl e \<Rightarrow> (if is_not_found e then aret (Inr ())
                   else aret (Inl (Errorf ''it is forbidden to update the Pod'')))
       | Inr _ \<Rightarrow> aret (Inl (Errorf ''it is forbidden to update the Pod'')))"

subsection \<open>findMachineType and the target container\<close>

fun findType_loop :: "string \<Rightarrow> MachineType list \<Rightarrow> MachineType option" where
  "findType_loop machineTypeName [] = None"
| "findType_loop machineTypeName (mt # mts) =
     (if mt_Name mt = machineTypeName then Some mt else findType_loop machineTypeName mts)"

fun findUsage_loop :: "string \<Rightarrow> AvailableMachineCondition list \<Rightarrow> UsageCondition option" where
  "findUsage_loop machineTypeName [] = None"
| "findUsage_loop machineTypeName (s # ss) =
     (if am_Name s = machineTypeName then Some (am_Usage s) else findUsage_loop machineTypeName ss)"

definition findMachineType :: "('w, 'x) injector_env_scheme \<Rightarrow> string \<Rightarrow> string \<Rightarrow>
    ('w, goerr + (MachineType option \<times> UsageCondition option)) act" where
  "findMachineType E machineGroup machineTypeName =
     atry (acall (inj_List_Machines E [MachineGroupKey \<mapsto> machineGroup])) (\<lambda>machines.
       case machines of
         [] \<Rightarrow> aret (Inl (Errorf (''failed to find machine-group <'' @ machineGroup @ ''>'')))
       | m # _ \<Rightarrow>
           aret (Inr (findType_loop machineTypeName (ms_MachineTypes (m_Spec m)),
                      findUsage_loop machineTypeName (mst_AvailableMachines (m_Status m)))))"

fun findContainer_loop :: "nat \<Rightarrow> Container list \<Rightarrow> string \<Rightarrow> nat option" where
  "findContainer_loop idx [] containerName = None"
| "findContainer_loop idx (c # cs) containerName =
     (if c_Name c \<noteq> containerName then findContainer_loop (Suc idx) cs containerName
      else Some idx)"

definition findInjectingTargetContainerIndex :: "Pod \<Rightarrow> nat" where
  "findInjectingTargetContainerIndex pod =
     (case Labels (pod_Meta pod) ImperatorResourceInjectContainerNameKey of
        None \<Rightarrow> 0
      | Some containerName \<Rightarrow>
          (case findContainer_loop 0 (ps_Containers (pod_Spec pod)) containerName of
             None \<Rightarrow> 0
           | Some idx \<Rightarrow> idx))"

subsection \<open>Resources\<close>

definition convertToResourceQuantity :: "MachineType \<Rightarrow> ResourceList" where
  "convertToResourceQuantity machineType =
     (let resourceList = [ResourceCPU \<mapsto> CPU (mt_Spec machineType),
                          ResourceMemory \<mapsto> Memory (mt_Spec machineType)]
      in case GPU (mt_Spec machineType) of
           None \<Rightarrow> resourceList
         | Some gpu \<Rightarrow> resourceList(gpu_Type gpu \<mapsto> gpu_Num gpu))"

definition injectResource :: "MachineType \<Rightarrow> Pod \<Rightarrow> nat \<Rightarrow> Pod gores" where
  "injectResource machineType pod containerIdx =
     (let resourceList = convertToResourceQuantity machineType;
          cs = ps_Containers (pod_Spec pod)
      in if length cs \<le> containerIdx then Panic
         else Ret (pod\<lparr>pod_Spec := (pod_Spec pod)\<lparr>ps_Containers :=
                cs[containerIdx := (cs ! containerIdx)
                     \<lparr>c_Resources := \<lparr>Requests = resourceList, Limits = resourceList\<rparr>\<rparr>]\<rparr>\<rparr>))"

subsection \<open>Affinity\<close>

fun injectedMExpressionKeys_loop :: "smap \<Rightarrow> NodeSelectorRequirement list \<Rightarrow> smap gores" where
  "injectedMExpressionKeys_loop m [] = Ret m"
| "injectedMExpressionKeys_loop m (e # es) =
     (case nsr_Values e of
        [] \<Rightarrow> Panic
      | v # _ \<Rightarrow> injectedMExpressionKeys_loop (m(nsr_Key e \<mapsto> v)) es)"

text \<open>
  The inner loop over one term. \<open>nsTerm\<close> is a copy of the term made when the outer loop
  reached it, so every deletion goes through the slice header \<open>(arr, n)\<close> of the original
  length, while the backing array \<open>arr\<close> is shared and changes under the loop. \<open>cur\<close> is
  the slice stored in the Pod.
\<close>

fun dedupTerm_loop :: "smap \<Rightarrow> nat \<Rightarrow> nat \<Rightarrow> nat \<Rightarrow> NodeSelectorRequirement list \<Rightarrow>
    NodeSelectorRequirement list \<Rightarrow> NodeSelectorRequirement list gores" where
  "dedupTerm_loop keys n 0 meIdx arr cur = Ret cur"
| "dedupTerm_loop keys n (Suc k) meIdx arr cur =
     (let mExpression = arr ! meIdx in
      case nsr_Values mExpression of
        [] \<Rightarrow> Panic
      | v # _ \<Rightarrow>
          (if map_get keys (nsr_Key mExpression) \<noteq> v
           then dedupTerm_loop keys n k (Suc meIdx) arr cur
           else if meIdx = n - 1
           then dedupTerm_loop keys n k (Suc meIdx) arr (take (n - 1) arr)
           else rbind (slice_del meIdx (arr, n)) (\<lambda>s.
                  dedupTerm_loop keys n k (Suc meIdx) (fst s) (slice_view s))))"

definition dedupTerm :: "smap \<Rightarrow> NodeSelectorTerm \<Rightarrow> NodeSelectorTerm gores" where
  "dedupTerm keys nsTerm =
     (let es = MatchExpressions nsTerm
      in rbind (dedupTerm_loop keys (length es) (length es) 0 es es)
           (\<lambda>es'. Ret (nsTerm\<lparr>MatchExpressions := es'\<rparr>)))"

fun dedupTerms :: "smap \<Rightarrow> NodeSelectorTerm list \<Rightarrow> NodeSelectorTerm list gores" where
  "dedupTerms keys [] = Ret []"
| "dedupTerms keys (t # ts) =
     rbind (dedupTerm keys t) (\<lambda>t'. rbind (dedupTerms keys ts) (\<lambda>ts'. Ret (t' # ts')))"

text \<open>
  The node selector terms the Pod starts with: an affinity without node affinity is a nil
  dereference.
\<close>

definition requiredTerms :: "Pod \<Rightarrow> NodeSelectorTerm list gores" where
  "requiredTerms pod =
     (case ps_Affinity (pod_Spec pod) of
        None \<Rightarrow> Ret []
      | Some aff \<Rightarrow>
          (case aff_NodeAffinity aff of
             None \<Rightarrow> Panic
           | Some na \<Rightarrow> (case na_Required na of None \<Rightarrow> Ret [] | Some terms \<Rightarrow> Ret terms)))"

definition setRequiredTerms :: "NodeSelectorTerm list \<Rightarrow> Pod \<Rightarrow> Pod" where
  "setRequiredTerms terms pod =
     pod\<lparr>pod_Spec := (pod_Spec pod)\<lparr>ps_Affinity :=
       (case ps_Affinity (pod_Spec pod) of
          None \<Rightarrow> Some \<lparr>aff_NodeAffinity = Some \<lparr>na_Required = Some terms\<rparr>\<rparr>
        | Some aff \<Rightarrow> Some (aff\<lparr>aff_NodeAffinity :=
            map_option (\<lambda>na. na\<lparr>na_Required := Some terms\<rparr>) (aff_NodeAffinity aff)\<rparr>))\<rparr>\<rparr>"

definition injectPodAffinity :: "Pod \<Rightarrow> NodeSelectorRequirement list \<Rightarrow> Pod gores" where
  "injectPodAffinity pod requiredMatchExpressions =
     rbind (injectedMExpressionKeys_loop Map.empty requiredMatchExpressions) (\<lambda>keys.
     rbind (requiredTerms pod) (\<lambda>terms.
     rbind (if terms \<noteq> [] then dedupTerms keys terms else Ret terms) (\<lambda>terms.
     Ret (setRequiredTerms
       (terms @ [\<lparr>MatchExpressions = requiredMatchExpressions, MatchFields = []\<rparr>]) pod))))"

subsection \<open>Tolerations\<close>

fun findToleration_loop :: "nat \<Rightarrow> Toleration list \<Rightarrow> string \<Rightarrow> string \<Rightarrow> nat option" where
  "findToleration_loop tIdx [] tolerationKey tolerationValue = None"
| "findToleration_loop tIdx (t # ts) tolerationKey tolerationValue =
     (if tol_Key t = tolerationKey \<and> tol_Value t = tolerationValue then Some tIdx
      else findToleration_loop (Suc tIdx) ts tolerationKey tolerationValue)"

definition findToleration :: "Toleration list \<Rightarrow> string \<Rightarrow> string \<Rightarrow> nat option" where
  "findToleration ts tolerationKey tolerationValue = findToleration_loop 0 ts tolerationKey tolerationValue"

fun injectToleration_loop :: "Toleration list \<Rightarrow> Toleration list \<Rightarrow> Toleration list" where
  "injectToleration_loop [] ts = ts"
| "injectToleration_loop (t # toleration) ts =
     injectToleration_loop toleration
       ((if ts \<noteq> []
         then (case findToleration ts (tol_Key t) (tol_Value t) of
                 None \<Rightarrow> ts
               | Some duplicatedIdx \<Rightarrow>
                   (if duplicatedIdx = length ts - 1 then take (length ts - 1) ts
                    else remove_at duplicatedIdx ts))
         else ts) @ [t])"

definition injectPodToleration :: "Pod \<Rightarrow> Toleration list \<Rightarrow> Pod" where
  "injectPodToleration pod toleration =
     pod\<lparr>pod_Spec := (pod_Spec pod)
       \<lparr>ps_Tolerations := injectToleration_loop toleration (ps_Tolerations (pod_Spec pod))\<rparr>\<rparr>"

subsection \<open>injectToPod and Handle\<close>

definition injectToPod :: "('w, 'x) injector_env_scheme \<Rightarrow> Pod \<Rightarrow> ('w, goerr + Pod) act" where
  "injectToPod E pod =
     (let injectingTargetContainerIdx = findInjectingTargetContainerIndex pod;
          machineGroup = map_get (Labels (pod_Meta pod)) MachineGroupKey;
          machineTypeName = map_get (Labels (pod_Meta pod)) MachineTypeKey
      in atry (findMachineType E machineGroup machineTypeName) (\<lambda>(targetMachineType, machineTypeUsage).
         case targetMachineType of
           None \<Rightarrow> aret (Inl (Errorf (''machine-group, <'' @ machineGroup @
                     ''> does not have machine-type, <'' @ machineTypeName @ ''>'')))
         | Some machineType \<Rightarrow>
             (case machineTypeUsage of
                None \<Rightarrow> alift Panic
              | Some usage \<Rightarrow>
                  (if Reserved usage = 0
                   then aret (Inl (Errorf (''name: <'' @ Name (pod_Meta pod) @ ''>, namespace: <'' @
                          Namespace (pod_Meta pod) @ ''>; there is no <'' @ mt_Name machineType @ ''> left'')))
                   else abind (alift (
                     rbind (injectResource machineType pod injectingTargetContainerIdx) (\<lambda>pod.
                     rbind (injectPodAffinity pod
                              (GenerateAffinityMatchExpression machineType machineGroup)) (\<lambda>pod.
                     Ret (injectPodToleration pod
                            (GenerateToleration machineTypeName machineGroup)))))) (\<lambda>pod.
                     aret (Inr pod))))))"

datatype admission_Response =
    Errored int goerr
  | Denied string
  | PatchResponseFromRaw string string

definition StatusInternalServerError :: int where
  "StatusInternalServerError = 500"

text \<open>\<open>Handle\<close>; the request is its raw object.\<close>

definition injector_Handle :: "('w, 'x) injector_env_scheme \<Rightarrow> string \<Rightarrow> ('w, admission_Response) act" where
  "injector_Handle E raw =
     (case inj_Decode E raw of
        Inl err \<Rightarrow> aret (Errored StatusInternalServerError err)
      | Inr pod \<Rightarrow>
          abind (if requiredInjection pod
                 then atry (replacePods E pod) (\<lambda>_. injectToPod E pod)
                 else aret (Inr pod)) (\<lambda>r.
            case r of
              Inl err \<Rightarrow> aret (Denied (err_text err))
            | Inr pod \<Rightarrow>
                (case inj_Marshal E pod of
                   Inl err \<Rightarrow> aret (Errored StatusInternalServerError err)
                 | Inr marshaledPod \<Rightarrow> aret (PatchResponseFromRaw raw marshaledPod))))"

end
