(* ===== verification/Cluster.thy ===== *)
theory Cluster
  imports NodeCleanup MachineStatus MachineWebhook PodInjector
begin

text \<open>
  An in-memory cluster: one concrete instance of the services the program calls, in which
  every documented law of the theory \<open>Client\<close> holds. The witnesses of the properties run the
  model in it. It models no code of this repository.
\<close>

record cluster =
  cl_nodes :: "string \<rightharpoonup> Node"
  cl_pools :: "(ObjectKey \<times> MachineNodePool) list"
  cl_machines :: "(ObjectKey \<times> Machine) list"
  cl_pods :: "Pod list"
  cl_namespaces :: "string \<rightharpoonup> ObjectMeta"
  cl_sts :: "ObjectKey \<rightharpoonup> StatefulSet"
  cl_svc :: "ObjectKey \<rightharpoonup> Service"
  cl_clock :: int
  cl_events :: "string list"

definition empty_cluster :: cluster where
  "empty_cluster = \<lparr>cl_nodes = Map.empty, cl_pools = [], cl_machines = [], cl_pods = [],
     cl_namespaces = Map.empty, cl_sts = Map.empty, cl_svc = Map.empty, cl_clock = 0, cl_events = []\<rparr>"

subsection \<open>The library functions\<close>

fun mem_set_condition :: "Condition \<Rightarrow> Condition list \<Rightarrow> Condition list" where
  "mem_set_condition c [] = [c]"
| "mem_set_condition c (d # ds) =
     (if cond_Type d = cond_Type c
      then (if cond_Status d = cond_Status c
            then c\<lparr>cond_LastTransitionTime := cond_LastTransitionTime d\<rparr> else c) # ds
      else d # mem_set_condition c ds)"

definition mem_now :: "cluster \<Rightarrow> time \<times> cluster" where
  "mem_now w = (cl_clock w, w\<lparr>cl_clock := cl_clock w + 1\<rparr>)"

definition mem_event :: "string \<Rightarrow> cluster \<Rightarrow> cluster" where
  "mem_event s w = w\<lparr>cl_events := cl_events w @ [s]\<rparr>"

definition mem_base :: "environ \<Rightarrow> cluster base_env" where
  "mem_base env = \<lparr>os_environ = env, metav1_Now = mem_now, Recorder_Eventf = mem_event,
     meta_SetStatusCondition = mem_set_condition, Time_IsZero = (\<lambda>t. t = None)\<rparr>"

definition mem_diff :: "'a \<Rightarrow> 'a \<Rightarrow> string" where
  "mem_diff a b = (if a = b then [] else ''-+'')"

subsection \<open>The objects\<close>

text \<open>Nodes: an entry counts when it is stored under its own name.\<close>

definition mem_nodes :: "cluster \<Rightarrow> string \<rightharpoonup> Node" where
  "mem_nodes w k = (case cl_nodes w k of
     Some n \<Rightarrow> (if node_Name n = k then Some n else None) | None \<Rightarrow> None)"

definition mem_get_node :: "ObjectKey \<Rightarrow> cluster \<Rightarrow> (goerr + Node) \<times> cluster" where
  "mem_get_node key w =
     (case mem_nodes w (snd key) of None \<Rightarrow> (Inl (NotFound (snd key)), w) | Some n \<Rightarrow> (Inr n, w))"

definition mem_update_node :: "Node \<Rightarrow> cluster \<Rightarrow> (goerr + Node) \<times> cluster" where
  "mem_update_node n w =
     (case mem_nodes w (node_Name n) of
        None \<Rightarrow> (Inl (NotFound (node_Name n)), w)
      | Some _ \<Rightarrow> (Inr n, w\<lparr>cl_nodes := (cl_nodes w)(node_Name n \<mapsto> n)\<rparr>))"

definition mem_get :: "(ObjectKey \<times> 'o) list \<Rightarrow> ObjectKey \<Rightarrow> goerr + 'o" where
  "mem_get xs key = (case map_of xs key of None \<Rightarrow> Inl (NotFound (snd key)) | Some x \<Rightarrow> Inr x)"

definition mem_put :: "ObjectKey \<Rightarrow> 'o \<Rightarrow> (ObjectKey \<times> 'o) list \<Rightarrow> (ObjectKey \<times> 'o) list" where
  "mem_put key x xs =
     (if key \<in> fst ` set xs then map (\<lambda>(k, y). (k, if k = key then x else y)) xs else xs @ [(key, x)])"

text \<open>An update keeps the stored status, a status update everything else.\<close>

definition mem_update_pool :: "MachineNodePool \<Rightarrow> cluster \<Rightarrow> (goerr + MachineNodePool) \<times> cluster" where
  "mem_update_pool p w =
     (let key = ObjectKeyFromMeta (p_Meta p) in
      case map_of (cl_pools w) key of
        None \<Rightarrow> (Inl (NotFound (snd key)), w)
      | Some old \<Rightarrow> (Inr p, w\<lparr>cl_pools := mem_put key (p\<lparr>p_Status := p_Status old\<rparr>) (cl_pools w)\<rparr>))"

definition mem_status_pool :: "MachineNodePool \<Rightarrow> cluster \<Rightarrow> (goerr + MachineNodePool) \<times> cluster" where
  "mem_status_pool p w =
     (let key = ObjectKeyFromMeta (p_Meta p) in
      case map_of (cl_pools w) key of
        None \<Rightarrow> (Inl (NotFound (snd key)), w)
      | Some old \<Rightarrow> (Inr p, w\<lparr>cl_pools := mem_put key (old\<lparr>p_Status := p_Status p\<rparr>) (cl_pools w)\<rparr>))"

definition mem_write_machine :: "Machine \<Rightarrow> cluster \<Rightarrow> (goerr + Machine) \<times> cluster" where
  "mem_write_machine m w =
     (Inr m, w\<lparr>cl_machines := mem_put (ObjectKeyFromMeta (m_Meta m)) m (cl_machines w)\<rparr>)"

definition mem_pool_env :: "environ \<Rightarrow> cluster pool_env" where
  "mem_pool_env env = base_env.extend (mem_base env)
     \<lparr>Get_Pool = (\<lambda>key w. (mem_get (cl_pools w) key, w)),
      Update_Pool = mem_update_pool,
      StatusUpdate_Pool = mem_status_pool,
      List_Pools = (\<lambda>w. (Inr (map snd (cl_pools w)), w)),
      Get_Node = mem_get_node,
      Update_Node = mem_update_node,
      ContainsFinalizer = (\<lambda>fs f. f \<in> set fs),
      AddFinalizer = (\<lambda>fs f. if f \<in> set fs then fs else fs @ [f]),
      RemoveFinalizer = (\<lambda>fs f. filter (\<lambda>g. g \<noteq> f) fs),
      cmp_Diff_map = mem_diff, cmp_Diff_taints = mem_diff,
      cmp_Equal_map = (=), cmp_Equal_taints = (=), cmp_Equal_conds = (=)\<rparr>"

lemma mem_base_sel [simp]:
  "os_environ (mem_base env) = env" "metav1_Now (mem_base env) = mem_now"
  "Recorder_Eventf (mem_base env) = mem_event"
  "meta_SetStatusCondition (mem_base env) = mem_set_condition"
  "Time_IsZero (mem_base env) t \<longleftrightarrow> t = None"
  by (simp_all add: mem_base_def)

lemma mem_pool_env_sel [simp]:
  "os_environ (mem_pool_env env) = env" "metav1_Now (mem_pool_env env) = mem_now"
  "Recorder_Eventf (mem_pool_env env) = mem_event"
  "meta_SetStatusCondition (mem_pool_env env) = mem_set_condition"
  "Time_IsZero (mem_pool_env env) t \<longleftrightarrow> t = None"
  "Get_Pool (mem_pool_env env) key w = (mem_get (cl_pools w) key, w)"
  "Update_Pool (mem_pool_env env) = mem_update_pool"
  "StatusUpdate_Pool (mem_pool_env env) = mem_status_pool"
  "List_Pools (mem_pool_env env) w = (Inr (map snd (cl_pools w)), w)"
  "Get_Node (mem_pool_env env) = mem_get_node" "Update_Node (mem_pool_env env) = mem_update_node"
  "ContainsFinalizer (mem_pool_env env) fs f \<longleftrightarrow> f \<in> set fs"
  "AddFinalizer (mem_pool_env env) fs f = (if f \<in> set fs then fs else fs @ [f])"
  "RemoveFinalizer (mem_pool_env env) fs f = filter (\<lambda>g. g \<noteq> f) fs"
  "cmp_Diff_map (mem_pool_env env) = mem_diff" "cmp_Diff_taints (mem_pool_env env) = mem_diff"
  "cmp_Equal_map (mem_pool_env env) = (=)" "cmp_Equal_taints (mem_pool_env env) = (=)"
  "cmp_Equal_conds (mem_pool_env env) = (=)"
  by (simp_all add: mem_pool_env_def mem_base_def base_env.defs)

lemma mem_cmp_laws: "cmp_laws (mem_pool_env env)"
  by (simp add: cmp_laws_def mem_diff_def)

lemma mem_nodes_simps [simp]:
  "mem_nodes (w\<lparr>cl_clock := c\<rparr>) = mem_nodes w"
  "mem_nodes (w\<lparr>cl_events := es\<rparr>) = mem_nodes w"
  "mem_nodes (w\<lparr>cl_nodes := (cl_nodes w)(node_Name n \<mapsto> n)\<rparr>) = (mem_nodes w)(node_Name n \<mapsto> n)"
  by (auto simp: mem_nodes_def fun_eq_iff)

lemma mem_node_api: "node_api_total (mem_pool_env env) mem_nodes"
proof -
  have "node_Name n = k" if "mem_nodes w k = Some n" for w k n
    using that by (auto simp: mem_nodes_def split: option.splits if_splits)
  then show ?thesis
    by (auto simp: node_api_total_def node_api_def mem_get_node_def mem_update_node_def
        mem_now_def mem_event_def split: option.splits)
qed

subsection \<open>The Machine controller's services\<close>

lemma mem_put_new: "map_of xs k = None \<Longrightarrow> map_of (xs @ [(k, x)]) a = (if a = k then Some x else map_of xs a)"
  by (induction xs) (auto split: if_splits)

lemma mem_put_old:
  "map_of (map (\<lambda>(j, y). (j, if j = k then x else y)) xs) a =
     (if a = k then (case map_of xs k of None \<Rightarrow> None | Some _ \<Rightarrow> Some x) else map_of xs a)"
  by (induction xs) (auto split: if_splits)

lemma mem_put_lookup [simp]: "map_of (mem_put k x xs) = (map_of xs)(k \<mapsto> x)"
proof (cases "map_of xs k")
  case None
  then have "k \<notin> fst ` set xs" by (simp only: map_of_eq_None_iff not_False_eq_True)
  with mem_put_new [OF None] show ?thesis by (simp add: mem_put_def fun_eq_iff)
next
  case (Some y)
  then have "k \<in> fst ` set xs" by (metis map_of_eq_None_iff option.distinct(1))
  with Some mem_put_old [of k x xs] show ?thesis by (simp add: mem_put_def fun_eq_iff)
qed

definition mem_upsert ::
    "('o \<Rightarrow> ObjectKey) \<Rightarrow> (cluster \<Rightarrow> ObjectKey \<rightharpoonup> 'o) \<Rightarrow> (ObjectKey \<Rightarrow> 'o \<Rightarrow> cluster \<Rightarrow> cluster) \<Rightarrow>
     ('o, cluster) create_or_update" where
  "mem_upsert key store put obj f w =
     (case f (case store w (key obj) of None \<Rightarrow> obj | Some stored \<Rightarrow> stored) w of
        (Inl e, w1) \<Rightarrow> (Inl e, w1)
      | (Inr obj', w1) \<Rightarrow>
          (Inr (case store w (key obj) of
                  None \<Rightarrow> OperationResultCreated
                | Some stored \<Rightarrow> (if stored = obj' then OperationResultNone else OperationResultUpdated)),
           put (key obj) obj' w1))"

lemma mem_upsert_api:
  assumes "\<And>k x w. store (put k x w) = (store w)(k \<mapsto> x)"
  shows "create_or_update_api key (mem_upsert key store put) store"
  unfolding create_or_update_api_def
proof (intro allI impI)
  fix obj f w res w' assume run: "mem_upsert key store put obj f w = (Inr res, w')"
  let ?old = "case store w (key obj) of None \<Rightarrow> obj | Some stored \<Rightarrow> stored"
  from run obtain obj' w1 where f: "f ?old w = (Inr obj', w1)"
    by (auto simp: mem_upsert_def split: prod.splits sum.splits)
  with run show "\<exists>obj' w1. f ?old w = (Inr obj', w1) \<and> store w' = (store w1)(key obj \<mapsto> obj') \<and>
      (res = OperationResultNone \<longleftrightarrow> store w (key obj) = Some obj')"
    by (intro exI [of _ obj'] exI [of _ w1])
      (auto simp: mem_upsert_def assms split: option.splits if_splits)
qed

lemma mem_upsert_preserves:
  assumes "\<And>k x w. view (put k x w) = view w" and "\<forall>x. preserves view (f x)"
  shows "preserves view (mem_upsert key store put obj f)"
proof -
  have "view (snd (f x w)) = view w" for x w using assms(2) by (simp add: preserves_def)
  then show ?thesis
    using assms(1) by (auto simp: preserves_def mem_upsert_def split: prod.split sum.split) (metis snd_conv)+
qed

definition mem_set_owner :: "Machine \<Rightarrow> ObjectMeta \<Rightarrow> goerr + ObjectMeta" where
  "mem_set_owner m meta =
     (let refs = OwnerReferences meta; owner = Name (m_Meta m)
      in Inr (meta\<lparr>OwnerReferences := (if owner \<in> set refs then refs else refs @ [owner])\<rparr>))"

definition mem_list_pods :: "string \<Rightarrow> smap \<Rightarrow> cluster \<Rightarrow> (goerr + Pod list) \<times> cluster" where
  "mem_list_pods ns sel w =
     (Inr (filter (\<lambda>p. (ns = [] \<or> Namespace (pod_Meta p) = ns) \<and> selects sel (Labels (pod_Meta p)))
             (cl_pods w)), w)"

definition mem_get_namespace :: "string \<Rightarrow> cluster \<Rightarrow> (goerr + ObjectMeta) \<times> cluster" where
  "mem_get_namespace name w =
     (case cl_namespaces w name of None \<Rightarrow> Inl (NotFound name) | Some m \<Rightarrow> Inr m, w)"

definition mem_list_machines :: "smap \<Rightarrow> cluster \<Rightarrow> (goerr + Machine list) \<times> cluster" where
  "mem_list_machines sel w =
     (Inr (filter (\<lambda>m. selects sel (Labels (m_Meta m))) (map snd (cl_machines w))), w)"

abbreviation mem_pools :: "cluster \<Rightarrow> ObjectKey \<rightharpoonup> MachineNodePool" where
  "mem_pools w \<equiv> map_of (cl_pools w)"

definition mem_mach_env :: "environ \<Rightarrow> cluster mach_env" where
  "mem_mach_env env = base_env.extend (mem_base env)
     \<lparr>Get_Machine = (\<lambda>key w. (mem_get (cl_machines w) key, w)),
      StatusUpdate_Machine = mem_write_machine,
      List_Machines = mem_list_machines,
      Get_Namespace = mem_get_namespace,
      List_Pods = mem_list_pods,
      CreateOrUpdate_Pool = mem_upsert pool_key mem_pools
        (\<lambda>k p w. w\<lparr>cl_pools := mem_put k p (cl_pools w)\<rparr>),
      CreateOrUpdate_Sts = mem_upsert sts_key cl_sts (\<lambda>k s w. w\<lparr>cl_sts := (cl_sts w)(k \<mapsto> s)\<rparr>),
      CreateOrUpdate_Svc = mem_upsert svc_key cl_svc (\<lambda>k s w. w\<lparr>cl_svc := (cl_svc w)(k \<mapsto> s)\<rparr>),
      SetControllerReference = mem_set_owner,
      mergo_Map = (\<lambda>dst src. Inr (dst ++ src)),
      cmp_Diff_avail = mem_diff\<rparr>"

lemma mem_mach_env_sel [simp]:
  "os_environ (mem_mach_env env) = env" "metav1_Now (mem_mach_env env) = mem_now"
  "Recorder_Eventf (mem_mach_env env) = mem_event"
  "meta_SetStatusCondition (mem_mach_env env) = mem_set_condition"
  "Time_IsZero (mem_mach_env env) t \<longleftrightarrow> t = None"
  "Get_Machine (mem_mach_env env) key w = (mem_get (cl_machines w) key, w)"
  "StatusUpdate_Machine (mem_mach_env env) = mem_write_machine"
  "List_Machines (mem_mach_env env) = mem_list_machines"
  "Get_Namespace (mem_mach_env env) = mem_get_namespace"
  "List_Pods (mem_mach_env env) = mem_list_pods"
  "CreateOrUpdate_Pool (mem_mach_env env) = mem_upsert pool_key mem_pools
        (\<lambda>k p w. w\<lparr>cl_pools := mem_put k p (cl_pools w)\<rparr>)"
  "CreateOrUpdate_Sts (mem_mach_env env) =
     mem_upsert sts_key cl_sts (\<lambda>k s w. w\<lparr>cl_sts := (cl_sts w)(k \<mapsto> s)\<rparr>)"
  "CreateOrUpdate_Svc (mem_mach_env env) =
     mem_upsert svc_key cl_svc (\<lambda>k s w. w\<lparr>cl_svc := (cl_svc w)(k \<mapsto> s)\<rparr>)"
  "SetControllerReference (mem_mach_env env) = mem_set_owner"
  "mergo_Map (mem_mach_env env) dst src = Inr (dst ++ src)"
  "cmp_Diff_avail (mem_mach_env env) = mem_diff"
  by (simp_all add: mem_mach_env_def mem_base_def base_env.defs)

lemma mem_preserves:
  "(\<And>w c. view (w\<lparr>cl_clock := c\<rparr>) = view w) \<Longrightarrow> preserves view mem_now"
  "(\<And>w ms. view (w\<lparr>cl_machines := ms\<rparr>) = view w) \<Longrightarrow> preserves view (mem_write_machine m)"
  "preserves view (mem_list_pods ns sel)" "preserves view (mem_get_namespace name)"
  "preserves view (mem_list_machines sel)"
  by (simp_all add: preserves_def mem_now_def mem_write_machine_def mem_list_pods_def
      mem_get_namespace_def mem_list_machines_def)

lemma mem_owner_laws: "owner_laws (mem_set_owner m)"
  unfolding owner_laws_def
proof (intro allI impI)
  fix meta meta' assume "mem_set_owner m meta = Inr meta'"
  then have m: "meta' = meta\<lparr>OwnerReferences := (if Name (m_Meta m) \<in> set (OwnerReferences meta)
      then OwnerReferences meta else OwnerReferences meta @ [Name (m_Meta m)])\<rparr>"
    by (simp add: mem_set_owner_def Let_def)
  then have "\<exists>refs. meta' = meta\<lparr>OwnerReferences := refs\<rparr>" by (rule exI)
  then show "(\<exists>refs. meta' = meta\<lparr>OwnerReferences := refs\<rparr>) \<and> mem_set_owner m meta' = Inr meta'"
    by (simp add: m mem_set_owner_def Let_def)
qed

lemma mem_machine_status_laws: "machine_status_laws (mem_mach_env env)"
  by (auto simp: machine_status_laws_def mem_write_machine_def)

lemma mem_pod_list_api: "pod_list_api (mem_mach_env env) cl_pods"
  by (simp add: pod_list_api_def mem_preserves) (simp add: mem_list_pods_def)

lemma mem_pool_stage_laws: "pool_stage_laws (mem_mach_env env) mem_pools"
  unfolding pool_stage_laws_def
  by (intro conjI allI)
    (simp_all add: mem_owner_laws mem_machine_status_laws mem_preserves mem_upsert_api)

lemma mem_sts_stage_laws: "sts_stage_laws (mem_mach_env env) cl_sts cl_pods"
  unfolding sts_stage_laws_def
  by (intro conjI allI impI)
    (simp_all add: mem_owner_laws mem_machine_status_laws mem_preserves mem_upsert_api
      mem_upsert_preserves mem_pod_list_api)

lemma mem_svc_stage_laws: "svc_stage_laws (mem_mach_env env) cl_svc"
  unfolding svc_stage_laws_def
  by (intro conjI allI)
    (simp_all add: mem_owner_laws mem_machine_status_laws mem_preserves mem_upsert_api)

lemma mem_status_laws: "status_laws (mem_mach_env env) cl_pods cl_namespaces"
  unfolding status_laws_def
  by (simp add: mem_pod_list_api mem_preserves mergo_laws_def)
    (simp add: mem_get_namespace_def split: option.split)

subsection \<open>The webhooks' services\<close>

definition mem_webhook_env :: "Node list \<Rightarrow> cluster webhook_env" where
  "mem_webhook_env ns = \<lparr>wh_List_Machines = mem_list_machines, wh_List_Nodes = (\<lambda>w. (Inr ns, w)),
     Quantity_Value = (\<lambda>q. if q = Quantity ''-1'' then -1 else 1)\<rparr>"

definition mem_injector_env :: "Pod \<Rightarrow> cluster injector_env" where
  "mem_injector_env p =
     \<lparr>inj_Decode = (\<lambda>_. Inr p), inj_Marshal = (\<lambda>_. Inr ''{}''),
      inj_Get_Pod = (\<lambda>key w.
        (case find (\<lambda>p. ObjectKeyFromMeta (pod_Meta p) = key) (cl_pods w) of
           None \<Rightarrow> Inl (NotFound (snd key)) | Some p \<Rightarrow> Inr p, w)),
      inj_List_Machines = mem_list_machines\<rparr>"

lemma mem_injector_env_sel [simp]:
  "inj_Decode (mem_injector_env p) raw = Inr p" "inj_Marshal (mem_injector_env p) q = Inr ''{}''"
  "inj_Get_Pod (mem_injector_env p) key w =
     (case find (\<lambda>p. ObjectKeyFromMeta (pod_Meta p) = key) (cl_pods w) of
        None \<Rightarrow> Inl (NotFound (snd key)) | Some p \<Rightarrow> Inr p, w)"
  "inj_List_Machines (mem_injector_env p) = mem_list_machines"
  by (simp_all add: mem_injector_env_def)

lemma mem_webhook_env_sel [simp]:
  "wh_List_Machines (mem_webhook_env ns) = mem_list_machines"
  "wh_List_Nodes (mem_webhook_env ns) w = (Inr ns, w)"
  "Quantity_Value (mem_webhook_env ns) q = (if q = Quantity ''-1'' then -1 else 1)"
  by (simp_all add: mem_webhook_env_def)

end
