(* ===== verification/NodePoolProps.thy ===== *)
theory NodePoolProps
  imports Cluster
begin

text \<open>
  The properties of the node pool controller, each with its witness: a run of the model in the
  in-memory cluster of the theory \<open>Cluster\<close> on the pool below, which has a tainted entry with
  two machine types and an entry in maintenance without taints.
\<close>

definition node_of :: "string \<Rightarrow> smap \<Rightarrow> Taint list \<Rightarrow> Node" where
  "node_of name ls ts = \<lparr>n_Meta = zero_meta\<lparr>Name := name, Labels := ls\<rparr>, n_Taints = ts\<rparr>"

lemma node_of_sel [simp]:
  "node_Name (node_of name ls ts) = name" "node_Labels (node_of name ls ts) = ls"
  "n_Taints (node_of name ls ts) = ts" "node_Annotations (node_of name ls ts) = Map.empty"
  by (simp_all add: node_of_def zero_meta_def)

definition ex_entry :: NodePool where
  "ex_entry = \<lparr>np_Name = ''n1'', np_Mode = NodeModeReady, np_Taint = True,
     np_MachineType = [\<lparr>npmt_Name = ''a100''\<rparr>, \<lparr>npmt_Name = ''v100''\<rparr>]\<rparr>"

definition ex_entry2 :: NodePool where
  "ex_entry2 = \<lparr>np_Name = ''n2'', np_Mode = NodeModeMaintenance, np_Taint = False,
     np_MachineType = [\<lparr>npmt_Name = ''v100''\<rparr>]\<rparr>"

definition pool_of :: "NodePool list \<Rightarrow> MachineNodePool" where
  "pool_of ps = \<lparr>p_Meta = zero_meta\<lparr>Name := ''team-node-pool''\<rparr>,
     p_Spec = \<lparr>mnp_MachineGroupName = ''team'', mnp_NodePool = ps, mnp_MachineTypeStock = []\<rparr>,
     p_Status = \<lparr>mnps_Conditions = [], mnps_NodePoolCondition = []\<rparr>\<rparr>"

lemma pool_of_sel [simp]: "entries (pool_of ps) = ps" "group_of (pool_of ps) = ''team''"
  by (simp_all add: pool_of_def)

definition ex_pool :: MachineNodePool where
  "ex_pool = pool_of [ex_entry, ex_entry2]"

definition ex_taint :: Taint where
  "ex_taint = \<lparr>taint_Key = ''example.com/gpu'', taint_Value = ''yes'', taint_Effect = ''NoExecute'',
     taint_TimeAdded = None\<rparr>"

definition ex_cluster :: cluster where
  "ex_cluster = empty_cluster\<lparr>cl_nodes :=
     [''n1'' \<mapsto> node_of ''n1'' Map.empty [new_taint 0 MachineStatusKey NodeModeReady, ex_taint],
      ''n2'' \<mapsto> node_of ''n2'' [''zone'' \<mapsto> ''a''] []],
     cl_clock := 7\<rparr>"

abbreviation ex_env :: "cluster pool_env" where
  "ex_env \<equiv> mem_pool_env Map.empty"

lemma ex_pool_wf: "pool_wf ex_pool"
  by (simp add: pool_wf_def entry_wf_def ex_pool_def ex_entry_def ex_entry2_def)

lemma ex_nodes:
  "mem_nodes ex_cluster =
     [''n1'' \<mapsto> node_of ''n1'' Map.empty [new_taint 0 MachineStatusKey NodeModeReady, ex_taint],
      ''n2'' \<mapsto> node_of ''n2'' [''zone'' \<mapsto> ''a''] []]"
  by (auto simp: mem_nodes_def ex_cluster_def fun_eq_iff)

lemma ex_keys: "entry_keys ex_entry = [''imperator.tenzen-y.io/a100'', ''imperator.tenzen-y.io/v100'']"
  by (simp add: ex_entry_def GroupVersion_Group_def)

lemma ex_unique: "taints_unique ex_pool (mem_nodes ex_cluster)"
  by (simp add: taints_unique_def ex_nodes ex_keys own_unique_def ex_pool_def ex_entry2_def ex_taint_def
      MachineStatusKey_def ex_entry_def)

subsection \<open>The edit of one Node\<close>

text \<open>
  C1: refinement of the edit. On a pool with one entry per Node, removing what an earlier run
  wrote and then setting annotation, labels and taints (lines 224-317) never panics and gives
  exactly the Node of the specification \<open>prepared\<close>: the status label and one label per
  machine type are set, every other label is kept, and for a tainted entry the managed taints
  follow all foreign taints, which are kept in their order. The hypothesis on the taints is
  what every Node has that only this controller has tainted.
\<close>
theorem node_edit_refines:
  assumes "distinct (map np_Name (entries pool))" and "p \<in> set (entries pool)"
    and "node_Name n = np_Name p"
    and "np_Taint p \<Longrightarrow> own_unique (managed_keys p) (n_Taints n)"
  shows "rbind (cleanupOldEnv pool p n) (\<lambda>n'. Ret (setNode env pool p now n'))
    = Ret (prepared env pool p now n)"
  by (rule edit_refines [OF assms])

definition ex_node :: Node where
  "ex_node = node_of ''n1'' [''zone'' \<mapsto> ''b'']
     [new_taint 0 MachineStatusKey NodeModeNotReady, ex_taint, new_taint 0 ''imperator.tenzen-y.io/v100'' ''team'']"

theorem node_edit_refines_witness:
  "rbind (cleanupOldEnv ex_pool ex_entry ex_node) (\<lambda>n'. Ret (setNode Map.empty ex_pool ex_entry 9 n'))
    = Ret (prepared Map.empty ex_pool ex_entry 9 ex_node)"
proof (rule node_edit_refines)
  show "own_unique (managed_keys ex_entry) (n_Taints ex_node)"
    by (simp add: own_unique_def ex_keys ex_node_def MachineStatusKey_def ex_taint_def)
qed (simp_all add: ex_pool_def ex_entry_def ex_entry2_def ex_node_def)

text \<open>
  C20: when the controller panics. One iteration of the loop over the pool crashes the
  controller exactly when the entry is tainted, its Node could be read, and that Node carries
  the machine status taint at least twice with one of them in the last place: the loop that
  deletes these taints ranges over the slice it shrinks (lines 195-200).
\<close>
theorem reconcileNode_panics_iff:
  "fst (reconcileNode_step E pool p w) = Panic \<longleftrightarrow>
     (\<exists>n. fst (Get_Node E ([], np_Name p) w) = Inr n \<and> np_Taint p \<and>
        2 \<le> count_key MachineStatusKey (n_Taints n) \<and> is_status (last (n_Taints n)))"
proof -
  have "fst (reconcileNode_step E pool p w) = Panic \<longleftrightarrow>
      (\<exists>n. fst (Get_Node E ([], np_Name p) w) = Inr n \<and> cleanupOldEnv pool p n = Panic)"
    by (auto simp: step_run Let_def split: sum.splits gores.splits)
  moreover have "cleanupOldEnv pool p n = Panic \<longleftrightarrow>
      np_Taint p \<and> 2 \<le> count_key MachineStatusKey (n_Taints n) \<and> is_status (last (n_Taints n))" for n
    by (simp add: cleanupOldEnv_def Let_def removeNodeTaint_panic)
  ultimately show ?thesis by simp
qed

subsection \<open>The loop over the pool\<close>

text \<open>
  C2: a run that returns without error leaves every Node of the pool prepared, whichever calls
  of the API server it needed: labels, and for tainted entries taints, are those of the
  specification with the status computed from the Node's own taints.
\<close>
theorem reconcileNode_prepares:
  assumes "node_api E nodes" and "cmp_laws E" and "pool_wf pool" and "taints_unique pool (nodes w)"
    and "reconcileNode E pool w = (Ret (Inr ()), w')"
  shows "pool_prepared (os_environ E) pool (nodes w')"
  using reconcileNode_establishes [OF assms] by blast

theorem reconcileNode_prepares_witness:
  "pool_prepared Map.empty ex_pool (mem_nodes (snd (reconcileNode ex_env ex_pool ex_cluster)))"
proof -
  have "\<exists>w'. reconcileNode ex_env ex_pool ex_cluster = (Ret (Inr ()), w')"
    by (rule reconcileNode_succeeds [OF mem_node_api mem_cmp_laws ex_pool_wf ex_unique])
      (simp add: ex_nodes ex_pool_def ex_entry_def ex_entry2_def)
  then have run: "reconcileNode ex_env ex_pool ex_cluster =
      (Ret (Inr ()), snd (reconcileNode ex_env ex_pool ex_cluster))"
    by auto
  show ?thesis
    using reconcileNode_prepares [OF node_api_totalD(1) [OF mem_node_api] mem_cmp_laws ex_pool_wf
        ex_unique run] by simp
qed

text \<open>
  C32: with an API server that does not fail and Nodes that all exist, a run does return
  without error, never panics, and leaves the pool prepared.
\<close>
theorem reconcileNode_total:
  assumes "node_api_total E nodes" and "cmp_laws E" and "pool_wf pool"
    and "taints_unique pool (nodes w)" and "\<forall>p \<in> set (entries pool). nodes w (np_Name p) \<noteq> None"
  shows "\<exists>w'. reconcileNode E pool w = (Ret (Inr ()), w') \<and> taints_unique pool (nodes w') \<and>
    pool_prepared (os_environ E) pool (nodes w')"
proof -
  obtain w' where w': "reconcileNode E pool w = (Ret (Inr ()), w')"
    using reconcileNode_succeeds [OF assms] by blast
  with reconcileNode_establishes [OF node_api_totalD(1) [OF assms(1)] assms(2-4) w'] show ?thesis by blast
qed

theorem reconcileNode_total_witness:
  "\<exists>w'. reconcileNode ex_env ex_pool ex_cluster = (Ret (Inr ()), w') \<and>
     taints_unique ex_pool (mem_nodes w') \<and> pool_prepared Map.empty ex_pool (mem_nodes w')"
  using reconcileNode_total [OF mem_node_api mem_cmp_laws ex_pool_wf ex_unique]
  by (simp add: ex_nodes ex_pool_def ex_entry_def ex_entry2_def)

text \<open>
  C29: the frame of a run, whatever its outcome (success, error or panic, any failing calls):
  Nodes outside the pool are untouched, and a Node of the pool keeps its other meta data, every
  label, annotation and taint the controller does not manage, and all taints when its entry is
  not tainted.
\<close>
theorem reconcileNode_frame:
  assumes "node_api E nodes" and "distinct (map np_Name (entries pool))"
  shows "nodes_unmanaged_same pool (nodes w) (nodes (snd (reconcileNode E pool w)))"
  by (rule reconcileNode_unmanaged [OF assms])

theorem reconcileNode_frame_witness:
  "nodes_unmanaged_same ex_pool (mem_nodes ex_cluster)
     (mem_nodes (snd (reconcileNode ex_env ex_pool ex_cluster)))"
  using reconcileNode_frame [OF node_api_totalD(1) [OF mem_node_api] pool_wfD(1) [OF ex_pool_wf]] .

subsection \<open>Runs after the first\<close>

text \<open>
  C36: idempotence for pools without taints. On a prepared pool a run sends no update at all
  (it behaves alike whatever updates would answer) and leaves every Node as it is. Prepared
  does not ask for the annotation: a Node that lost only its annotation is not repaired, since
  lines 319-331 compare labels and taints alone.
\<close>
theorem reconcileNode_quiet:
  assumes "node_api E nodes" and "cmp_laws E" and "distinct (map np_Name (entries pool))"
    and "pool_prepared (os_environ E) pool (nodes w)"
    and "\<forall>p \<in> set (entries pool). \<not> np_Taint p"
  shows "reconcileNode (E\<lparr>Update_Node := U\<rparr>) pool w = reconcileNode E pool w \<and>
    nodes (snd (reconcileNode E pool w)) = nodes w"
  unfolding reconcileNode_def by (rule loop_quiet [OF assms(1-3) subset_refl assms(4,5)])

definition ex_quiet_pool :: MachineNodePool where
  "ex_quiet_pool = pool_of [ex_entry2]"

definition ex_quiet_cluster :: cluster where
  "ex_quiet_cluster = empty_cluster\<lparr>cl_nodes := [''n2'' \<mapsto> prepared Map.empty ex_quiet_pool ex_entry2 0
     (node_of ''n2'' [''zone'' \<mapsto> ''a''] [])]\<rparr>"

theorem reconcileNode_quiet_witness:
  "reconcileNode (ex_env\<lparr>Update_Node := \<lambda>n w. (Inl (ApiErr ''refused''), w)\<rparr>) ex_quiet_pool ex_quiet_cluster
     = reconcileNode ex_env ex_quiet_pool ex_quiet_cluster \<and>
   mem_nodes (snd (reconcileNode ex_env ex_quiet_pool ex_quiet_cluster)) = mem_nodes ex_quiet_cluster"
proof (rule reconcileNode_quiet)
  show "node_api ex_env mem_nodes" by (rule node_api_totalD(1) [OF mem_node_api])
  show "cmp_laws ex_env" by (rule mem_cmp_laws)
  have "mem_nodes ex_quiet_cluster ''n2'' =
      Some (prepared Map.empty ex_quiet_pool ex_entry2 0 (node_of ''n2'' [''zone'' \<mapsto> ''a''] []))"
    by (simp add: mem_nodes_def ex_quiet_cluster_def prepared_def)
  then show "pool_prepared (os_environ ex_env) ex_quiet_pool (mem_nodes ex_quiet_cluster)"
    using node_prepared_prepared by (simp add: pool_prepared_def ex_quiet_pool_def ex_entry2_def)
qed (simp_all add: ex_quiet_pool_def ex_entry2_def)

text \<open>
  C37: a tainted entry is written again by every run. Whatever the Node looks like, also when it
  is prepared already, the run stores it once more unless one of its managed taints has the
  current time: every run puts the current time into the taints (line 278), so the comparison
  with the Node read never finds them equal.
\<close>
theorem tainted_node_rewritten:
  assumes "node_api_total E nodes" and "cmp_laws E" and "pool_wf pool" and "p \<in> set (entries pool)"
    and "np_Taint p" and "nodes w (np_Name p) = Some n" and "own_unique (managed_keys p) (n_Taints n)"
    and "now = fst (metav1_Now E (snd (Get_Node E ([], np_Name p) w)))"
    and "\<forall>t \<in> set (n_Taints n). taint_TimeAdded t \<noteq> Some now"
  shows "reconcileNode_step E pool p w = (Ret (Inr ()), snd (reconcileNode_step E pool p w)) \<and>
    nodes (snd (reconcileNode_step E pool p w)) = (nodes w)(np_Name p \<mapsto> prepared (os_environ E) pool p now n)"
proof -
  note api = node_api_totalD(1) [OF assms(1)]
  have name: "node_Name n = np_Name p" by (rule node_apiD(1) [OF api assms(6)])
  let ?r = "Get_Node E ([], np_Name p) w"
  let ?n = "prepared (os_environ E) pool p now n"
  have r: "fst ?r = Inr n" using node_api_totalD(2) [OF assms(1), of w "([], np_Name p)"] assms(6) by simp
  obtain n1 where n1: "cleanupOldEnv pool p n = Ret n1" "setNode (os_environ E) pool p now n1 = ?n"
    using edit_refines [OF pool_wfD(1) [OF assms(3)] assms(4) name assms(7), of "os_environ E" now]
    by (cases "cleanupOldEnv pool p n") auto
  let ?w = "snd (metav1_Now E (snd ?r))"
  have nodes: "nodes ?w = nodes w" by (simp add: node_apiD [OF api])
  have "new_taint now MachineStatusKey (expected_status (os_environ E) p (n_Taints n)) \<in> set (n_Taints ?n)"
    using assms(5) by (simp add: prepared_def managed_taints_def)
  with assms(9) have "n_Taints n \<noteq> n_Taints ?n" by force
  moreover have "node_Name ?n = np_Name p" using name by (simp add: prepared_def)
  moreover from this obtain n3 where "fst (Update_Node E ?n ?w) = Inr n3"
    using node_api_totalD(4) [OF assms(1), of ?w ?n] nodes assms(6) by auto
  ultimately show ?thesis
    using r n1 nodes assms(5) node_apiD(4) [OF api, of ?n ?w]
    by (simp add: step_run Let_def step_now_def cmp_lawsD [OF assms(2)] flip: assms(8))
qed

theorem tainted_node_rewritten_witness:
  "mem_nodes (snd (reconcileNode_step ex_env ex_pool ex_entry ex_cluster)) =
     (mem_nodes ex_cluster)(''n1'' \<mapsto> prepared Map.empty ex_pool ex_entry 7
        (node_of ''n1'' Map.empty [new_taint 0 MachineStatusKey NodeModeReady, ex_taint]))"
proof -
  have "mem_nodes (snd (reconcileNode_step ex_env ex_pool ex_entry ex_cluster)) =
      (mem_nodes ex_cluster)(np_Name ex_entry \<mapsto> prepared (os_environ ex_env) ex_pool ex_entry 7
        (node_of ''n1'' Map.empty [new_taint 0 MachineStatusKey NodeModeReady, ex_taint]))"
    by (rule tainted_node_rewritten [OF mem_node_api mem_cmp_laws ex_pool_wf, THEN conjunct2])
      (simp_all add: ex_nodes own_unique_def ex_keys MachineStatusKey_def ex_taint_def mem_get_node_def
        mem_now_def, simp_all add: ex_pool_def ex_entry_def ex_cluster_def)
  then show ?thesis by (simp add: ex_entry_def)
qed

subsection \<open>The deletion of a pool\<close>

text \<open>
  C7: what a cleanup does, exactly. Against an API server that does not fail it returns without
  error, and the Nodes cleaned are those of the longest prefix of the pool whose Nodes exist
  and carry something to remove: at the first Node that is gone or clean already the function
  returns (lines 128-153), and the Nodes after it keep their labels and taints although the
  caller then removes the finalizer. A cleaned Node has lost the group annotation, the status
  label, the group's own machine type labels and all managed taints, nothing else.
\<close>
theorem cleanupNode_exact:
  assumes "node_api_total E nodes" and "cmp_laws E" and "distinct (map np_Name (entries pool))"
    and "\<forall>p \<in> set (entries pool). \<forall>n. nodes w (np_Name p) = Some n \<longrightarrow> own_unique (managed_keys p) (n_Taints n)"
  shows "\<exists>w'. cleanupNode E pool w = (Ret (Inr ()), w') \<and>
    nodes w' = (\<lambda>k. case find (\<lambda>p. np_Name p = k) (takeWhile (dirty pool (nodes w)) (entries pool)) of
      None \<Rightarrow> nodes w k | Some p \<Rightarrow> map_option (cleaned pool p) (nodes w k))"
  unfolding cleanupNode_def by (rule cleanup_loop_exact [OF assms(1-3) subset_refl assms(3,4)])

definition ex_skip_pool :: MachineNodePool where
  "ex_skip_pool = pool_of [ex_entry2, ex_entry]"

theorem cleanupNode_exact_witness:
  "\<exists>w'. cleanupNode ex_env ex_skip_pool (ex_cluster\<lparr>cl_nodes := (cl_nodes ex_cluster)(''n2'' := None)\<rparr>)
       = (Ret (Inr ()), w') \<and>
     mem_nodes w' ''n1'' = Some (node_of ''n1'' Map.empty [new_taint 0 MachineStatusKey NodeModeReady, ex_taint])"
proof -
  let ?w = "ex_cluster\<lparr>cl_nodes := (cl_nodes ex_cluster)(''n2'' := None)\<rparr>"
  have nodes: "mem_nodes ?w = [''n1'' \<mapsto> node_of ''n1'' Map.empty [new_taint 0 MachineStatusKey NodeModeReady, ex_taint]]"
    by (auto simp: mem_nodes_def ex_cluster_def fun_eq_iff)
  have uniq: "\<forall>p \<in> set (entries ex_skip_pool). \<forall>n. mem_nodes ?w (np_Name p) = Some n \<longrightarrow>
      own_unique (managed_keys p) (n_Taints n)"
    unfolding nodes
    by (simp add: own_unique_def ex_keys ex_skip_pool_def ex_entry2_def ex_taint_def MachineStatusKey_def)
  have "distinct (map np_Name (entries ex_skip_pool))"
    by (simp add: ex_skip_pool_def ex_entry_def ex_entry2_def)
  from cleanupNode_exact [OF mem_node_api mem_cmp_laws this uniq, of Map.empty]
  obtain w' where w': "cleanupNode ex_env ex_skip_pool ?w = (Ret (Inr ()), w')"
    and nodes': "mem_nodes w' = (\<lambda>k. case find (\<lambda>p. np_Name p = k)
        (takeWhile (dirty ex_skip_pool (mem_nodes ?w)) (entries ex_skip_pool)) of
      None \<Rightarrow> mem_nodes ?w k | Some p \<Rightarrow> map_option (cleaned ex_skip_pool p) (mem_nodes ?w k))"
    by blast
  have "takeWhile (dirty ex_skip_pool (mem_nodes ?w)) (entries ex_skip_pool) = []"
    unfolding nodes by (simp add: ex_skip_pool_def dirty_def ex_entry2_def)
  with nodes' have "mem_nodes w' ''n1'' =
      Some (node_of ''n1'' Map.empty [new_taint 0 MachineStatusKey NodeModeReady, ex_taint])"
    by (simp add: nodes)
  with w' show ?thesis by blast
qed

text \<open>
  C34: the finalizer guards the Nodes. A run on a pool that does not carry the controller's
  finalizer, be it live or being deleted, leaves every Node as it is: the finalizer is stored
  before the first label or taint is.
\<close>
theorem finalizer_guards_nodes:
  assumes "\<not> ContainsFinalizer E (Finalizers (p_Meta pool)) MachineNodePoolFinalizer"
    and "\<And>p. preserves nodes (Update_Pool E p)" and "\<And>s w. nodes (Recorder_Eventf E s w) = nodes w"
  shows "nodes (snd (pool_reconcile E pool w)) = nodes w"
  using assms(1,3) preservesD [OF assms(2)]
  by (simp add: pool_reconcile_def updatePool_event_def Let_def act_simps split: sum.split)

theorem finalizer_guards_nodes_witness:
  "mem_nodes (snd (pool_reconcile ex_env ex_pool ex_cluster)) = mem_nodes ex_cluster"
proof (rule finalizer_guards_nodes)
  show "preserves mem_nodes (Update_Pool ex_env p)" for p
    by (auto simp: preserves_def mem_update_pool_def mem_nodes_def fun_eq_iff Let_def split: option.split)
qed (simp_all add: mem_event_def ex_pool_def pool_of_def zero_meta_def)

text \<open>
  C35: the finalizer stays until the cleanup has returned without error. When a pool is being
  deleted and its cleanup fails or panics, the run does not update the pool: it behaves alike
  whatever updating the pool would do.
\<close>
theorem finalizer_kept_on_error:
  assumes "\<not> Time_IsZero E (DeletionTimestamp (p_Meta pool))"
    and "fst (cleanupNode E pool w) \<noteq> Ret (Inr ())"
  shows "pool_reconcile (E\<lparr>Update_Pool := U\<rparr>) pool w = pool_reconcile E pool w"
proof -
  have loop: "cleanupNode_loop (E\<lparr>Update_Pool := U\<rparr>) pool ps = cleanupNode_loop E pool ps" for ps
    by (induction ps) (simp_all add: Let_def cong: sum.case_cong if_cong)
  show ?thesis
    using assms
    by (auto simp: pool_reconcile_def cleanupNode_def loop Let_def act_simps split: gores.split sum.split)
qed

definition ex_deleted_pool :: MachineNodePool where
  "ex_deleted_pool = ex_pool\<lparr>p_Meta := zero_meta
     \<lparr>Name := ''team-node-pool'', DeletionTimestamp := Some 3, Finalizers := [MachineNodePoolFinalizer]\<rparr>\<rparr>"

abbreviation down_env :: "cluster pool_env" where
  "down_env \<equiv> ex_env\<lparr>Get_Node := \<lambda>k w. (Inl (ApiErr ''no connection''), w)\<rparr>"

theorem finalizer_kept_on_error_witness:
  "pool_reconcile (down_env\<lparr>Update_Pool := \<lambda>p w. (Inl (ApiErr ''x''), w)\<rparr>) ex_deleted_pool ex_cluster
     = pool_reconcile down_env ex_deleted_pool ex_cluster"
  by (rule finalizer_kept_on_error)
    (simp_all add: ex_deleted_pool_def ex_pool_def cleanupNode_def act_simps ignoreNotFound_def)

subsection \<open>Status, results and events\<close>

text \<open>
  C33: the status tells what the run found. After a run of \<open>reconcileNode\<close> the loop of
  \<open>updateStatus\<close> gives one condition per entry of the pool, in order: \<open>Maintenance\<close> for an entry
  in maintenance, otherwise \<open>Unhealthy\<close> exactly when the Node carries one of the taints that
  make it unusable, and else \<open>Healthy\<close>; the empty condition never occurs.
\<close>
theorem status_reports_nodes:
  assumes "node_api_total E nodes" and "cmp_laws E" and "pool_wf pool"
    and "taints_unique pool (nodes w)" and "reconcileNode E pool w = (Ret (Inr ()), w1)"
  shows "\<exists>w2. nodeConditions_loop E [] (entries pool) w1 =
    (Ret (Inr (map (\<lambda>p. \<lparr>npc_Name = np_Name p,
        npc_NodeCondition = reported (os_environ E) p (n_Taints (the (nodes w1 (np_Name p))))\<rparr>)
      (entries pool))), w2) \<and> nodes w2 = nodes w1"
proof -
  have prep: "pool_prepared (os_environ E) pool (nodes w1)"
    using reconcileNode_establishes [OF node_api_totalD(1) [OF assms(1)] assms(2-5)] by simp
  then have ex: "\<forall>p \<in> set (entries pool). nodes w1 (np_Name p) \<noteq> None"
    by (auto simp: pool_prepared_def)
  have cond: "nodeCondition p (the (nodes w1 (np_Name p))) =
      reported (os_environ E) p (n_Taints (the (nodes w1 (np_Name p))))" if "p \<in> set (entries pool)" for p
    using prep that nodeCondition_prepared [OF pool_wfD(3) [OF assms(3) that]]
    by (force simp: pool_prepared_def)
  show ?thesis
    using nodeConditions_exact [OF assms(1) ex, of "[]"] cond by (simp cong: map_cong)
qed

theorem status_reports_nodes_witness:
  "\<exists>w1 w2 t1. reconcileNode ex_env ex_pool ex_cluster = (Ret (Inr ()), w1) \<and>
     nodeConditions_loop ex_env [] (entries ex_pool) w1 =
       (Ret (Inr [\<lparr>npc_Name = ''n1'', npc_NodeCondition = reported Map.empty ex_entry t1\<rparr>,
                  \<lparr>npc_Name = ''n2'', npc_NodeCondition = NodeMaintenance\<rparr>]), w2)"
proof -
  obtain w1 where w1: "reconcileNode ex_env ex_pool ex_cluster = (Ret (Inr ()), w1)"
    using reconcileNode_succeeds [OF mem_node_api mem_cmp_laws ex_pool_wf ex_unique, of Map.empty]
    by (auto simp: ex_nodes ex_pool_def ex_entry_def ex_entry2_def)
  obtain w2 where w2: "nodeConditions_loop ex_env [] (entries ex_pool) w1 =
    (Ret (Inr (map (\<lambda>p. \<lparr>npc_Name = np_Name p,
        npc_NodeCondition = reported Map.empty p (n_Taints (the (mem_nodes w1 (np_Name p))))\<rparr>)
      (entries ex_pool))), w2)"
    using status_reports_nodes [OF mem_node_api mem_cmp_laws ex_pool_wf ex_unique w1] by auto
  have eq: "map (\<lambda>p. \<lparr>npc_Name = np_Name p,
        npc_NodeCondition = reported Map.empty p (n_Taints (the (mem_nodes w1 (np_Name p))))\<rparr>) (entries ex_pool)
    = [\<lparr>npc_Name = ''n1'', npc_NodeCondition =
          reported Map.empty ex_entry (n_Taints (the (mem_nodes w1 ''n1'')))\<rparr>,
       \<lparr>npc_Name = ''n2'', npc_NodeCondition = NodeMaintenance\<rparr>]"
    by (simp add: ex_pool_def reported_def ex_entry_def ex_entry2_def)
  show ?thesis by (intro exI conjI) (rule w1, rule w2 [unfolded eq])
qed

text \<open>
  The contract with controller-runtime. When a run returns at all, it asks to be requeued
  exactly when it also returns an error; a pool that is gone is neither.
\<close>
theorem pool_Reconcile_result:
  "case fst (pool_Reconcile E req w) of
     Panic \<Rightarrow> \<exists>pool. fst (Get_Pool E req w) = Inr pool
   | Ret (res, err) \<Rightarrow> Requeue res \<longleftrightarrow> err \<noteq> None"
proof -
  have "requeues_errors (updatePool_event E pool msg)" for pool msg
    unfolding updatePool_event_def by (intro reports_intros) simp_all
  moreover have "requeues_errors (pool_updateStatus E pool)" for pool
    unfolding pool_updateStatus_def Let_def by (intro reports_intros) simp_all
  ultimately have "requeues_errors (pool_reconcile E pool)" for pool
    unfolding pool_reconcile_def Let_def by (intro reports_intros) simp_all
  then have "result_ok (fst (pool_reconcile E pool w))" for pool w
    by (simp add: requeues_errors_def)
  then have ok: "requeues_errors (pool_Reconcile E req)"
    unfolding pool_Reconcile_def by (intro reports_intros) (simp_all add: requeues_errors_def)
  moreover have "\<exists>pool. fst (Get_Pool E req w) = Inr pool" if "fst (pool_Reconcile E req w) = Panic"
    using that by (cases "fst (Get_Pool E req w)") (simp_all add: pool_Reconcile_def act_simps split: if_splits)
  ultimately show ?thesis
    by (cases "fst (pool_Reconcile E req w)")
      (auto simp: requeues_errors_def dest!: spec [where x = w])
qed

text \<open>
  A Node event is handed to exactly the pools of the group the Node's annotation names,
  each by its namespace and name and in the order they are listed; when the pools cannot be
  listed to none.
\<close>
theorem nodeReconcileRequest_exact:
  "nodeReconcileRequest E node w =
     (Ret (case fst (List_Pools E w) of
        Inl _ \<Rightarrow> []
      | Inr pools \<Rightarrow> map (\<lambda>pool. ObjectKeyFromMeta (p_Meta pool))
          (filter (\<lambda>pool. group_of pool = map_get (node_Annotations node) MachineGroupKey) pools)),
      snd (List_Pools E w))"
proof -
  have "nodeReconcileRequest_loop req node pools = req @ map (\<lambda>pool. ObjectKeyFromMeta (p_Meta pool))
      (filter (\<lambda>pool. group_of pool = map_get (node_Annotations node) MachineGroupKey) pools)" for req pools
    by (induction pools arbitrary: req) simp_all
  then show ?thesis by (simp add: nodeReconcileRequest_def act_simps split: sum.split)
qed

text \<open>
  A run of the controller shows up as an event. If a run stores a Node of the pool whose
  labels or taints it changed, the event of that update passes the event filter, so the status
  of the pool is brought up to date by the run the event starts.
\<close>
theorem written_node_triggers:
  assumes "cmp_laws E"
  shows "nodePredicates E (UpdateEvent n (prepared env pool p now n)) \<longleftrightarrow> prepared env pool p now n \<noteq> n"
proof -
  have "prepared env pool p now n = n \<longleftrightarrow>
      node_Labels (prepared env pool p now n) = node_Labels n \<and>
      node_Annotations (prepared env pool p now n) = node_Annotations n \<and>
      n_Taints (prepared env pool p now n) = n_Taints n"
    by (cases n, cases "n_Meta n") (auto simp: prepared_def)
  then show ?thesis using assms by (auto simp: cmp_lawsD)
qed

theorem written_node_triggers_witness:
  "nodePredicates ex_env (UpdateEvent ex_node (prepared Map.empty ex_pool ex_entry 9 ex_node)) \<longleftrightarrow>
     prepared Map.empty ex_pool ex_entry 9 ex_node \<noteq> ex_node"
  by (rule written_node_triggers [OF mem_cmp_laws])

end
