(* ===== verification/MachineProps.thy ===== *)
theory MachineProps
  imports Cluster
begin

text \<open>
  The properties of the Machine controller, with their witnesses in the in-memory cluster: a
  machine group with one machine type, three of which are wanted and one of which a guest uses.
\<close>

definition ex_type :: MachineType where
  "ex_type = \<lparr>mt_Name = ''a100'', mt_Spec = \<lparr>CPU = Quantity ''8'', Memory = Quantity ''64Gi'',
     GPU = Some \<lparr>gpu_Type = ''nvidia.com/gpu'', gpu_Num = Quantity ''1'', gpu_Family = ''ampere'',
       gpu_Product = [], gpu_Machine = []\<rparr>\<rparr>, mt_Available = 3\<rparr>"

definition ex_usage :: UsageCondition where
  "ex_usage = \<lparr>Maximum = 3, Reserved = 0, Used = 1, Waiting = 0\<rparr>"

definition ex_machine :: Machine where
  "ex_machine = \<lparr>m_Meta = zero_meta\<lparr>Name := ''m'', Labels := [MachineGroupKey \<mapsto> ''team'']\<rparr>,
     m_Spec = \<lparr>ms_NodePool = [\<lparr>np_Name = ''n1'', np_Mode = NodeModeReady, np_Taint = True,
         np_MachineType = [\<lparr>npmt_Name = ''a100''\<rparr>]\<rparr>], ms_MachineTypes = [ex_type]\<rparr>,
     m_Status = \<lparr>mst_Conditions = [], mst_AvailableMachines = [\<lparr>am_Name = ''a100'', am_Usage = ex_usage\<rparr>]\<rparr>\<rparr>"

definition guest_pod :: "string \<Rightarrow> Pod" where
  "guest_pod phase = \<lparr>pod_Meta = zero_meta\<lparr>Name := ''job'', Namespace := ''users'',
       Labels := role_labels PodRoleGuest ''team'' ''a100''\<rparr>,
     pod_Spec = zero_podspec\<lparr>ps_NodeName := ''n1''\<rparr>, pod_Phase = phase,
     pod_Conditions = [\<lparr>pc_Type = ContainersReady, pc_Status = ConditionTrue, pc_Reason = []\<rparr>]\<rparr>"

definition ex_world :: cluster where
  "ex_world = empty_cluster\<lparr>cl_machines := [(([], ''m''), ex_machine)], cl_pods := [guest_pod PodRunning],
     cl_namespaces := [''users'' \<mapsto> zero_meta\<lparr>Labels :=
       [ImperatorResourceInjectionKey \<mapsto> ImperatorResourceInjectionEnabled]\<rparr>]\<rparr>"

abbreviation ex_menv :: "cluster mach_env" where
  "ex_menv \<equiv> mem_mach_env Map.empty"

lemma ex_machine_sel [simp]:
  "machine_group ex_machine = ''team''" "ms_MachineTypes (m_Spec ex_machine) = [ex_type]"
  "avail ex_machine = [\<lparr>am_Name = ''a100'', am_Usage = ex_usage\<rparr>]"
  "mt_Name ex_type = ''a100''" "in_node_pool ex_machine t \<longleftrightarrow> t = ''a100''"
  by (simp_all add: ex_machine_def GetMachineGroup_def zero_meta_def ex_type_def in_node_pool_def)

lemma mem_conditions:
  "\<exists>m' w'. updateReconcileConditions ex_menv r m w = (Ret (Inr m'), w')"
  by (simp add: updateReconcileConditions_def updateReconcileSuccessStatus_def act_simps Let_def
      with_machine_def mem_write_machine_def)

lemma mem_pool_stage_runs:
  "\<exists>m' w'. reconcileMachineNodePool ex_menv m w = (Ret (Inr m'), w')"
proof -
  let ?call = "CreateOrUpdate_Pool ex_menv (new_pool (GenerateMachineNodePoolName (machine_group m)))
    (\<lambda>p w. (mutate_pool ex_menv m (machine_group m) p, w)) w"
  have "\<exists>res. fst ?call = Inr res"
    by (simp add: mem_upsert_def mutate_pool_def mem_set_owner_def Let_def)
  then obtain res where "fst ?call = Inr res" by blast
  then show ?thesis
    using mem_conditions [of res m "snd ?call"]
    by (simp add: reconcileMachineNodePool_def act_simps Let_def with_machine_def del: mem_mach_env_sel)
qed

subsection \<open>The stages\<close>

text \<open>
  C8: the MachineNodePool a reconciliation stores. A successful run of the first stage leaves
  exactly one object changed, the group's pool: it belongs to the group, lists the Nodes of the
  Machine and carries a group label; every machine type of the Machine is in its stock, and
  the types already in the stock stay there in front, also those the Machine no longer has.
\<close>
theorem pool_stage_stores:
  assumes "pool_stage_laws E pools" and "reconcileMachineNodePool E m w = (Ret (Inr m'), w')"
  shows "\<exists>p. pools w' = (pools w)(group_pool_key (machine_group m) \<mapsto> p) \<and>
    mnp_MachineGroupName (p_Spec p) = machine_group m \<and>
    mnp_NodePool (p_Spec p) = ms_NodePool (m_Spec m) \<and>
    Labels (p_Meta p) MachineGroupKey \<noteq> None \<and>
    mt_Name ` set (ms_MachineTypes (m_Spec m)) \<subseteq> stock_Name ` set (mnp_MachineTypeStock (p_Spec p)) \<and>
    (\<forall>old. pools w (group_pool_key (machine_group m)) = Some old \<longrightarrow>
      (\<exists>new. mnp_MachineTypeStock (p_Spec p) = mnp_MachineTypeStock (p_Spec old) @ new))"
proof -
  let ?g = "machine_group m"
  obtain old p where old: "old = (case pools w (group_pool_key ?g) of
        None \<Rightarrow> new_pool (GenerateMachineNodePoolName ?g) | Some stored \<Rightarrow> stored)"
    and p: "pools w' = (pools w)(group_pool_key ?g \<mapsto> p)"
    and edit: "own_edited (edit_pool m ?g) p_Meta (\<lambda>m p. p\<lparr>p_Meta := m\<rparr>) (SetControllerReference E m) old = Inr p"
    by (rule pool_stage [OF assms])
  have law: "owner_laws (SetControllerReference E m)" using assms(1) by (simp add: pool_stage_laws_def)
  obtain refs where "p = (edit_pool m ?g old)\<lparr>p_Meta := (p_Meta (edit_pool m ?g old))\<lparr>OwnerReferences := refs\<rparr>\<rparr>"
    by (rule pool_edit.own_edited_cases [OF law edit])
  with p old edit_pool_covers [of _ m ?g old] show ?thesis
    by (auto simp: edit_pool_sel edit_pool_stock)
qed

theorem pool_stage_stores_witness:
  "\<exists>p (w' :: cluster). mem_pools w' (group_pool_key ''team'') = Some p \<and>
     mnp_NodePool (p_Spec p) = ms_NodePool (m_Spec ex_machine) \<and>
     ''a100'' \<in> stock_Name ` set (mnp_MachineTypeStock (p_Spec p))"
proof -
  obtain m' w' where run: "reconcileMachineNodePool ex_menv ex_machine ex_world = (Ret (Inr m'), w')"
    using mem_pool_stage_runs by blast
  show ?thesis
    using pool_stage_stores [OF mem_pool_stage_laws run] by (auto intro!: exI [of _ w'])
qed

text \<open>
  Idempotence of that stage. When a second run for the same Machine finds the pool the first
  one stored, it changes nothing: no pool is written and no status update is sent, so the
  Machine in memory stays the one it was called with.
\<close>
theorem pool_stage_idempotent:
  assumes "pool_stage_laws E pools" and "reconcileMachineNodePool E m w = (Ret (Inr m1), w1)"
    and "pools w2 = pools w1" and "reconcileMachineNodePool E m w2 = (Ret (Inr m2), w3)"
  shows "m2 = m \<and> pools w3 = pools w2"
  by (rule pool_stage_again [OF assms])

theorem pool_stage_idempotent_witness:
  "\<exists>m1 w1 m2 w3. reconcileMachineNodePool ex_menv ex_machine ex_world = (Ret (Inr m1), w1) \<and>
     reconcileMachineNodePool ex_menv ex_machine w1 = (Ret (Inr m2), w3) \<and>
     m2 = ex_machine \<and> mem_pools w3 = mem_pools w1"
proof -
  obtain m1 w1 where 1: "reconcileMachineNodePool ex_menv ex_machine ex_world = (Ret (Inr m1), w1)"
    using mem_pool_stage_runs by blast
  obtain m2 w3 where 2: "reconcileMachineNodePool ex_menv ex_machine w1 = (Ret (Inr m2), w3)"
    using mem_pool_stage_runs by blast
  from pool_stage_idempotent [OF mem_pool_stage_laws 1 refl 2] 1 2 show ?thesis by blast
qed

text \<open>
  C6: the StatefulSets a reconciliation stores. After a successful run of the second stage every
  machine type that some entry of the node pool offers, and that the status knows, has its
  StatefulSet stored under the reservation name. It is what the generator makes of it with
  the replica count of lines 219-222, computed from the status the run began with and from the
  reservation Pods the scheduler could not place; no other StatefulSet changes.
\<close>
theorem sts_stage_stores:
  assumes "sts_stage_laws E stss pods" and "distinct (map mt_Name (ms_MachineTypes (m_Spec m)))"
    and "reconcileStatefulSet E m w = (Ret (Inr m'), w')"
  shows "(\<forall>mt \<in> set (ms_MachineTypes (m_Spec m)). \<forall>u. in_node_pool m (mt_Name mt) \<longrightarrow>
      GetMachineTypeUsage (avail m) (mt_Name mt) = Some u \<longrightarrow>
      (\<exists>s. stss w' (reservation_key E (machine_group m) (mt_Name mt)) = Some s \<and>
        GenerateStatefulSet mt (machine_group m)
          (stsReplica u (unscheduled_num E (machine_group m) (mt_Name mt) (pods w))) s = s)) \<and>
    (\<forall>k. k \<notin> offered_keys E m \<longrightarrow> stss w' k = stss w k)"
  using sts_stage [OF assms] by simp

theorem sts_stage_stores_witness:
  "\<exists>s (w' :: cluster). cl_sts w' (''imperator-system'', ''team-a100'') = Some s \<and> sts_Replicas s = Some 2"
proof -
  let ?call = "\<lambda>w. CreateOrUpdate_Sts ex_menv (new_sts ''imperator-system'' ''team-a100'')
    (mutate_sts ex_menv ex_machine ''team'' ex_type ex_usage) w"
  have "\<exists>res. fst (?call ex_world) = Inr res"
    by (simp add: mem_upsert_def mutate_sts_def mem_set_owner_def Let_def ex_world_def empty_cluster_def
        getUnscheduledPodNum_def mem_list_pods_def)
  then obtain res where res: "fst (?call ex_world) = Inr res" by blast
  obtain m1 w1 where c: "updateReconcileConditions ex_menv res ex_machine (snd (?call ex_world)) = (Ret (Inr m1), w1)"
    using mem_conditions by blast
  have usage: "GetMachineTypeUsage (avail ex_machine) ''a100'' = Some ex_usage" by simp
  have "nodePoolMachineTypeMap_loop (\<lambda>_. False) (ms_NodePool (m_Spec ex_machine)) ''a100''"
    using ex_machine_sel(5) [of "''a100''"] by (simp add: nodePoolMachineTypeMap in_node_pool_def)
  then have "reconcileStatefulSet_step ex_menv ''team''
      (nodePoolMachineTypeMap_loop (\<lambda>_. False) (ms_NodePool (m_Spec ex_machine))) ex_type ex_machine ex_world
    = (Ret (Inr m1), w1)"
    using res c usage
    by (simp add: reconcileStatefulSet_step_def act_simps Let_def with_machine_def
        ImperatorCoreNamespace_def getEnvVarOrDefault_def GenerateReservationResourceName_def
        del: mem_mach_env_sel(12) ex_machine_sel(3))
  then have run: "reconcileStatefulSet ex_menv ex_machine ex_world = (Ret (Inr m1), w1)"
    by (simp add: reconcileStatefulSet_def act_simps)
  have key: "reservation_key ex_menv ''team'' ''a100'' = (''imperator-system'', ''team-a100'')"
    by (simp add: reservation_key_def ImperatorCoreNamespace_def getEnvVarOrDefault_def
        GenerateReservationResourceName_def)
  have "distinct (map mt_Name (ms_MachineTypes (m_Spec ex_machine)))" by simp
  from sts_stage_stores [OF mem_sts_stage_laws this run] usage obtain s
    where s: "cl_sts w1 (''imperator-system'', ''team-a100'') = Some s"
      "GenerateStatefulSet ex_type ''team''
         (stsReplica ex_usage (unscheduled_num ex_menv ''team'' ''a100'' (cl_pods ex_world))) s = s"
    by (auto simp: key)
  have "unscheduled_num ex_menv ''team'' ''a100'' (cl_pods ex_world) = 0"
    by (simp add: unscheduled_num_def reservation_pods_def ex_world_def guest_pod_def unscheduled_at_def
        PodRunning_def PodPending_def)
  moreover have "sts_Replicas (GenerateStatefulSet mt g n x) = Some n" for mt g n x
    by (simp add: GenerateStatefulSet_def Let_def)
  ultimately have "sts_Replicas s = Some (stsReplica ex_usage 0)" using s(2) by metis
  also have "stsReplica ex_usage 0 = 2" by (simp add: stsReplica_def ex_usage_def lt0_def Let_def)
  finally have "sts_Replicas s = Some 2" .
  with s(1) show ?thesis by blast
qed

text \<open>
  The replica count. With counters that are not negative and whose sum stays below 2^31 it
  is the part of the maximum that guests and unschedulable reservations leave, and zero when
  they take it all: reservations, users and waiting Pods together fill the maximum and never
  exceed it because of the reservations.
\<close>
theorem replica_fills_maximum:
  assumes "usage_ok u n"
  shows "sint (stsReplica u n) = max 0 (sint (Maximum u) - usage_sum u n) \<and>
    sint (stsReplica u n) + usage_sum u n = max (sint (Maximum u)) (usage_sum u n)"
  using stsReplica_exact [OF assms] by simp

theorem replica_fills_maximum_witness:
  "sint (stsReplica ex_usage 1) = 1 \<and> sint (stsReplica ex_usage 1) + usage_sum ex_usage 1 = 3"
proof -
  have "usage_ok ex_usage 1" by (simp add: usage_ok_def usage_sum_def ex_usage_def)
  from replica_fills_maximum [OF this] show ?thesis by (simp add: usage_sum_def ex_usage_def)
qed

text \<open>
  C19: without any assumption on the counters the replica count is never negative, although the
  subtraction wraps at 32 bits; a sum that overflows can however reserve more than the maximum:
  with a maximum of 3 and counters that add up to 2^32 all 3 machines are reserved again.
\<close>
theorem replica_never_negative:
  "0 \<le> sint (stsReplica u n) \<and>
   stsReplica \<lparr>Maximum = 3, Reserved = 0, Used = 0x7FFFFFFF, Waiting = 0x7FFFFFFF\<rparr> 2 = 3"
  using stsReplica_nonneg by (simp add: stsReplica_def lt0_def Let_def)

text \<open>
  The Services a reconciliation stores. After a successful run of the third stage every
  machine type of the status has a Service under the reservation name whose labels, selector,
  port and type are the generated ones.
\<close>
theorem svc_stage_stores:
  assumes "svc_stage_laws E svcs" and "distinct (map mt_Name (ms_MachineTypes (m_Spec m)))"
    and "reconcileService E m w = (Ret (Inr m'), w')"
  shows "\<forall>mt \<in> set (ms_MachineTypes (m_Spec m)). GetMachineTypeUsage (avail m) (mt_Name mt) \<noteq> None \<longrightarrow>
      (\<exists>s. svcs w' (reservation_key E (machine_group m) (mt_Name mt)) = Some s \<and>
        GenerateService (mt_Name mt) (machine_group m) s = s)"
  by (rule svc_stage [OF assms])

theorem svc_stage_stores_witness:
  "\<exists>s (w' :: cluster). cl_svc w' (''imperator-system'', ''team-a100'') = Some s \<and> svc_Ports s = [80]"
proof -
  let ?call = "\<lambda>w. CreateOrUpdate_Svc ex_menv (new_svc ''imperator-system'' ''team-a100'')
    (\<lambda>s w. (mutate_svc ex_menv ex_machine ''team'' ''a100'' s, w)) w"
  have "\<exists>res. fst (?call ex_world) = Inr res"
    by (simp add: mem_upsert_def mutate_svc_def mem_set_owner_def Let_def)
  then obtain res where res: "fst (?call ex_world) = Inr res" by blast
  obtain m1 w1 where c: "updateReconcileConditions ex_menv res ex_machine (snd (?call ex_world)) = (Ret (Inr m1), w1)"
    using mem_conditions by blast
  have usage: "GetMachineTypeUsage (avail ex_machine) ''a100'' = Some ex_usage" by simp
  have "reconcileService_step ex_menv ''team'' ex_type ex_machine ex_world = (Ret (Inr m1), w1)"
    using res c usage
    by (simp add: reconcileService_step_def act_simps Let_def with_machine_def
        ImperatorCoreNamespace_def getEnvVarOrDefault_def GenerateReservationResourceName_def
        del: mem_mach_env_sel(13) ex_machine_sel(3))
  then have run: "reconcileService ex_menv ex_machine ex_world = (Ret (Inr m1), w1)"
    by (simp add: reconcileService_def act_simps)
  have key: "reservation_key ex_menv ''team'' ''a100'' = (''imperator-system'', ''team-a100'')"
    by (simp add: reservation_key_def ImperatorCoreNamespace_def getEnvVarOrDefault_def
        GenerateReservationResourceName_def)
  have "distinct (map mt_Name (ms_MachineTypes (m_Spec ex_machine)))" by simp
  from svc_stage_stores [OF mem_svc_stage_laws this run] usage obtain s
    where s: "cl_svc w1 (''imperator-system'', ''team-a100'') = Some s" "GenerateService ''a100'' ''team'' s = s"
    by (auto simp: key)
  have "svc_Ports (GenerateService ''a100'' ''team'' s) = [80]"
    by (simp add: GenerateService_def Let_def)
  then have "svc_Ports s = [80]" unfolding s(2) .
  with s(1) show ?thesis by blast
qed

subsection \<open>Names and selectors\<close>

text \<open>
  C29: the generated objects fit together. The StatefulSet of a machine type selects the Pods of
  its own template, the Service selects them too and is the one the StatefulSet names, and the
  labels of these Pods are those by which \<open>getUnscheduledPodNum\<close> and the reservation counter of
  the status look for them.
\<close>
theorem reservation_objects_fit:
  "let sts = GenerateStatefulSet mt g n s; svc = GenerateService (mt_Name mt) g v in
     sts_Selector sts = Some (sts_TemplateLabels sts) \<and>
     selects (svc_Selector svc) (sts_TemplateLabels sts) \<and>
     sts_ServiceName sts = GenerateReservationResourceName g (mt_Name mt) \<and>
     sts_TemplateLabels sts = GenerateReservationResourceLabel g (mt_Name mt) \<and>
     selects (role_labels PodRoleReservation g (mt_Name mt)) (sts_TemplateLabels sts) \<and>
     \<not> selects (role_labels PodRoleGuest g (mt_Name mt)) (sts_TemplateLabels sts)"
proof -
  have "PodRoleKey \<in> dom (role_labels PodRoleGuest g (mt_Name mt))"
    "role_labels PodRoleGuest g (mt_Name mt) PodRoleKey = Some PodRoleGuest"
    by (simp_all add: role_labels_def)
  then have "\<not> selects (role_labels PodRoleGuest g (mt_Name mt)) (GenerateReservationResourceLabel g (mt_Name mt))"
    by (force simp: selects_def map_le_def GenerateReservationResourceLabel_def)
  moreover have "role_labels PodRoleReservation g (mt_Name mt) = GenerateReservationResourceLabel g (mt_Name mt)"
    by (simp add: role_labels_def GenerateReservationResourceLabel_def fun_eq_iff)
  ultimately show ?thesis
    by (simp add: GenerateStatefulSet_def GenerateService_def Let_def selects_def)
qed

text \<open>
  Names. Within one group the name of a reservation determines the machine type, and the
  name of a node pool determines its group. Across groups reservation names collide: the group
  "a" with the type "b-c" and the group "a-b" with the type "c" share StatefulSet and Service.
\<close>
theorem reservation_names:
  "(GenerateReservationResourceName g t = GenerateReservationResourceName g t' \<longleftrightarrow> t = t') \<and>
   (GenerateMachineNodePoolName g = GenerateMachineNodePoolName g' \<longleftrightarrow> g = g') \<and>
   GenerateReservationResourceName ''a'' ''b-c'' = GenerateReservationResourceName ''a-b'' ''c''"
  by (simp add: GenerateReservationResourceName_def GenerateMachineNodePoolName_def)

subsection \<open>The status\<close>

text \<open>
  C3: the status a run stores. When \<open>updateStatus\<close> returns without error the stored Machine has
  one entry for every machine type of its specification, with the wanted number as maximum;
  entries of machine types that are gone stay with maximum zero. Reserved counts the live
  reservation Pods of the type that run ready or have a Node, used the guest Pods of the
  namespaces with injection enabled in the same states, waiting those no Node has room for;
  each counter is that number of Pods modulo 2^32. This holds whether the run had to send a
  status update or found nothing new.
\<close>
theorem status_counts_stored:
  assumes "status_laws E pods nss" and "machine_store_laws E machines"
    and "machines w (ObjectKeyFromMeta (m_Meta m)) = Some m"
    and "distinct (map mt_Name (ms_MachineTypes (m_Spec m)))"
    and "updateStatus E m w = (Ret (res, None), w')"
  shows "\<exists>m'. machines w' (ObjectKeyFromMeta (m_Meta m)) = Some m' \<and> m_Spec m' = m_Spec m \<and>
    avail m' = map (counted E (machine_group m) (desiredMachineTypeNum m) (pods w) (nss w)) (withMissingEntries m) \<and>
    (\<forall>mt \<in> set (ms_MachineTypes (m_Spec m)). \<exists>am \<in> set (avail m'). am_Name am = mt_Name mt) \<and>
    (\<forall>am \<in> set (avail m'). Maximum (am_Usage am) =
      (case find (\<lambda>mt. mt_Name mt = am_Name am) (ms_MachineTypes (m_Spec m)) of
         None \<Rightarrow> 0 | Some mt \<Rightarrow> mt_Available mt))"
proof -
  let ?c = "counted E (machine_group m) (desiredMachineTypeNum m) (pods w) (nss w)"
  obtain m' where m': "machines w' (ObjectKeyFromMeta (m_Meta m)) = Some m'" "m_Spec m' = m_Spec m"
    "avail m' = map ?c (withMissingEntries m)"
    using updateStatus_stores [OF assms(1-3,5)] by blast
  have sel: "am_Name (?c am) = am_Name am" "Maximum (am_Usage (?c am)) = desiredMachineTypeNum m (am_Name am)" for am
    by (simp_all add: counted_def Let_def)
  have "\<exists>am \<in> set (avail m'). am_Name am = mt_Name mt" if "mt \<in> set (ms_MachineTypes (m_Spec m))" for mt
  proof -
    have "mt_Name mt \<in> set (map am_Name (withMissingEntries m))"
      unfolding withMissing_eq using that by auto
    then show ?thesis by (auto simp: m'(3) sel)
  qed
  moreover have "desiredMachineTypeNum m t =
      (case find (\<lambda>mt. mt_Name mt = t) (ms_MachineTypes (m_Spec m)) of None \<Rightarrow> 0 | Some mt \<Rightarrow> mt_Available mt)" for t
  proof (cases "find (\<lambda>mt. mt_Name mt = t) (ms_MachineTypes (m_Spec m))")
    case None
    then have "t \<notin> mt_Name ` set (ms_MachineTypes (m_Spec m))" by (auto simp: find_None_iff)
    with None show ?thesis by (simp add: desired_absent)
  next
    case (Some mt)
    then show ?thesis using desired_present [OF assms(4), of mt] by (auto dest: find_SomeD)
  qed
  ultimately show ?thesis using m' by (intro exI [of _ m']) (auto simp: sel)
qed

lemma mem_machine_store_laws:
  "machine_store_laws (mem_mach_env env) (\<lambda>w. map_of (cl_machines w))"
  by (simp add: machine_store_laws_def mem_preserves mem_event_def mem_diff_def)
    (simp add: mem_write_machine_def)

lemma ex_role_pods:
  "filter (\<lambda>p. selects (role_labels PodRoleGuest ''team'' ''a100'') (Labels (pod_Meta p))) (cl_pods ex_world)
     = [guest_pod PodRunning]"
  "filter (\<lambda>p. selects (role_labels PodRoleReservation ''team'' ''a100'') (Labels (pod_Meta p))) (cl_pods ex_world) = []"
proof -
  have "\<not> selects (role_labels PodRoleReservation ''team'' ''a100'') (role_labels PodRoleGuest ''team'' ''a100'')"
    by (auto simp: selects_def role_labels_def map_le_def dest: bspec [where x = PodRoleKey])
  then show
    "filter (\<lambda>p. selects (role_labels PodRoleGuest ''team'' ''a100'') (Labels (pod_Meta p))) (cl_pods ex_world)
       = [guest_pod PodRunning]"
    "filter (\<lambda>p. selects (role_labels PodRoleReservation ''team'' ''a100'') (Labels (pod_Meta p))) (cl_pods ex_world) = []"
    by (simp_all add: ex_world_def guest_pod_def selects_def)
qed

lemma ex_world_sel [simp]:
  "cl_machines ex_world = [(([], ''m''), ex_machine)]"
  "cl_namespaces ex_world = [''users'' \<mapsto> zero_meta\<lparr>Labels :=
       [ImperatorResourceInjectionKey \<mapsto> ImperatorResourceInjectionEnabled]\<rparr>]"
  by (simp_all add: ex_world_def)

lemma ex_machine_key [simp]: "ObjectKeyFromMeta (m_Meta ex_machine) = ([], ''m'')"
  by (simp add: ex_machine_def ObjectKeyFromMeta_def zero_meta_def)

lemma ex_missing: "withMissingEntries ex_machine = [\<lparr>am_Name = ''a100'', am_Usage = ex_usage\<rparr>]"
  by (simp add: withMissingEntries_def appendAvailable_eq availableMap)

lemma ex_status_runs: "\<exists>w'. updateStatus ex_menv ex_machine ex_world = (Ret (\<lparr>Requeue = False\<rparr>, None), w')"
proof -
  let ?c = "fst (countGuest ex_menv (guest_pod PodRunning) (0, 0))"
  have lists: "mem_list_pods [] (role_labels PodRoleReservation ''team'' ''a100'') ex_world = (Inr [], ex_world)"
    "mem_list_pods [] (role_labels PodRoleGuest ''team'' ''a100'') ex_world = (Inr [guest_pod PodRunning], ex_world)"
    by (simp_all add: mem_list_pods_def ex_role_pods)
  have "\<exists>c. guest_loop ex_menv [guest_pod PodRunning] (0, 0) ex_world = (Ret (Inr c), ex_world)"
    by (simp add: guest_step_def act_simps mem_get_namespace_def guest_pod_def)
  then obtain c where guests: "guest_loop ex_menv [guest_pod PodRunning] (0, 0) ex_world = (Ret (Inr c), ex_world)" ..
  have "\<exists>am. updateStatus_entry ex_menv ''team'' d \<lparr>am_Name = ''a100'', am_Usage = ex_usage\<rparr> ex_world
      = (Ret (Inr am), ex_world)" for d
    using lists guests
    by (simp add: updateStatus_entry_def act_simps Let_def role_labels_def del: guest_loop.simps)
  then obtain am where entry: "updateStatus_entry ex_menv ''team'' (desiredMachineTypeNum ex_machine)
      \<lparr>am_Name = ''a100'', am_Usage = ex_usage\<rparr> ex_world = (Ret (Inr am), ex_world)" by blast
  show ?thesis
    by (simp add: updateStatus_def act_simps Let_def ex_missing updateStatus_step_def entry
        updateReconcileSuccessStatus_def with_machine_def mem_write_machine_def)
qed

lemma ex_counted:
  "map (counted ex_menv ''team'' (desiredMachineTypeNum ex_machine) (cl_pods ex_world) (cl_namespaces ex_world))
     (withMissingEntries ex_machine)
   = [\<lparr>am_Name = ''a100'', am_Usage = \<lparr>Maximum = 3, Reserved = 0, Used = 1, Waiting = 0\<rparr>\<rparr>]"
proof -
  have guests: "guest_pods ''team'' ''a100'' (cl_namespaces ex_world) (cl_pods ex_world) = [guest_pod PodRunning]"
    unfolding guest_pods_def role_pods_def ex_role_pods
    by (simp add: guest_pod_def injectionEnabled_def zero_meta_def)
  have reserved: "role_pods PodRoleReservation ''team'' ''a100'' (cl_pods ex_world) = []"
    by (simp add: role_pods_def ex_role_pods)
  have "occupies_at ex_menv (guest_pod PodRunning)" "\<not> unscheduled_at ex_menv (guest_pod PodRunning)"
    by (simp_all add: occupies_at_def unscheduled_at_def guest_pod_def zero_meta_def zero_podspec_def
        has_condition_def)
  moreover have "desiredMachineTypeNum ex_machine ''a100'' = 3"
    by (simp add: desiredMachineTypeNum_def) (simp add: ex_type_def)
  ultimately show ?thesis
    by (simp add: ex_missing counted_def Let_def guests reserved del: ex_world_sel(2))
qed

theorem status_counts_stored_witness:
  "\<exists>m' (w' :: cluster). map_of (cl_machines w') ([], ''m'') = Some m' \<and>
     avail m' = [\<lparr>am_Name = ''a100'', am_Usage = \<lparr>Maximum = 3, Reserved = 0, Used = 1, Waiting = 0\<rparr>\<rparr>]"
proof -
  obtain w' where run: "updateStatus ex_menv ex_machine ex_world = (Ret (\<lparr>Requeue = False\<rparr>, None), w')"
    using ex_status_runs by blast
  have m: "map_of (cl_machines ex_world) (ObjectKeyFromMeta (m_Meta ex_machine)) = Some ex_machine"
    "distinct (map mt_Name (ms_MachineTypes (m_Spec ex_machine)))" by simp_all
  obtain m' where m': "map_of (cl_machines w') ([], ''m'') = Some m'"
    "avail m' = map (counted ex_menv ''team'' (desiredMachineTypeNum ex_machine) (cl_pods ex_world)
       (cl_namespaces ex_world)) (withMissingEntries ex_machine)"
    using status_counts_stored [OF mem_status_laws mem_machine_store_laws m run] by auto
  from m'(2) have "avail m' = [\<lparr>am_Name = ''a100'', am_Usage = \<lparr>Maximum = 3, Reserved = 0, Used = 1, Waiting = 0\<rparr>\<rparr>]"
    by (simp only: ex_counted)
  with m'(1) show ?thesis by blast
qed

subsection \<open>Runs and events\<close>

text \<open>
  A run of the Machine controller never panics, whatever the API server answers, and when
  it hands an error to controller-runtime it asks for a requeue as well.
\<close>
theorem machine_Reconcile_returns:
  "\<exists>res err. fst (machine_Reconcile E req w) = Ret (res, err) \<and> (err = None \<or> Requeue res)"
proof -
  have "fst (machine_Reconcile E req w) \<noteq> Panic" "error_ok (fst (machine_Reconcile E req w))"
    using machine_Reconcile_contract [of E req] by (simp_all add: returns_def error_requeues_def)
  then show ?thesis by (cases "fst (machine_Reconcile E req w)") auto
qed

text \<open>
  A failing first stage ends the run. No StatefulSet, no Service and no Pod is looked at
  (the run is the same whatever these calls would do), the run is requeued, and the last call is
  the status update that sets the condition Ready of the Machine in memory to False with the
  text of the error.
\<close>
theorem failed_stage_reported:
  assumes "reconcileMachineNodePool E m w = (Ret (Inl (e, m1)), w1)"
  shows "machine_reconcile (E\<lparr>CreateOrUpdate_Sts := A, CreateOrUpdate_Svc := B, List_Pods := C\<rparr>) m w
      = machine_reconcile E m w \<and>
    (\<exists>err. fst (machine_reconcile E m w) = Ret (\<lparr>Requeue = True\<rparr>, err)) \<and>
    snd (machine_reconcile E m w) = snd (StatusUpdate_Machine E
      (machine_setCondition E ConditionFalse StatusFailure (err_text e) (fst (metav1_Now E w1)) m1)
      (snd (metav1_Now E w1)))"
proof -
  let ?E = "E\<lparr>CreateOrUpdate_Sts := A, CreateOrUpdate_Svc := B, List_Pods := C\<rparr>"
  have cond: "machine_setCondition ?E = machine_setCondition E"
    by (simp add: fun_eq_iff machine_setCondition_def)
  have "updateReconcileConditions ?E = updateReconcileConditions E"
    by (simp add: fun_eq_iff updateReconcileConditions_def updateReconcileSuccessStatus_def cond)
  moreover have "mutate_pool ?E = mutate_pool E"
    by (simp add: fun_eq_iff mutate_pool_def)
  ultimately have "reconcileMachineNodePool ?E m = reconcileMachineNodePool E m"
    by (simp add: reconcileMachineNodePool_def)
  moreover have "updateReconcileFailedStatus ?E = updateReconcileFailedStatus E"
    by (simp add: fun_eq_iff updateReconcileFailedStatus_def cond)
  ultimately show ?thesis
    using assms
    by (auto simp: machine_reconcile_def stage_def updateReconcileFailedStatus_def act_simps
        split: sum.split)
qed

abbreviation refusing_env :: "cluster mach_env" where
  "refusing_env \<equiv> ex_menv\<lparr>CreateOrUpdate_Pool := \<lambda>obj f w. (Inl (ApiErr ''refused''), w)\<rparr>"

theorem failed_stage_reported_witness:
  "(\<exists>err. fst (machine_reconcile refusing_env ex_machine ex_world) = Ret (\<lparr>Requeue = True\<rparr>, err)) \<and>
   machine_reconcile (refusing_env\<lparr>CreateOrUpdate_Sts := \<lambda>obj f w. (Inr OperationResultCreated, w),
     CreateOrUpdate_Svc := \<lambda>obj f w. (Inr OperationResultCreated, w),
     List_Pods := \<lambda>ns sel w. (Inr [], w)\<rparr>) ex_machine ex_world
   = machine_reconcile refusing_env ex_machine ex_world"
proof -
  have run: "reconcileMachineNodePool refusing_env ex_machine ex_world =
    (Ret (Inl (errorf ''failed to reconcile MachineNodePool'' (ApiErr ''refused''), ex_machine)), ex_world)"
    by (simp add: reconcileMachineNodePool_def act_simps Let_def with_machine_def)
  show ?thesis using failed_stage_reported [OF run] by blast
qed

text \<open>
  C39: which Pod events start a run. A Pod event leads to at most one request, and to the
  request for a Machine exactly when the Pod's namespace can be read and, for a guest Pod, has
  injection enabled, the Pod names a group that exactly one listed Machine has, and it names a
  machine type of that Machine.
\<close>
theorem podReconcileRequest_iff:
  "(\<exists>ks. fst (podReconcileRequest E pod w) = Ret ks \<and> length ks \<le> 1) \<and>
   (fst (podReconcileRequest E pod w) = Ret [key] \<longleftrightarrow>
     (\<exists>ns g t m. fst (Get_Namespace E (Namespace pod) w) = Inr ns \<and>
        (injectionEnabled ns \<or> map_get (Labels pod) PodRoleKey \<noteq> PodRoleGuest) \<and>
        Labels pod MachineGroupKey = Some g \<and> Labels pod MachineTypeKey = Some t \<and>
        fst (List_Machines E [MachineGroupKey \<mapsto> g] (snd (Get_Namespace E (Namespace pod) w))) = Inr [m] \<and>
        t \<in> mt_Name ` set (ms_MachineTypes (m_Spec m)) \<and> key = ObjectKeyFromMeta (m_Meta m)))"
proof -
  have types: "podRequest_types k t mts = (if t \<in> mt_Name ` set mts then [k] else [])" for k t mts
    by (induction mts) auto
  show ?thesis
    by (cases "fst (Get_Namespace E (Namespace pod) w)"; cases "Labels pod MachineGroupKey";
        cases "Labels pod MachineTypeKey")
      (auto simp: podReconcileRequest_def act_simps types split: sum.split list.split)
qed

theorem podReconcileRequest_iff_witness:
  "fst (podReconcileRequest ex_menv (pod_Meta (guest_pod PodRunning)) ex_world) = Ret [([], ''m'')]"
proof (rule podReconcileRequest_iff [THEN conjunct2, THEN iffD2], intro exI conjI)
  show "fst (Get_Namespace ex_menv (Namespace (pod_Meta (guest_pod PodRunning))) ex_world) =
      Inr (zero_meta\<lparr>Labels := [ImperatorResourceInjectionKey \<mapsto> ImperatorResourceInjectionEnabled]\<rparr>)"
    by (simp add: guest_pod_def ex_world_def mem_get_namespace_def)
  show "fst (List_Machines ex_menv [MachineGroupKey \<mapsto> ''team'']
      (snd (Get_Namespace ex_menv (Namespace (pod_Meta (guest_pod PodRunning))) ex_world))) = Inr [ex_machine]"
    by (simp add: guest_pod_def ex_world_def mem_get_namespace_def mem_list_machines_def selects_def map_le_def)
      (simp add: ex_machine_def)
qed (simp_all add: guest_pod_def role_labels_def ex_type_def injectionEnabled_def map_get_def
    MachineGroupKey_def MachineTypeKey_def PodRoleKey_def ex_machine_def zero_meta_def ObjectKeyFromMeta_def)

end
