(* ===== verification/Dedup.thy ===== *)
theory Dedup
  imports PodInjector
begin

text \<open>
  The loop of \<open>injectPodAffinity\<close> that deletes repeated match expressions from the slice it ranges
  over, related to a function on lists that has no array, no index and no slice header.
\<close>

subsection \<open>The reference\<close>

text \<open>
  An element to drop goes, and the one behind it, which moves into its place, is passed over
  without a look.
\<close>

fun thin :: "('a \<Rightarrow> bool) \<Rightarrow> 'a list \<Rightarrow> 'a list" where
  "thin drop_it [] = []"
| "thin drop_it [x] = (if drop_it x then [] else [x])"
| "thin drop_it (x # y # xs) = (if drop_it x then y # thin drop_it xs else x # thin drop_it (y # xs))"

text \<open>
  Each deletion is made in a slice of the first length, so the list gets only one shorter however
  many elements go: the last element fills the places of the others.
\<close>

definition thinned :: "('a \<Rightarrow> bool) \<Rightarrow> 'a list \<Rightarrow> 'a list" where
  "thinned drop_it xs =
     (let kept = thin drop_it xs in kept @ replicate (length xs - length kept - 1) (last xs))"

lemma thin_length: "length (thin d xs) \<le> length xs"
  by (induction d xs rule: thin.induct) auto

lemma thin_subset: "set (thin d xs) \<subseteq> set xs"
  by (induction d xs rule: thin.induct) auto

lemma thin_none: "\<forall>x \<in> set xs. \<not> d x \<Longrightarrow> thin d xs = xs"
  by (induction d xs rule: thin.induct) auto

lemma thin_full: "length (thin d xs) = length xs \<Longrightarrow> thin d xs = xs"
proof (induction d xs rule: thin.induct)
  case (3 d x y xs)
  then show ?case using thin_length [of d xs] by (auto split: if_splits)
qed (auto split: if_splits)

lemma thinned_subset: "set (thinned d xs) \<subseteq> set xs"
proof (cases xs)
  case Nil
  then show ?thesis by (simp add: thinned_def)
next
  case (Cons y ys)
  then have "last xs \<in> set xs" by simp
  then show ?thesis using thin_subset [of d xs] by (auto simp: thinned_def Let_def)
qed

lemma thin_one:
  assumes "d e" and "\<forall>x \<in> set a \<union> set b. \<not> d x"
  shows "thin d (a @ e # b) = a @ b"
proof -
  have "thin d (e # b) = b" using assms thin_none [of "tl b" d] by (cases b) auto
  moreover have "thin d (xs @ e # b) = xs @ thin d (e # b)" if "\<forall>x \<in> set xs. \<not> d x" for xs
    using that
  proof (induction xs)
    case (Cons x xs)
    then show ?case by (cases "xs @ e # b") auto
  qed simp
  ultimately show ?thesis using assms(2) by simp
qed

lemma thinned_one:
  assumes "d e" and "\<forall>x \<in> set a \<union> set b. \<not> d x"
  shows "thinned d (a @ e # b) = a @ b"
  by (simp add: thinned_def thin_one [OF assms])

lemma thinned_none: "\<forall>x \<in> set xs. \<not> d x \<Longrightarrow> thinned d xs = xs"
  by (simp add: thinned_def thin_none)

text \<open>What is not to be dropped stays.\<close>

lemma thin_keeps: "x \<in> set xs \<Longrightarrow> \<not> d x \<Longrightarrow> x \<in> set (thin d xs)"
  by (induction d xs rule: thin.induct) auto

lemma thinned_length: "length xs \<le> Suc (length (thinned d xs))"
  using thin_length [of d xs] by (simp add: thinned_def Let_def)

subsection \<open>The loop\<close>

definition has_values :: "NodeSelectorRequirement list \<Rightarrow> bool" where
  "has_values es \<longleftrightarrow> (\<forall>e \<in> set es. nsr_Values e \<noteq> [])"

text \<open>The test of the loop: the first value of the expression is the one recorded for its key.\<close>

definition replaced :: "smap \<Rightarrow> NodeSelectorRequirement \<Rightarrow> bool" where
  "replaced keys e \<longleftrightarrow> map_get keys (nsr_Key e) = hd (nsr_Values e)"

lemma dedup_pass:
  assumes "nsr_Values (arr ! i) \<noteq> []" and "\<not> replaced keys (arr ! i)"
  shows "dedupTerm_loop keys n (Suc k) i arr cur = dedupTerm_loop keys n k (Suc i) arr cur"
  using assms by (cases "nsr_Values (arr ! i)") (simp_all add: replaced_def)

lemma dedup_delete:
  assumes "nsr_Values (arr ! i) \<noteq> []" and "replaced keys (arr ! i)" and "n = length arr" and "Suc i < n"
  shows "dedupTerm_loop keys n (Suc k) i arr cur =
    dedupTerm_loop keys n k (Suc i) (remove_at i arr @ [last arr]) (remove_at i arr)"
proof -
  obtain v vs where v: "nsr_Values (arr ! i) = v # vs" using assms(1) by (cases "nsr_Values (arr ! i)") auto
  have "drop (n - 1) arr = [last arr]"
    using assms(3,4) by (metis Suc_lessD append_butlast_last_id append_eq_conv_conj butlast_conv_take
        length_butlast list.size(3) not_less_zero)
  then have "slice_del i (arr, n) = Ret (remove_at i arr @ [last arr], n - 1)"
    using assms(3,4) by (simp add: slice_del_def remove_at_def)
  moreover have "slice_view (remove_at i arr @ [last arr], n - 1) = remove_at i arr"
    using assms(3,4) by (simp add: slice_view_def length_remove_at)
  moreover have "i \<noteq> n - 1" using assms(4) by simp
  ultimately show ?thesis using v assms(2) by (simp add: replaced_def)
qed

lemma dedup_last:
  assumes "nsr_Values (arr ! i) \<noteq> []" and "replaced keys (arr ! i)" and "i = n - 1"
  shows "dedupTerm_loop keys n (Suc k) i arr cur = dedupTerm_loop keys n k (Suc i) arr (take (n - 1) arr)"
  using assms by (cases "nsr_Values (arr ! i)") (simp_all add: replaced_def)

declare dedupTerm_loop.simps(2) [simp del]

text \<open>The copies of the last element behind the others: looking at them changes nothing any more.\<close>

lemma dedup_copies:
  assumes "h > 0 \<Longrightarrow> nsr_Values l \<noteq> []" and "h > 0 \<Longrightarrow> cur = front @ replicate (h - 1) l"
    and "n = length front + h"
  shows "dedupTerm_loop keys n h (length front) (front @ replicate h l) cur = Ret cur"
  using assms
proof (induction h arbitrary: front)
  case (Suc h)
  let ?arr = "front @ replicate (Suc h) l"
  have arr: "?arr = (front @ [l]) @ replicate h l" by (simp add: replicate_append_same)
  have at: "?arr ! length front = l" by (simp add: nth_append)
  have v: "nsr_Values l \<noteq> []" and cur: "cur = front @ replicate h l" using Suc.prems by simp_all
  have step: "dedupTerm_loop keys n (Suc h) (length front) ?arr cur =
      dedupTerm_loop keys n h (length (front @ [l])) ?arr cur"
  proof (cases "replaced keys l")
    case False
    then show ?thesis using dedup_pass [of ?arr "length front"] v unfolding at by simp
  next
    case True
    show ?thesis
    proof (cases h)
      case 0
      then show ?thesis using dedup_last [of ?arr "length front" keys n 0 cur] v True cur Suc.prems(3)
        unfolding at by simp
    next
      case (Suc h')
      have "remove_at (length front) ?arr = cur" using cur by (simp add: remove_at_def)
      moreover have "last ?arr = l" by simp
      moreover have "cur @ [l] = ?arr" using cur by (simp add: replicate_append_same)
      ultimately show ?thesis
        using dedup_delete [of ?arr "length front" keys n h cur] v True Suc.prems(3) Suc unfolding at by simp
    qed
  qed
  have "dedupTerm_loop keys n h (length (front @ [l])) ((front @ [l]) @ replicate h l) cur = Ret cur"
  proof (rule Suc.IH)
    show "cur = (front @ [l]) @ replicate (h - 1) l" if "h > 0"
      using that cur by (cases h) simp_all
  qed (use v Suc.prems(3) in simp_all)
  with step show ?case unfolding arr by simp
qed simp

text \<open>
  The state of the loop: the elements settled, those to come, and as many copies of the last one
  as there were deletions.
\<close>

lemma dedup_loop_thin:
  assumes "\<forall>x \<in> set rest. nsr_Values x \<noteq> []" and "h > 0 \<Longrightarrow> nsr_Values l \<noteq> []"
    and "rest \<noteq> [] \<Longrightarrow> last rest = l" and "n = length front + length rest + h"
    and "h > 0 \<Longrightarrow> cur = front @ rest @ replicate (h - 1) l"
  shows "dedupTerm_loop keys n (length rest + h) (length front) (front @ rest @ replicate h l) cur =
    (let kept = thin (replaced keys) rest; h' = h + length rest - length kept
     in Ret (if h' = 0 then cur else front @ kept @ replicate (h' - 1) l))"
  using assms
proof (induction "replaced keys" rest arbitrary: front h cur rule: thin.induct)
  case 1
  then show ?case using dedup_copies [of h l cur front n keys] by simp
next
  case (2 x)
  then have x: "x = l" "nsr_Values l \<noteq> []" by auto
  let ?arr = "front @ [x] @ replicate h l"
  have at: "?arr ! length front = l" using x by simp
  have arr: "?arr = (front @ [l]) @ replicate h l" using x by simp
  show ?case
  proof (cases "replaced keys l")
    case False
    have "dedupTerm_loop keys n h (length (front @ [l])) ((front @ [l]) @ replicate h l) cur = Ret cur"
      by (rule dedup_copies) (use 2 x in simp_all)
    then show ?thesis using dedup_pass [of ?arr "length front" keys n h cur] x False 2 unfolding at arr by (auto simp: Let_def)
  next
    case True
    have rest: "dedupTerm_loop keys n h (length (front @ [l])) ((front @ [l]) @ replicate h l) (front @ replicate h l)
        = Ret (front @ replicate h l)"
    proof (rule dedup_copies)
      show "front @ replicate h l = (front @ [l]) @ replicate (h - 1) l" if "h > 0"
        using that by (cases h) simp_all
    qed (use 2 x in simp_all)
    have "dedupTerm_loop keys n (Suc h) (length front) ?arr cur =
        dedupTerm_loop keys n h (length (front @ [l])) ?arr (front @ replicate h l)"
    proof (cases h)
      case 0
      then show ?thesis using dedup_last [of ?arr "length front" keys n h cur] x True 2 unfolding at by simp
    next
      case (Suc h')
      have "remove_at (length front) ?arr = front @ replicate h l" by (simp add: remove_at_def)
      moreover have "(front @ replicate h l) @ [last ?arr] = ?arr"
        using x Suc by (simp add: replicate_append_same)
      ultimately show ?thesis
        using dedup_delete [of ?arr "length front" keys n h cur] x True 2 Suc unfolding at by simp
    qed
    with rest True x show ?thesis unfolding arr by simp
  qed
next
  case (3 x y xs)
  let ?arr = "front @ (x # y # xs) @ replicate h l"
  have at: "?arr ! length front = x" by simp
  have v: "nsr_Values x \<noteq> []" "nsr_Values l \<noteq> []" using 3 last_in_set [of "y # xs"] by auto
  show ?case
  proof (cases "replaced keys x")
    case False
    have "dedupTerm_loop keys n (length (y # xs) + h) (length (front @ [x])) ((front @ [x]) @ (y # xs) @ replicate h l) cur =
        (let kept = thin (replaced keys) (y # xs); h' = h + length (y # xs) - length kept
         in Ret (if h' = 0 then cur else (front @ [x]) @ kept @ replicate (h' - 1) l))"
      by (rule 3(2) [OF False]) (use 3(3-7) in simp_all)
    then show ?thesis
      using dedup_pass [of ?arr "length front" keys n "length (y # xs) + h" cur] v False
      unfolding at by (simp add: Let_def)
  next
    case True
    let ?cur = "front @ (y # xs) @ replicate h l"
    have "remove_at (length front) ?arr = ?cur" by (simp add: remove_at_def)
    moreover have "last ?arr = l" using 3(5) by (cases h) (auto simp: last_append)
    ultimately have "dedupTerm_loop keys n (Suc (length (y # xs) + h)) (length front) ?arr cur =
        dedupTerm_loop keys n (length (y # xs) + h) (length (front @ [y])) (?cur @ [l]) ?cur"
      using dedup_delete [of ?arr "length front" keys n "length (y # xs) + h" cur] v True 3(6) unfolding at by simp
    also have "\<dots> = dedupTerm_loop keys n (length xs + Suc h) (length (front @ [y]))
        ((front @ [y]) @ xs @ replicate (Suc h) l) ?cur" by (simp add: replicate_append_same)
    also have "\<dots> = (let kept = thin (replaced keys) xs; h' = Suc h + length xs - length kept
         in Ret (if h' = 0 then ?cur else (front @ [y]) @ kept @ replicate (h' - 1) l))"
      by (rule 3(1) [OF True]) (use 3(3-7) v in simp_all)
    finally show ?thesis using True thin_length [of "replaced keys" xs] by (simp add: Let_def)
  qed
qed

text \<open>The loop over one term and over all terms, exactly.\<close>

lemma dedupTerm_thinned:
  assumes "has_values (MatchExpressions t)"
  shows "dedupTerm keys t = Ret (t\<lparr>MatchExpressions := thinned (replaced keys) (MatchExpressions t)\<rparr>)"
proof -
  let ?es = "MatchExpressions t" and ?kept = "thin (replaced keys) (MatchExpressions t)"
  have "dedupTerm_loop keys (length ?es) (length ?es + 0) (length ([] :: NodeSelectorRequirement list)) ([] @ ?es @ replicate 0 (last ?es)) ?es =
      (let kept = ?kept; h' = 0 + length ?es - length kept
       in Ret (if h' = 0 then ?es else [] @ kept @ replicate (h' - 1) (last ?es)))"
    by (rule dedup_loop_thin) (use assms in \<open>simp_all add: has_values_def\<close>)
  then have "dedupTerm_loop keys (length ?es) (length ?es) 0 ?es ?es =
      Ret (if length ?es - length ?kept = 0 then ?es
           else ?kept @ replicate (length ?es - length ?kept - 1) (last ?es))"
    by (simp add: Let_def)
  also have "\<dots> = Ret (thinned (replaced keys) ?es)"
    using thin_full [of "replaced keys" ?es] thin_length [of "replaced keys" ?es]
    by (cases "length ?kept = length ?es") (simp_all add: thinned_def Let_def)
  finally show ?thesis by (simp add: dedupTerm_def)
qed

lemma dedupTerms_thinned:
  assumes "\<forall>t \<in> set ts. has_values (MatchExpressions t)"
  shows "dedupTerms keys ts =
    Ret (map (\<lambda>t. t\<lparr>MatchExpressions := thinned (replaced keys) (MatchExpressions t)\<rparr>) ts)"
  using assms by (induction ts) (simp_all add: dedupTerm_thinned)

end
