(* ===== verification/InjectorProofs.thy ===== *)
theory InjectorProofs
  imports Dedup
begin

text \<open>
  Lemmas on the Pod resource injector: the two search loops, the injected tolerations, and the
  edit as a whole against a Pod that is written down without the code's loops and generators.
\<close>

subsection \<open>The search loops\<close>

lemma findToleration_loop_eq:
  "findToleration_loop n ts k v = index_from n (\<lambda>t. tol_Key t = k \<and> tol_Value t = v) ts"
  by (induction ts arbitrary: n) auto

interpretation toleration_index: first_match
  "\<lambda>ts. findToleration ts k v" "\<lambda>t. tol_Key t = k \<and> tol_Value t = v" for k v
  using first_match_index_from by (simp add: findToleration_def findToleration_loop_eq)

lemma findContainer_loop_eq:
  "findContainer_loop n cs name = index_from n (\<lambda>c. c_Name c = name) cs"
  by (induction cs arbitrary: n) auto

interpretation container_index: first_match
  "\<lambda>cs. findContainer_loop 0 cs name" "\<lambda>c. c_Name c = name" for name
  using first_match_index_from by (simp add: findContainer_loop_eq)

lemma findType_loop_eq: "findType_loop n mts = find (\<lambda>mt. mt_Name mt = n) mts"
  by (induction mts) auto

lemma findUsage_loop_eq: "findUsage_loop n ams = GetMachineTypeUsage ams n"
  by (induction ams) auto

text \<open>The target container exists as soon as the Pod has one.\<close>

lemma target_container_bound:
  assumes "ps_Containers (pod_Spec pod) \<noteq> []"
  shows "findInjectingTargetContainerIndex pod < length (ps_Containers (pod_Spec pod))"
  using assms container_index.search_bound
  by (auto simp: findInjectingTargetContainerIndex_def split: option.split)

subsection \<open>Tolerations\<close>

definition same_toleration :: "Toleration \<Rightarrow> Toleration \<Rightarrow> bool" where
  "same_toleration t u \<longleftrightarrow> tol_Key u = tol_Key t \<and> tol_Value u = tol_Value t"

definition drop_duplicate :: "Toleration \<Rightarrow> Toleration list \<Rightarrow> Toleration list" where
  "drop_duplicate t ts =
     (case findToleration ts (tol_Key t) (tol_Value t) of None \<Rightarrow> ts | Some i \<Rightarrow> remove_at i ts)"

lemma inject_step:
  "injectToleration_loop (t # tols) ts = injectToleration_loop tols (drop_duplicate t ts @ [t])"
proof -
  have last: "take (length ts - 1) ts = remove_at (length ts - 1) ts" if "ts \<noteq> []"
    using that by (simp add: remove_at_def)
  have "findToleration [] k v = None" for k v by (simp add: findToleration_def)
  with last show ?thesis
    by (cases "ts = []") (auto simp: drop_duplicate_def split: option.split)
qed

lemma drop_duplicate_others:
  assumes "\<And>u. P u \<Longrightarrow> \<not> same_toleration t u"
  shows "filter P (drop_duplicate t ts) = filter P ts"
proof (cases "findToleration ts (tol_Key t) (tol_Value t)")
  case (Some i)
  then have "i < length ts" "same_toleration t (ts ! i)"
    using toleration_index.search_Some by (auto simp: same_toleration_def)
  then show ?thesis using assms Some by (auto simp: drop_duplicate_def intro: filter_remove_at)
qed (simp add: drop_duplicate_def)

lemma drop_duplicate_unique:
  assumes "length (filter (same_toleration t) ts) \<le> 1"
  shows "drop_duplicate t ts = filter (\<lambda>u. \<not> same_toleration t u) ts"
proof (cases "findToleration ts (tol_Key t) (tol_Value t)")
  case None
  then have "\<forall>u \<in> set ts. \<not> same_toleration t u"
    using toleration_index.search_None [of ts "tol_Key t" "tol_Value t"] by (auto simp: same_toleration_def)
  with None show ?thesis by (auto simp: drop_duplicate_def filter_id_conv)
next
  case (Some i)
  have "same_toleration t = (\<lambda>u. tol_Key u = tol_Key t \<and> tol_Value u = tol_Value t)"
    by (simp add: fun_eq_iff same_toleration_def)
  with toleration_index.remove_only_hit [OF Some] assms Some show ?thesis
    by (simp add: drop_duplicate_def)
qed

text \<open>The list without its first toleration of that key and value; the loop as a fold of it.\<close>

definition without_first :: "Toleration \<Rightarrow> Toleration list \<Rightarrow> Toleration list" where
  "without_first t ts = takeWhile (\<lambda>u. \<not> same_toleration t u) ts @ tl (dropWhile (\<lambda>u. \<not> same_toleration t u) ts)"

lemma drop_duplicate_eq: "drop_duplicate t ts = without_first t ts"
proof -
  have same: "same_toleration t = (\<lambda>u. tol_Key u = tol_Key t \<and> tol_Value u = tol_Value t)"
    by (simp add: fun_eq_iff same_toleration_def)
  show ?thesis
  proof (cases "findToleration ts (tol_Key t) (tol_Value t)")
    case None
    then have none: "\<forall>u \<in> set ts. \<not> same_toleration t u" unfolding same toleration_index.search_None .
    then have eq: "takeWhile (\<lambda>u. \<not> same_toleration t u) ts = ts" "dropWhile (\<lambda>u. \<not> same_toleration t u) ts = []"
      by simp_all
    show ?thesis unfolding without_first_def eq using None by (simp add: drop_duplicate_def)
  next
    case (Some i)
    then show ?thesis unfolding without_first_def same by (simp add: drop_duplicate_def toleration_index.remove_hit)
  qed
qed

lemma inject_fold: "injectToleration_loop tols ts = foldl (\<lambda>ts t. without_first t ts @ [t]) ts tols"
  by (induction tols arbitrary: ts) (simp_all add: inject_step drop_duplicate_eq del: injectToleration_loop.simps(2))

text \<open>Whatever was there: the foreign tolerations stay, and the injected ones are present.\<close>

lemma inject_others:
  assumes "\<And>u. P u \<Longrightarrow> \<forall>t \<in> set tols. \<not> same_toleration t u"
  shows "filter P (injectToleration_loop tols ts) = filter P ts"
  using assms
proof (induction tols arbitrary: ts)
  case (Cons t tols)
  have "\<not> P t" using Cons.prems [of t] by (auto simp: same_toleration_def)
  moreover have "filter P (drop_duplicate t ts) = filter P ts"
    using Cons.prems by (intro drop_duplicate_others) auto
  moreover have "filter P (injectToleration_loop tols (drop_duplicate t ts @ [t]))
      = filter P (drop_duplicate t ts @ [t])"
    by (rule Cons.IH) (use Cons.prems in auto)
  ultimately show ?case by (simp add: inject_step del: injectToleration_loop.simps)
qed simp

lemma drop_duplicate_keeps: "u \<in> set ts \<Longrightarrow> \<not> same_toleration t u \<Longrightarrow> u \<in> set (drop_duplicate t ts)"
proof -
  assume u: "u \<in> set ts" "\<not> same_toleration t u"
  have "filter (\<lambda>u. \<not> same_toleration t u) (drop_duplicate t ts) = filter (\<lambda>u. \<not> same_toleration t u) ts"
    by (rule drop_duplicate_others) simp
  then have "u \<in> set (filter (\<lambda>u. \<not> same_toleration t u) (drop_duplicate t ts))" using u by simp
  then show ?thesis by simp
qed

lemma inject_keeps:
  "u \<in> set ts \<Longrightarrow> \<forall>t \<in> set tols. \<not> same_toleration t u \<Longrightarrow> u \<in> set (injectToleration_loop tols ts)"
  by (induction tols arbitrary: ts)
    (simp_all add: inject_step drop_duplicate_keeps del: injectToleration_loop.simps(2))

lemma inject_present:
  assumes "distinct (map (\<lambda>t. (tol_Key t, tol_Value t)) tols)"
  shows "set tols \<subseteq> set (injectToleration_loop tols ts)"
  using assms
proof (induction tols arbitrary: ts)
  case (Cons t tols)
  have "\<forall>u \<in> set tols. \<not> same_toleration u t"
    using Cons.prems by (force simp: same_toleration_def)
  then have "t \<in> set (injectToleration_loop tols (drop_duplicate t ts @ [t]))"
    by (intro inject_keeps) simp_all
  with Cons.IH [of "drop_duplicate t ts @ [t]"] Cons.prems show ?case
    by (simp add: inject_step del: injectToleration_loop.simps)
qed simp

lemma inject_unique:
  assumes "distinct (map (\<lambda>t. (tol_Key t, tol_Value t)) tols)"
    and "\<forall>t \<in> set tols. length (filter (same_toleration t) ts) \<le> 1"
  shows "injectToleration_loop tols ts = filter (\<lambda>u. \<forall>t \<in> set tols. \<not> same_toleration t u) ts @ tols"
  using assms
proof (induction tols arbitrary: ts)
  case (Cons t tols)
  let ?ts = "drop_duplicate t ts @ [t]"
  have ts: "?ts = filter (\<lambda>u. \<not> same_toleration t u) ts @ [t]"
    using Cons.prems(2) drop_duplicate_unique by simp
  have other: "\<forall>u \<in> set tols. \<not> same_toleration u t"
    using Cons.prems(1) by (force simp: same_toleration_def)
  have "length (filter (same_toleration u) ?ts) \<le> 1" if "u \<in> set tols" for u
  proof -
    have "length (filter (same_toleration u) (filter (\<lambda>u. \<not> same_toleration t u) ts))
        \<le> length (filter (same_toleration u) ts)"
      by (induction ts) auto
    then show ?thesis using other that Cons.prems(2) by (auto simp: ts intro: order_trans)
  qed
  with Cons.IH [of ?ts] Cons.prems(1) other show ?case
    by (simp add: inject_step ts conj_commute del: injectToleration_loop.simps)
qed simp

subsection \<open>The edit of the Pod\<close>

abbreviation type_expressions :: "MachineType \<Rightarrow> string \<Rightarrow> NodeSelectorRequirement list" where
  "type_expressions mt grp \<equiv> GenerateAffinityMatchExpression mt grp"

definition injected_keys :: "NodeSelectorRequirement list \<Rightarrow> smap" where
  "injected_keys es = (\<lambda>k. map_option (\<lambda>e. hd (nsr_Values e)) (find (\<lambda>e. nsr_Key e = k) (rev es)))"

lemma find_snoc: "find P (xs @ [x]) = (case find P xs of Some y \<Rightarrow> Some y | None \<Rightarrow> if P x then Some x else None)"
  by (induction xs) auto

lemma injectedKeys_loop:
  assumes "has_values es"
  shows "injectedMExpressionKeys_loop m es = Ret (m ++ injected_keys es)"
  using assms
proof (induction es arbitrary: m)
  case Nil
  then show ?case by (simp add: injected_keys_def map_add_def)
next
  case (Cons e es)
  then obtain v vs where v: "nsr_Values e = v # vs" by (cases "nsr_Values e") (auto simp: has_values_def)
  with Cons have "injectedMExpressionKeys_loop m (e # es) = Ret (m(nsr_Key e \<mapsto> v) ++ injected_keys es)"
    by (simp add: has_values_def)
  also have "m(nsr_Key e \<mapsto> v) ++ injected_keys es = m ++ injected_keys (e # es)"
    using v by (auto simp: fun_eq_iff map_add_def injected_keys_def find_snoc split: option.split)
  finally show ?case .
qed

lemma type_expressions_values: "has_values (type_expressions mt grp)"
  using affinity_values_singleton by (fastforce simp: has_values_def)

lemma required_set:
  assumes "requiredTerms pod = Ret ts"
  shows "requiredTerms (setRequiredTerms ts' pod) = Ret ts'"
  using assms by (auto simp: requiredTerms_def setRequiredTerms_def split: option.splits)

lemma requiredTerms_Panic:
  "requiredTerms pod = Panic \<longleftrightarrow>
     (\<exists>aff. ps_Affinity (pod_Spec pod) = Some aff \<and> aff_NodeAffinity aff = None)"
  by (auto simp: requiredTerms_def split: option.splits)

definition terms_have_values :: "Pod \<Rightarrow> bool" where
  "terms_have_values pod \<longleftrightarrow>
     (case requiredTerms pod of Panic \<Rightarrow> True | Ret ts \<Rightarrow> \<forall>t \<in> set ts. has_values (MatchExpressions t))"

lemma injectPodAffinity_exact:
  assumes "requiredTerms pod = Ret ts" and "terms_have_values pod"
  shows "injectPodAffinity pod (type_expressions mt grp) = Ret (setRequiredTerms
    (map (\<lambda>t. t\<lparr>MatchExpressions := thinned (replaced (injected_keys (type_expressions mt grp))) (MatchExpressions t)\<rparr>) ts @
     [\<lparr>MatchExpressions = type_expressions mt grp, MatchFields = []\<rparr>]) pod)"
proof -
  have "\<forall>t \<in> set ts. has_values (MatchExpressions t)"
    using assms by (simp add: terms_have_values_def)
  then show ?thesis
    using assms(1) injectedKeys_loop [OF type_expressions_values [of mt grp], of Map.empty] dedupTerms_thinned [of ts]
    by (simp add: injectPodAffinity_def)
qed

definition inject_edit :: "MachineType \<Rightarrow> string \<Rightarrow> string \<Rightarrow> Pod \<Rightarrow> Pod gores" where
  "inject_edit mt grp name pod =
     rbind (injectResource mt pod (findInjectingTargetContainerIndex pod)) (\<lambda>pod.
     rbind (injectPodAffinity pod (type_expressions mt grp)) (\<lambda>pod.
     Ret (injectPodToleration pod (GenerateToleration name grp))))"

subsection \<open>The injected Pod\<close>

text \<open>
  The Pod after the injection, with the keys and values as they appear in a manifest. First what
  the machine type asks of a Node: the group under the key of the machine type, the ready status,
  and the GPU by family, product or machine.
\<close>

definition asked_labels :: "MachineType \<Rightarrow> string \<Rightarrow> (string \<times> string) list" where
  "asked_labels mt grp =
     [(''imperator.tenzen-y.io/'' @ mt_Name mt, grp), (''imperator.tenzen-y.io/node-pool'', ''ready'')] @
     (case GPU (mt_Spec mt) of
        None \<Rightarrow> []
      | Some g \<Rightarrow>
          if gpu_Family g \<noteq> [] then [(''nvidia.com/gpu.family'', gpu_Family g)]
          else if gpu_Product g \<noteq> [] then [(''nvidia.com/gpu.product'', gpu_Product g)]
          else if gpu_Machine g \<noteq> [] then [(''nvidia.com/gpu.machine'', gpu_Machine g)]
          else [])"

definition asked_term :: "MachineType \<Rightarrow> string \<Rightarrow> NodeSelectorTerm" where
  "asked_term mt grp = \<lparr>MatchExpressions =
     map (\<lambda>(k, v). \<lparr>nsr_Key = k, nsr_Operator = ''In'', nsr_Values = [v]\<rparr>) (asked_labels mt grp), MatchFields = []\<rparr>"

definition asked_tolerations :: "string \<Rightarrow> string \<Rightarrow> Toleration list" where
  "asked_tolerations name grp =
     [\<lparr>tol_Key = ''imperator.tenzen-y.io/'' @ name, tol_Operator = ''Equal'', tol_Value = grp, tol_Effect = ''NoSchedule''\<rparr>,
      \<lparr>tol_Key = ''imperator.tenzen-y.io/node-pool'', tol_Operator = ''Equal'', tol_Value = ''ready'',
        tol_Effect = ''NoSchedule''\<rparr>]"

definition asked_resources :: "MachineType \<Rightarrow> ResourceList" where
  "asked_resources mt = (\<lambda>k.
     case GPU (mt_Spec mt) of
       Some g \<Rightarrow> if k = gpu_Type g then Some (gpu_Num g)
                 else if k = ''cpu'' then Some (CPU (mt_Spec mt))
                 else if k = ''memory'' then Some (Memory (mt_Spec mt)) else None
     | None \<Rightarrow> if k = ''cpu'' then Some (CPU (mt_Spec mt))
               else if k = ''memory'' then Some (Memory (mt_Spec mt)) else None)"

text \<open>The container the Pod's label names, the first one when there is no label or no such container.\<close>

definition target_index :: "Pod \<Rightarrow> nat" where
  "target_index pod =
     (case Labels (pod_Meta pod) ''imperator.tenzen-y.io/injecting-container'' of
        None \<Rightarrow> 0
      | Some name \<Rightarrow>
          (let i = length (takeWhile (\<lambda>c. c_Name c \<noteq> name) (ps_Containers (pod_Spec pod)))
           in if i < length (ps_Containers (pod_Spec pod)) then i else 0))"

text \<open>
  What the injection takes for a repetition: an expression whose first value is the one asked for
  under its key, or is empty when nothing is asked for under its key. Operator and further
  values make no difference.
\<close>

definition taken_for_repeated :: "MachineType \<Rightarrow> string \<Rightarrow> NodeSelectorRequirement \<Rightarrow> bool" where
  "taken_for_repeated mt grp e \<longleftrightarrow>
     hd (nsr_Values e) = (case map_of (rev (asked_labels mt grp)) (nsr_Key e) of None \<Rightarrow> [] | Some v \<Rightarrow> v)"

definition own_terms :: "Pod \<Rightarrow> NodeSelectorTerm list" where
  "own_terms pod =
     (case ps_Affinity (pod_Spec pod) of
        None \<Rightarrow> []
      | Some aff \<Rightarrow> (case aff_NodeAffinity aff of
            None \<Rightarrow> [] | Some na \<Rightarrow> (case na_Required na of None \<Rightarrow> [] | Some ts \<Rightarrow> ts)))"

definition injected_pod :: "MachineType \<Rightarrow> string \<Rightarrow> string \<Rightarrow> Pod \<Rightarrow> Pod" where
  "injected_pod mt grp name pod =
     (let spec = pod_Spec pod; i = target_index pod; R = asked_resources mt in
      pod\<lparr>pod_Spec := \<lparr>
        ps_Containers = (ps_Containers spec)
          [i := (ps_Containers spec ! i)\<lparr>c_Resources := \<lparr>Requests = R, Limits = R\<rparr>\<rparr>],
        ps_Affinity = Some \<lparr>aff_NodeAffinity = Some \<lparr>na_Required = Some
          (map (\<lambda>t. t\<lparr>MatchExpressions := thinned (taken_for_repeated mt grp) (MatchExpressions t)\<rparr>) (own_terms pod) @
           [asked_term mt grp])\<rparr>\<rparr>,
        ps_Tolerations = foldl (\<lambda>ts t. without_first t ts @ [t]) (ps_Tolerations spec) (asked_tolerations name grp),
        ps_NodeName = ps_NodeName spec\<rparr>\<rparr>)"

text \<open>The generators and searches of the code give just this.\<close>

lemma asked_term_eq: "asked_term mt grp = \<lparr>MatchExpressions = type_expressions mt grp, MatchFields = []\<rparr>"
  by (simp add: asked_term_def asked_labels_def GenerateAffinityMatchExpression_def Let_def getGPUSelector_def
      machine_type_key GroupVersion_Group_def MachineStatusKey_def NodeSelectorOpIn_def mode_Value_def
      NodeModeReady_def NvidiaGPUFamilyKey_def NvidiaGPUProductKey_def NvidiaGPUMachineKey_def split: option.split)

lemma asked_tolerations_eq: "asked_tolerations name grp = GenerateToleration name grp"
  by (simp add: asked_tolerations_def GenerateToleration_def machine_type_key GroupVersion_Group_def
      MachineStatusKey_def TolerationOpEqual_def TaintEffectNoSchedule_def mode_Value_def NodeModeReady_def)

lemma asked_resources_eq: "asked_resources mt = convertToResourceQuantity mt"
  by (auto simp: fun_eq_iff asked_resources_def convertToResourceQuantity_def ResourceCPU_def ResourceMemory_def Let_def
      split: option.split)

lemma target_index_eq: "target_index pod = findInjectingTargetContainerIndex pod"
  by (simp add: target_index_def findInjectingTargetContainerIndex_def container_index.search_eq Let_def
      ImperatorResourceInjectContainerNameKey_def split: option.split)

lemma replaced_eq: "replaced (injected_keys (type_expressions mt grp)) = taken_for_repeated mt grp"
proof -
  have es: "type_expressions mt grp =
      map (\<lambda>(k, v). \<lparr>nsr_Key = k, nsr_Operator = ''In'', nsr_Values = [v]\<rparr>) (asked_labels mt grp)"
    using asked_term_eq [of mt grp] by (simp add: asked_term_def)
  have "map_option (\<lambda>e. hd (nsr_Values e)) (find (\<lambda>e. nsr_Key e = k)
      (map (\<lambda>(k, v). \<lparr>nsr_Key = k, nsr_Operator = ''In'', nsr_Values = [v]\<rparr>) ps)) = map_of ps k" for k and ps
    by (induction ps) auto
  then have "injected_keys (type_expressions mt grp) = map_of (rev (asked_labels mt grp))"
    unfolding injected_keys_def es rev_map by (simp add: fun_eq_iff)
  then show ?thesis
    by (auto simp: fun_eq_iff replaced_def taken_for_repeated_def map_get_def split: option.split)
qed

lemma own_terms_eq: "requiredTerms pod = Ret ts \<Longrightarrow> own_terms pod = ts"
  by (auto simp: requiredTerms_def own_terms_def split: option.splits)

lemma inject_edit_exact:
  assumes cs: "ps_Containers (pod_Spec pod) \<noteq> []" and ts: "requiredTerms pod = Ret ts"
    and vals: "terms_have_values pod"
  shows "inject_edit mt grp name pod = Ret (injected_pod mt grp name pod)"
proof -
  let ?i = "findInjectingTargetContainerIndex pod"
  let ?R = "convertToResourceQuantity mt"
  let ?cs = "(ps_Containers (pod_Spec pod))[?i := (ps_Containers (pod_Spec pod) ! ?i)
    \<lparr>c_Resources := \<lparr>Requests = ?R, Limits = ?R\<rparr>\<rparr>]"
  let ?p1 = "pod\<lparr>pod_Spec := (pod_Spec pod)\<lparr>ps_Containers := ?cs\<rparr>\<rparr>"
  let ?ts = "map (\<lambda>t. t\<lparr>MatchExpressions := thinned (taken_for_repeated mt grp) (MatchExpressions t)\<rparr>) ts @ [asked_term mt grp]"
  have r: "injectResource mt pod ?i = Ret ?p1"
    using target_container_bound [OF cs] by (simp add: injectResource_def Let_def)
  have same: "requiredTerms ?p1 = requiredTerms pod" by (simp add: requiredTerms_def)
  then have "terms_have_values ?p1" using vals by (simp add: terms_have_values_def)
  with injectPodAffinity_exact [of ?p1 ts mt grp] same ts
  have a: "injectPodAffinity ?p1 (type_expressions mt grp) = Ret (setRequiredTerms ?ts ?p1)"
    by (simp add: replaced_eq asked_term_eq)
  have "injectPodToleration (setRequiredTerms ?ts ?p1) (GenerateToleration name grp) = injected_pod mt grp name pod"
    using ts own_terms_eq [OF ts]
    by (auto simp: injected_pod_def injectPodToleration_def setRequiredTerms_def requiredTerms_def Let_def inject_fold
        asked_tolerations_eq asked_resources_eq target_index_eq split: option.splits)
  then show ?thesis by (simp add: inject_edit_def r a)
qed

lemma injected_pod_sel:
  "pod_Meta (injected_pod mt grp name pod) = pod_Meta pod"
  "length (ps_Containers (pod_Spec (injected_pod mt grp name pod))) = length (ps_Containers (pod_Spec pod))"
  "requiredTerms (injected_pod mt grp name pod) =
     Ret (map (\<lambda>t. t\<lparr>MatchExpressions := thinned (taken_for_repeated mt grp) (MatchExpressions t)\<rparr>) (own_terms pod) @
          [asked_term mt grp])"
  "ps_Tolerations (pod_Spec (injected_pod mt grp name pod)) =
     injectToleration_loop (GenerateToleration name grp) (ps_Tolerations (pod_Spec pod))"
  by (simp_all add: injected_pod_def Let_def requiredTerms_def inject_fold asked_tolerations_eq)

lemma inject_edit_Panic:
  assumes "terms_have_values pod"
  shows "inject_edit mt grp name pod = Panic \<longleftrightarrow>
    ps_Containers (pod_Spec pod) = [] \<or> requiredTerms pod = Panic"
proof
  assume "inject_edit mt grp name pod = Panic"
  then show "ps_Containers (pod_Spec pod) = [] \<or> requiredTerms pod = Panic"
    using inject_edit_exact [OF _ _ assms, of _ mt grp name] by (cases "requiredTerms pod") auto
next
  assume "ps_Containers (pod_Spec pod) = [] \<or> requiredTerms pod = Panic"
  then show "inject_edit mt grp name pod = Panic"
  proof
    assume "ps_Containers (pod_Spec pod) = []"
    then show ?thesis by (simp add: inject_edit_def injectResource_def Let_def)
  next
    assume panic: "requiredTerms pod = Panic"
    have "injectPodAffinity p es = Panic" if "requiredTerms p = Panic" for p es
      using that by (cases "injectedMExpressionKeys_loop Map.empty es") (simp_all add: injectPodAffinity_def)
    moreover have "requiredTerms p = Panic" if "injectResource mt pod i = Ret p" for p i
      using that panic by (auto simp: injectResource_def requiredTerms_def Let_def split: if_splits)
    ultimately show ?thesis
      by (cases "injectResource mt pod (findInjectingTargetContainerIndex pod)") (auto simp: inject_edit_def)
  qed
qed

definition pod_group :: "Pod \<Rightarrow> string" where
  "pod_group pod = map_get (Labels (pod_Meta pod)) MachineGroupKey"

definition pod_type :: "Pod \<Rightarrow> string" where
  "pod_type pod = map_get (Labels (pod_Meta pod)) MachineTypeKey"

lemma injectToPod_run:
  "injectToPod E pod w =
     (let r = inj_List_Machines E [MachineGroupKey \<mapsto> pod_group pod] w in
      case fst r of
        Inl e \<Rightarrow> (Ret (Inl e), snd r)
      | Inr [] \<Rightarrow> (Ret (Inl (Errorf (''failed to find machine-group <'' @ pod_group pod @ ''>''))), snd r)
      | Inr (m # _) \<Rightarrow>
          (case find (\<lambda>mt. mt_Name mt = pod_type pod) (ms_MachineTypes (m_Spec m)) of
             None \<Rightarrow> (Ret (Inl (Errorf (''machine-group, <'' @ pod_group pod @
                        ''> does not have machine-type, <'' @ pod_type pod @ ''>''))), snd r)
           | Some mt \<Rightarrow>
               (case GetMachineTypeUsage (mst_AvailableMachines (m_Status m)) (pod_type pod) of
                  None \<Rightarrow> (Panic, snd r)
                | Some u \<Rightarrow>
                    (if Reserved u = 0
                     then (Ret (Inl (Errorf (''name: <'' @ Name (pod_Meta pod) @ ''>, namespace: <'' @
                            Namespace (pod_Meta pod) @ ''>; there is no <'' @ mt_Name mt @ ''> left''))), snd r)
                     else (case inject_edit mt (pod_group pod) (pod_type pod) pod of
                             Panic \<Rightarrow> (Panic, snd r)
                           | Ret pod' \<Rightarrow> (Ret (Inr pod'), snd r))))))"
  by (simp add: injectToPod_def findMachineType_def act_simps Let_def findType_loop_eq findUsage_loop_eq
      inject_edit_def pod_group_def pod_type_def split: sum.split list.split option.split gores.split)

lemma injectToPod_ok:
  assumes "fst (injectToPod E pod w) = Ret (Inr pod')" and vals: "terms_have_values pod"
  obtains m ms mt u where "fst (inj_List_Machines E [MachineGroupKey \<mapsto> pod_group pod] w) = Inr (m # ms)"
    and "find (\<lambda>mt. mt_Name mt = pod_type pod) (ms_MachineTypes (m_Spec m)) = Some mt"
    and "GetMachineTypeUsage (mst_AvailableMachines (m_Status m)) (pod_type pod) = Some u" and "Reserved u \<noteq> 0"
    and "ps_Containers (pod_Spec pod) \<noteq> []" and "requiredTerms pod \<noteq> Panic"
    and "pod' = injected_pod mt (pod_group pod) (pod_type pod) pod"
proof -
  from assms(1) obtain m ms mt u where m: "fst (inj_List_Machines E [MachineGroupKey \<mapsto> pod_group pod] w) = Inr (m # ms)"
    "find (\<lambda>mt. mt_Name mt = pod_type pod) (ms_MachineTypes (m_Spec m)) = Some mt"
    "GetMachineTypeUsage (mst_AvailableMachines (m_Status m)) (pod_type pod) = Some u" "Reserved u \<noteq> 0"
    "inject_edit mt (pod_group pod) (pod_type pod) pod = Ret pod'"
    by (auto simp: injectToPod_run Let_def split: sum.splits list.splits option.splits gores.splits if_splits)
  have ok: "ps_Containers (pod_Spec pod) \<noteq> []" "requiredTerms pod \<noteq> Panic"
    using m(5) inject_edit_Panic [OF vals, of mt "pod_group pod" "pod_type pod"] by auto
  then obtain ts where "requiredTerms pod = Ret ts" by (cases "requiredTerms pod") auto
  from inject_edit_exact [OF ok(1) this vals, of mt "pod_group pod" "pod_type pod"] m(5)
  have "pod' = injected_pod mt (pod_group pod) (pod_type pod) pod" by simp
  with m ok show thesis by (intro that)
qed

end
