(* ===== verification/InjectorProps.thy ===== *)
theory InjectorProps
  imports InjectorProofs MachineProps
begin

text \<open>
  The properties of the Pod resource injector, with witnesses that send one guest Pod to it. The
  Pod has two containers, names the second as the target and brings an affinity and a toleration
  of its own.
\<close>

definition ex_expr :: "string \<Rightarrow> string list \<Rightarrow> NodeSelectorRequirement" where
  "ex_expr k vs = \<lparr>nsr_Key = k, nsr_Operator = NodeSelectorOpIn, nsr_Values = vs\<rparr>"

definition ex_container :: "string \<Rightarrow> Container" where
  "ex_container name = GenerateSleeperContainer\<lparr>c_Name := name\<rparr>"

definition ex_tol :: Toleration where
  "ex_tol = \<lparr>tol_Key = ''example.com/spot'', tol_Operator = ''Exists'', tol_Value = [], tol_Effect = []\<rparr>"

definition ex_pod :: Pod where
  "ex_pod = \<lparr>pod_Meta = zero_meta\<lparr>Name := ''train'', Namespace := ''users'',
       Labels := (role_labels PodRoleGuest ''team'' ''a100'')(ImperatorResourceInjectContainerNameKey \<mapsto> ''main'')\<rparr>,
     pod_Spec = \<lparr>ps_Containers = [ex_container ''sidecar'', ex_container ''main''],
       ps_Affinity = Some \<lparr>aff_NodeAffinity = Some \<lparr>na_Required = Some
         [\<lparr>MatchExpressions = [ex_expr ''zone'' [''a''], ex_expr MachineStatusKey [''ready'']], MatchFields = []\<rparr>]\<rparr>\<rparr>,
       ps_Tolerations = [ex_tol], ps_NodeName = []\<rparr>,
     pod_Phase = [], pod_Conditions = []\<rparr>"

definition ex_reserved :: Machine where
  "ex_reserved = ex_machine\<lparr>m_Status := \<lparr>mst_Conditions = [], mst_AvailableMachines =
     [\<lparr>am_Name = ''a100'', am_Usage = \<lparr>Maximum = 3, Reserved = 2, Used = 1, Waiting = 0\<rparr>\<rparr>]\<rparr>\<rparr>"

definition ex_iworld :: "Machine \<Rightarrow> cluster" where
  "ex_iworld m = empty_cluster\<lparr>cl_machines := [(([], ''m''), m)]\<rparr>"

lemma ex_pod_sel [simp]:
  "pod_group ex_pod = ''team''" "pod_type ex_pod = ''a100''" "requiredInjection ex_pod"
  "ps_Containers (pod_Spec ex_pod) = [ex_container ''sidecar'', ex_container ''main'']"
  "requiredTerms ex_pod =
     Ret [\<lparr>MatchExpressions = [ex_expr ''zone'' [''a''], ex_expr MachineStatusKey [''ready'']], MatchFields = []\<rparr>]"
  "terms_have_values ex_pod"
  by (simp_all add: ex_pod_def pod_group_def pod_type_def requiredInjection_def role_labels_def
      requiredTerms_def terms_have_values_def has_values_def ex_expr_def key_defs)

lemma ex_reserved_sel [simp]:
  "Labels (m_Meta ex_reserved) = [MachineGroupKey \<mapsto> ''team'']"
  "ms_MachineTypes (m_Spec ex_reserved) = [ex_type]"
  "avail ex_reserved = [\<lparr>am_Name = ''a100'', am_Usage = \<lparr>Maximum = 3, Reserved = 2, Used = 1, Waiting = 0\<rparr>\<rparr>]"
  by (simp_all add: ex_reserved_def) (simp_all add: ex_machine_def)

lemma ex_list:
  "Labels (m_Meta m) = [MachineGroupKey \<mapsto> ''team''] \<Longrightarrow>
   mem_list_machines [MachineGroupKey \<mapsto> ''team''] (ex_iworld m) = (Inr [m], ex_iworld m)"
  by (simp add: mem_list_machines_def ex_iworld_def empty_cluster_def selects_def)

subsection \<open>The edit\<close>

text \<open>
  C4: the injection, exactly. A guest Pod that has a container and, if it has an affinity at all,
  a node affinity whose expressions have values, and whose machine type its group offers with a
  reservation left, becomes the Pod \<open>injected_pod\<close>, and nothing else happens; no error and no
  panic. In that Pod the container named by the label, or else the first, has the CPU, memory and
  GPU of the machine type as requests and limits; the Pod's own node selector terms stand in their
  order, each thinned out by its expressions whose first value is the one asked for under their key
  (or is empty where nothing is asked for), and behind them stands one term that asks for the group,
  the ready status and the GPU; of each of the two tolerations the first of the same key and value
  is dropped before it is appended. All else is as it was.
\<close>
theorem injection_exact:
  assumes "fst (inj_List_Machines E [MachineGroupKey \<mapsto> pod_group pod] w) = Inr (m # ms)"
    and "find (\<lambda>mt. mt_Name mt = pod_type pod) (ms_MachineTypes (m_Spec m)) = Some mt"
    and "GetMachineTypeUsage (avail m) (pod_type pod) = Some u" and "Reserved u \<noteq> 0"
    and "ps_Containers (pod_Spec pod) \<noteq> []" and "requiredTerms pod = Ret ts" and "terms_have_values pod"
  shows "injectToPod E pod w =
    (Ret (Inr (injected_pod mt (pod_group pod) (pod_type pod) pod)),
     snd (inj_List_Machines E [MachineGroupKey \<mapsto> pod_group pod] w))"
  using assms(1-4) inject_edit_exact [OF assms(5-7), of mt "pod_group pod" "pod_type pod"]
  by (simp add: injectToPod_run Let_def)

theorem injection_exact_witness:
  "injectToPod (mem_injector_env ex_pod) ex_pod (ex_iworld ex_reserved) =
     (Ret (Inr (injected_pod ex_type ''team'' ''a100'' ex_pod)), ex_iworld ex_reserved)"
  using injection_exact [where E = "mem_injector_env ex_pod" and pod = ex_pod and w = "ex_iworld ex_reserved"
      and m = ex_reserved and ms = "[]" and mt = ex_type
      and u = "\<lparr>Maximum = 3, Reserved = 2, Used = 1, Waiting = 0\<rparr>"
      and ts = "[\<lparr>MatchExpressions = [ex_expr ''zone'' [''a''], ex_expr MachineStatusKey [''ready'']], MatchFields = []\<rparr>]"]
  by (simp add: ex_list)

text \<open>That Pod, computed: the repeated expression is gone, the second container is the target.\<close>

lemma ex_injected:
  "requiredTerms (injected_pod ex_type ''team'' ''a100'' ex_pod) =
     Ret [\<lparr>MatchExpressions = [ex_expr ''zone'' [''a'']], MatchFields = []\<rparr>, asked_term ex_type ''team'']"
  "target_index ex_pod = 1"
  by (simp_all add: injected_pod_sel own_terms_eq [OF ex_pod_sel(5)])
    (simp_all add: thinned_def taken_for_repeated_def asked_labels_def ex_type_def ex_expr_def MachineStatusKey_def
      target_index_def ex_pod_def role_labels_def ex_container_def key_defs)

text \<open>
  When the injection panics. For a Pod whose match expressions all have values it panics
  exactly when the group's first Machine offers the machine type and either its status has no
  entry for it yet (line 136 reads through a nil pointer), or a reservation is left and the Pod
  has no container or an affinity without node affinity (lines 201 and 244).
\<close>
theorem injection_panics_iff:
  assumes "terms_have_values pod"
  shows "fst (injectToPod E pod w) = Panic \<longleftrightarrow>
    (\<exists>m ms mt. fst (inj_List_Machines E [MachineGroupKey \<mapsto> pod_group pod] w) = Inr (m # ms) \<and>
       find (\<lambda>mt. mt_Name mt = pod_type pod) (ms_MachineTypes (m_Spec m)) = Some mt \<and>
       (case GetMachineTypeUsage (avail m) (pod_type pod) of
          None \<Rightarrow> True
        | Some u \<Rightarrow> Reserved u \<noteq> 0 \<and> (ps_Containers (pod_Spec pod) = [] \<or>
            (\<exists>aff. ps_Affinity (pod_Spec pod) = Some aff \<and> aff_NodeAffinity aff = None))))"
proof -
  have "fst (injectToPod E pod w) = Panic \<longleftrightarrow>
    (\<exists>m ms mt. fst (inj_List_Machines E [MachineGroupKey \<mapsto> pod_group pod] w) = Inr (m # ms) \<and>
       find (\<lambda>mt. mt_Name mt = pod_type pod) (ms_MachineTypes (m_Spec m)) = Some mt \<and>
       (case GetMachineTypeUsage (avail m) (pod_type pod) of
          None \<Rightarrow> True
        | Some u \<Rightarrow> Reserved u \<noteq> 0 \<and> inject_edit mt (pod_group pod) (pod_type pod) pod = Panic))"
    by (auto simp: injectToPod_run Let_def split: sum.split list.split option.split gores.split)
  then show ?thesis unfolding inject_edit_Panic [OF assms] requiredTerms_Panic .
qed

theorem injection_panics_iff_witness:
  "fst (injectToPod (mem_injector_env ex_pod) ex_pod
     (ex_iworld (ex_reserved\<lparr>m_Status := \<lparr>mst_Conditions = [], mst_AvailableMachines = []\<rparr>\<rparr>))) = Panic"
  unfolding injection_panics_iff [OF ex_pod_sel(6)]
  by (simp add: ex_list)

text \<open>
  An expression without values, as the operators Exists and DoesNotExist have it, crashes the
  webhook: a Pod whose first term begins with one makes the injection panic (line 259 reads the
  first value of every expression).
\<close>
theorem empty_values_panic:
  assumes "requiredTerms pod \<noteq> Panic"
  shows "injectPodAffinity
     (setRequiredTerms (\<lparr>MatchExpressions = e\<lparr>nsr_Values := []\<rparr> # es, MatchFields = fs\<rparr> # ts) pod)
     (GenerateAffinityMatchExpression mt grp) = Panic"
proof -
  let ?t = "\<lparr>MatchExpressions = e\<lparr>nsr_Values := []\<rparr> # es, MatchFields = fs\<rparr>"
  obtain ts0 where "requiredTerms pod = Ret ts0" using assms by (cases "requiredTerms pod") auto
  then have "requiredTerms (setRequiredTerms (?t # ts) pod) = Ret (?t # ts)" by (rule required_set)
  moreover have "dedupTerms keys (?t # ts) = Panic" for keys
    by (simp add: dedupTerm_def Let_def dedupTerm_loop.simps)
  ultimately show ?thesis
    using injectedKeys_loop [OF type_expressions_values [of mt grp], of Map.empty]
    by (simp add: injectPodAffinity_def)
qed

theorem empty_values_panic_witness:
  "injectPodAffinity
     (setRequiredTerms [\<lparr>MatchExpressions = [ex_expr ''gpu'' []], MatchFields = []\<rparr>] ex_pod)
     (GenerateAffinityMatchExpression ex_type ''team'') = Panic"
  using empty_values_panic [of ex_pod "ex_expr ''gpu'' []" "[]" "[]" "[]" ex_type "''team''"]
  by (simp add: ex_expr_def)

subsection \<open>Deduplication and tolerations\<close>

text \<open>
  C38: the deletion of repeated expressions in place. The loop ranges over the expressions of a term
  and deletes from the backing array it ranges over, each time through the slice header of the
  first length. When all expressions have values it does not panic, and it computes one pass over
  the list: an expression whose first value is the one recorded for its key, or is empty when
  none is recorded, goes; the expression behind it is kept unseen; and for each deletion but one
  the last expression is appended again. Neither the operator of an expression nor its further
  values play a part, so a \<open>NotIn\<close> whose first value is an injected one goes as well.
\<close>
theorem dedup_in_place:
  assumes "has_values (MatchExpressions t)"
  shows "dedupTerm keys t = Ret (t\<lparr>MatchExpressions :=
    thinned (\<lambda>e. hd (nsr_Values e) = (case keys (nsr_Key e) of None \<Rightarrow> [] | Some v \<Rightarrow> v)) (MatchExpressions t)\<rparr>)"
proof -
  have "replaced keys = (\<lambda>e. hd (nsr_Values e) = (case keys (nsr_Key e) of None \<Rightarrow> [] | Some v \<Rightarrow> v))"
    by (auto simp: fun_eq_iff replaced_def map_get_def split: option.split)
  with dedupTerm_thinned [OF assms, of keys] show ?thesis by simp
qed

theorem dedup_in_place_witness:
  "dedupTerm [''status'' \<mapsto> ''ready'', ''group'' \<mapsto> ''team'']
     \<lparr>MatchExpressions = [ex_expr ''group'' [''team''], ex_expr ''status'' [''ready''],
        \<lparr>nsr_Key = ''status'', nsr_Operator = ''NotIn'', nsr_Values = [''ready'', ''maintenance'']\<rparr>,
        ex_expr ''zone'' [''a'']], MatchFields = []\<rparr> =
   Ret \<lparr>MatchExpressions = [ex_expr ''status'' [''ready''], ex_expr ''zone'' [''a''], ex_expr ''zone'' [''a'']],
        MatchFields = []\<rparr>"
  by (subst dedup_in_place) (simp_all add: has_values_def thinned_def ex_expr_def)

text \<open>
  Tolerations. After the injection both tolerations of the machine type are there, every
  toleration of the Pod with another key or value is kept in its place, and when the Pod had
  neither twice, the result is exactly the Pod's other tolerations followed by the two.
\<close>
theorem tolerations_injected:
  assumes "name \<noteq> ''node-pool''"
  shows "let tols = GenerateToleration name grp; ts' = injectToleration_loop tols ts;
      own = (\<lambda>u. \<forall>t \<in> set tols. \<not> same_toleration t u) in
    set tols \<subseteq> set ts' \<and> filter own ts' = filter own ts \<and>
    (if \<forall>t \<in> set tols. length (filter (same_toleration t) ts) \<le> 1 then ts' = filter own ts @ tols else True)"
proof -
  let ?tols = "GenerateToleration name grp"
  have "distinct (map (\<lambda>t. (tol_Key t, tol_Value t)) ?tols)"
    using assms by (simp add: GenerateToleration_def machine_type_key_status)
  from inject_present [OF this] inject_unique [OF this] show ?thesis
    using inject_others [where tols = ?tols and P = "\<lambda>u. \<forall>t \<in> set ?tols. \<not> same_toleration t u"]
    by (simp add: Let_def)
qed

theorem tolerations_injected_witness:
  "injectToleration_loop (GenerateToleration ''a100'' ''team'') [ex_tol] =
     ex_tol # GenerateToleration ''a100'' ''team''"
  using tolerations_injected [of "''a100''" "''team''" "[ex_tol]"]
  by (simp add: Let_def same_toleration_def ex_tol_def GenerateToleration_def GroupVersion_Group_def
      machine_type_key MachineStatusKey_def)

subsection \<open>Handle\<close>

definition not_found_answer :: "goerr + 'a \<Rightarrow> bool" where
  "not_found_answer r = (case r of Inl e \<Rightarrow> is_not_found e | Inr _ \<Rightarrow> False)"

lemma replacePods_run:
  "replacePods E pod w =
     (Ret (if not_found_answer (fst (inj_Get_Pod E (ObjectKeyFromMeta (pod_Meta pod)) w)) then Inr ()
           else Inl (Errorf ''it is forbidden to update the Pod'')),
      snd (inj_Get_Pod E (ObjectKeyFromMeta (pod_Meta pod)) w))"
  by (simp add: replacePods_def act_simps not_found_answer_def split: sum.split)

text \<open>
  Only Pods that ask for it are touched. A Pod without the group label, without the machine
  type label or with another role than guest is answered with the marshalled Pod as it was
  decoded, without a single call of the API server, whatever its containers and affinity are.
\<close>
theorem foreign_pods_pass:
  assumes "inj_Decode E raw = Inr pod"
    and "Labels (pod_Meta pod) MachineGroupKey = None \<or> Labels (pod_Meta pod) MachineTypeKey = None \<or>
      map_get (Labels (pod_Meta pod)) PodRoleKey \<noteq> PodRoleGuest"
  shows "injector_Handle E raw w =
    (Ret (case inj_Marshal E pod of Inl err \<Rightarrow> Errored 500 err
          | Inr s \<Rightarrow> PatchResponseFromRaw raw s), w)"
proof -
  have "\<not> requiredInjection pod" using assms(2) by (auto simp: requiredInjection_def Let_def)
  then show ?thesis
    using assms(1) by (simp add: injector_Handle_def act_simps StatusInternalServerError_def split: sum.split)
qed

definition ex_foreign :: Pod where
  "ex_foreign = ex_pod\<lparr>pod_Meta := zero_meta\<lparr>Labels := [PodRoleKey \<mapsto> PodRoleGuest]\<rparr>\<rparr>"

theorem foreign_pods_pass_witness:
  "injector_Handle (mem_injector_env ex_foreign) ''raw'' empty_cluster =
     (Ret (PatchResponseFromRaw ''raw'' ''{}''), empty_cluster)"
  using foreign_pods_pass [of "mem_injector_env ex_foreign" "''raw''" ex_foreign empty_cluster]
  by (simp add: ex_foreign_def)

text \<open>
  What the group's first Machine says about the machine type of a Pod: nothing, because the group or
  the type is not there or the Machines cannot be listed; or its usage entry, which may be missing.
\<close>

definition offered :: "('w, 'x) injector_env_scheme \<Rightarrow> Pod \<Rightarrow> 'w \<Rightarrow> UsageCondition option option" where
  "offered I pod w =
     (case fst (inj_List_Machines I [MachineGroupKey \<mapsto> pod_group pod] w) of
        Inr (m # _) \<Rightarrow>
          (if pod_type pod \<in> mt_Name ` set (ms_MachineTypes (m_Spec m))
           then Some (GetMachineTypeUsage (avail m) (pod_type pod)) else None)
      | _ \<Rightarrow> None)"

lemma injectToPod_offered:
  "case offered I pod w of
     None \<Rightarrow> \<exists>e. fst (injectToPod I pod w) = Ret (Inl e)
   | Some None \<Rightarrow> fst (injectToPod I pod w) = Panic
   | Some (Some u) \<Rightarrow>
       if Reserved u = 0 then \<exists>e. fst (injectToPod I pod w) = Ret (Inl e)
       else \<exists>mt. fst (injectToPod I pod w) =
         (case inject_edit mt (pod_group pod) (pod_type pod) pod of Panic \<Rightarrow> Panic | Ret pod' \<Rightarrow> Ret (Inr pod'))"
proof (cases "fst (inj_List_Machines I [MachineGroupKey \<mapsto> pod_group pod] w)")
  case (Inl e)
  then show ?thesis by (simp add: offered_def injectToPod_run Let_def)
next
  case (Inr machines)
  show ?thesis
  proof (cases machines)
    case Nil
    with Inr show ?thesis by (simp add: offered_def injectToPod_run Let_def)
  next
    case (Cons m ms)
    show ?thesis
    proof (cases "find (\<lambda>mt. mt_Name mt = pod_type pod) (ms_MachineTypes (m_Spec m))")
      case None
      then have "pod_type pod \<notin> mt_Name ` set (ms_MachineTypes (m_Spec m))" by (auto simp: find_None_iff)
      with None Inr Cons show ?thesis by (simp add: offered_def injectToPod_run Let_def)
    next
      case (Some mt)
      from find_SomeD [OF this] have "pod_type pod \<in> mt_Name ` set (ms_MachineTypes (m_Spec m))" by force
      with Some Inr Cons have offered: "offered I pod w = Some (GetMachineTypeUsage (avail m) (pod_type pod))"
        by (simp add: offered_def)
      have "fst (injectToPod I pod w) =
          (case inject_edit mt (pod_group pod) (pod_type pod) pod of Panic \<Rightarrow> Panic | Ret pod' \<Rightarrow> Ret (Inr pod'))"
        if "GetMachineTypeUsage (avail m) (pod_type pod) = Some u" "Reserved u \<noteq> 0" for u
        using that Some Inr Cons by (simp add: injectToPod_run Let_def split: gores.split)
      moreover have "fst (injectToPod I pod w) = Panic" if "GetMachineTypeUsage (avail m) (pod_type pod) = None"
        using that Some Inr Cons by (simp add: injectToPod_run Let_def)
      moreover have "\<exists>e. fst (injectToPod I pod w) = Ret (Inl e)"
        if "GetMachineTypeUsage (avail m) (pod_type pod) = Some u" "Reserved u = 0" for u
        using that Some Inr Cons by (simp add: injectToPod_run Let_def)
      ultimately show ?thesis
        unfolding offered by (cases "GetMachineTypeUsage (avail m) (pod_type pod)") auto
    qed
  qed
qed

lemma injectToPod_verdict:
  assumes "terms_have_values pod"
  shows "fst (injectToPod I pod w) = Panic \<longleftrightarrow>
      offered I pod w = Some None \<or>
      (\<exists>u. offered I pod w = Some (Some u) \<and> Reserved u \<noteq> 0 \<and>
         (ps_Containers (pod_Spec pod) = [] \<or> requiredTerms pod = Panic))"
    and "(\<exists>pod'. fst (injectToPod I pod w) = Ret (Inr pod')) \<longleftrightarrow>
      (\<exists>u. offered I pod w = Some (Some u) \<and> Reserved u \<noteq> 0 \<and>
         ps_Containers (pod_Spec pod) \<noteq> [] \<and> requiredTerms pod \<noteq> Panic)"
proof -
  note panic = inject_edit_Panic [OF assms, of _ "pod_group pod" "pod_type pod"]
  have "(fst (injectToPod I pod w) = Panic \<longleftrightarrow>
      offered I pod w = Some None \<or>
      (\<exists>u. offered I pod w = Some (Some u) \<and> Reserved u \<noteq> 0 \<and>
         (ps_Containers (pod_Spec pod) = [] \<or> requiredTerms pod = Panic))) \<and>
    ((\<exists>pod'. fst (injectToPod I pod w) = Ret (Inr pod')) \<longleftrightarrow>
      (\<exists>u. offered I pod w = Some (Some u) \<and> Reserved u \<noteq> 0 \<and>
         ps_Containers (pod_Spec pod) \<noteq> [] \<and> requiredTerms pod \<noteq> Panic))"
  proof (cases "\<exists>u. offered I pod w = Some (Some u) \<and> Reserved u \<noteq> 0")
    case True
    then obtain u mt where u: "offered I pod w = Some (Some u)" "Reserved u \<noteq> 0"
      and run: "fst (injectToPod I pod w) =
        (case inject_edit mt (pod_group pod) (pod_type pod) pod of Panic \<Rightarrow> Panic | Ret pod' \<Rightarrow> Ret (Inr pod'))"
      using injectToPod_offered [of I pod w] by auto
    then show ?thesis
      using panic [of mt] by (cases "inject_edit mt (pod_group pod) (pod_type pod) pod") simp_all
  next
    case False
    then show ?thesis
      using injectToPod_offered [of I pod w] by (auto split: option.splits)
  qed
  then show "fst (injectToPod I pod w) = Panic \<longleftrightarrow>
      offered I pod w = Some None \<or>
      (\<exists>u. offered I pod w = Some (Some u) \<and> Reserved u \<noteq> 0 \<and>
         (ps_Containers (pod_Spec pod) = [] \<or> requiredTerms pod = Panic))"
    and "(\<exists>pod'. fst (injectToPod I pod w) = Ret (Inr pod')) \<longleftrightarrow>
      (\<exists>u. offered I pod w = Some (Some u) \<and> Reserved u \<noteq> 0 \<and>
         ps_Containers (pod_Spec pod) \<noteq> [] \<and> requiredTerms pod \<noteq> Panic)"
    by blast+
qed

text \<open>
  No guest Pod gets in without a reservation. When the webhook answers a guest Pod with a
  patch, the API server did not know the Pod, the group's first Machine offers the machine
  type, its status counts at least one reservation, and the patch is the marshalled result of
  the injection.
\<close>
theorem admitted_guest_has_reservation:
  assumes "inj_Decode E raw = Inr pod" and "requiredInjection pod"
    and "fst (injector_Handle E raw w) = Ret (PatchResponseFromRaw raw s)"
    and "terms_have_values pod"
  shows "\<exists>m ms mt u pod'. not_found_answer (fst (inj_Get_Pod E (ObjectKeyFromMeta (pod_Meta pod)) w)) \<and>
    fst (inj_List_Machines E [MachineGroupKey \<mapsto> pod_group pod]
      (snd (inj_Get_Pod E (ObjectKeyFromMeta (pod_Meta pod)) w))) = Inr (m # ms) \<and>
    find (\<lambda>mt. mt_Name mt = pod_type pod) (ms_MachineTypes (m_Spec m)) = Some mt \<and>
    GetMachineTypeUsage (avail m) (pod_type pod) = Some u \<and> Reserved u \<noteq> 0 \<and>
    pod' = injected_pod mt (pod_group pod) (pod_type pod) pod \<and> inj_Marshal E pod' = Inr s"
proof -
  let ?g = "inj_Get_Pod E (ObjectKeyFromMeta (pod_Meta pod)) w"
  from assms(1-3) have nf: "not_found_answer (fst ?g)"
    and run: "case fst (injectToPod E pod (snd ?g)) of
        Ret (Inr pod') \<Rightarrow> inj_Marshal E pod' = Inr s | _ \<Rightarrow> False"
    by (auto simp: injector_Handle_def act_simps replacePods_run split: gores.splits sum.splits if_splits)
  then obtain pod' where pod': "fst (injectToPod E pod (snd ?g)) = Ret (Inr pod')" "inj_Marshal E pod' = Inr s"
    by (auto split: gores.splits sum.splits)
  show ?thesis
    by (rule injectToPod_ok [OF pod'(1) assms(4)]) (use nf pod'(2) in blast)
qed

theorem admitted_guest_has_reservation_witness:
  "\<exists>mt (u :: UsageCondition) pod'. fst (injector_Handle (mem_injector_env ex_pod) ''raw'' (ex_iworld ex_reserved)) =
      Ret (PatchResponseFromRaw ''raw'' ''{}'') \<and> Reserved u \<noteq> 0 \<and>
      pod' = injected_pod mt ''team'' ''a100'' ex_pod"
proof -
  let ?E = "mem_injector_env ex_pod"
  let ?w = "ex_iworld ex_reserved"
  obtain pod' where i: "injectToPod ?E ex_pod ?w = (Ret (Inr pod'), ?w)"
    using injectToPod_run [of ?E ex_pod ?w]
      inject_edit_exact [of ex_pod _ ex_type "''team''" "''a100''"]
    by (auto simp: ex_list Let_def)
  have "inj_Get_Pod ?E k ?w = (Inl (NotFound (snd k)), ?w)" for k
    by (simp add: ex_iworld_def empty_cluster_def)
  then have run: "fst (injector_Handle ?E ''raw'' ?w) = Ret (PatchResponseFromRaw ''raw'' ''{}'')"
    using i by (simp add: injector_Handle_def act_simps replacePods_run not_found_answer_def)
  have "inj_Decode ?E ''raw'' = Inr ex_pod" by simp
  from admitted_guest_has_reservation [OF this ex_pod_sel(3) run ex_pod_sel(6)]
  obtain mt and u :: UsageCondition and pod2 where "Reserved u \<noteq> 0" "pod2 = injected_pod mt ''team'' ''a100'' ex_pod" by auto
  with run show ?thesis by blast
qed

text \<open>
  A Pod the API server already knows, or cannot be asked about, is denied: every update of
  a guest Pod, also one that leaves its machine type alone, is refused with the same message,
  before any Machine is read.
\<close>
theorem known_guest_denied:
  assumes "inj_Decode E raw = Inr pod" and "requiredInjection pod"
    and "\<not> not_found_answer (fst (inj_Get_Pod E (ObjectKeyFromMeta (pod_Meta pod)) w))"
  shows "injector_Handle E raw w =
    (Ret (Denied ''it is forbidden to update the Pod''), snd (inj_Get_Pod E (ObjectKeyFromMeta (pod_Meta pod)) w))"
  using assms by (simp add: injector_Handle_def act_simps replacePods_run)

theorem known_guest_denied_witness:
  "fst (injector_Handle (mem_injector_env ex_pod) ''raw'' (empty_cluster\<lparr>cl_pods := [ex_pod]\<rparr>)) =
     Ret (Denied ''it is forbidden to update the Pod'')"
  using known_guest_denied [of "mem_injector_env ex_pod" "''raw''" ex_pod "empty_cluster\<lparr>cl_pods := [ex_pod]\<rparr>"]
  by (simp add: not_found_answer_def)

lemma handle_guest:
  assumes "inj_Decode I raw = Inr pod" and "requiredInjection pod"
  shows "injector_Handle I raw w =
    (let r = inj_Get_Pod I (ObjectKeyFromMeta (pod_Meta pod)) w; i = injectToPod I pod (snd r) in
     if \<not> not_found_answer (fst r) then (Ret (Denied ''it is forbidden to update the Pod''), snd r)
     else (case fst i of
             Panic \<Rightarrow> Panic
           | Ret (Inl e) \<Rightarrow> Ret (Denied (err_text e))
           | Ret (Inr pod') \<Rightarrow> Ret (case inj_Marshal I pod' of
               Inl e \<Rightarrow> Errored 500 e | Inr s \<Rightarrow> PatchResponseFromRaw raw s), snd i))"
  using assms
  by (simp add: injector_Handle_def act_simps replacePods_run StatusInternalServerError_def Let_def
      split: gores.split sum.split)

text \<open>
  C15: the answer to a guest Pod, on every branch. Take a Pod that asks for injection, whose match
  expressions have values and which can be marshalled. The webhook answers with a patch exactly
  when the API server does not know the Pod, the first Machine of the group offers the machine
  type and its status counts a reservation of it, and the Pod has a container and, if it has an
  affinity, a node affinity. It panics exactly when the Pod is unknown, the type is offered, and
  either the status has no entry for the type yet (line 136 reads through a nil pointer) or a
  reservation is left and the Pod has no container (line 201) or an affinity without node
  affinity (line 244). In every other case the Pod is denied; it is never answered with an error.
\<close>
theorem guest_verdict:
  assumes "inj_Decode I raw = Inr pod" and "requiredInjection pod" and "terms_have_values pod"
    and "\<forall>p. \<exists>s. inj_Marshal I p = Inr s"
  shows "let r = inj_Get_Pod I (ObjectKeyFromMeta (pod_Meta pod)) w; new = not_found_answer (fst r);
      place = offered I pod (snd r); answer = fst (injector_Handle I raw w);
      malformed = (ps_Containers (pod_Spec pod) = [] \<or>
        (\<exists>aff. ps_Affinity (pod_Spec pod) = Some aff \<and> aff_NodeAffinity aff = None))
    in ((\<exists>s. answer = Ret (PatchResponseFromRaw raw s)) \<longleftrightarrow>
        new \<and> (\<exists>u. place = Some (Some u) \<and> Reserved u \<noteq> 0) \<and> \<not> malformed) \<and>
      (answer = Panic \<longleftrightarrow>
        new \<and> (place = Some None \<or> (\<exists>u. place = Some (Some u) \<and> Reserved u \<noteq> 0) \<and> malformed)) \<and>
      (answer = Panic \<or> (\<exists>s. answer = Ret (PatchResponseFromRaw raw s)) \<or> (\<exists>e. answer = Ret (Denied e)))"
proof -
  let ?r = "inj_Get_Pod I (ObjectKeyFromMeta (pod_Meta pod)) w"
  let ?i = "fst (injectToPod I pod (snd ?r))"
  note verdict = injectToPod_verdict [OF assms(3), of I "snd ?r", unfolded requiredTerms_Panic]
  obtain f where "\<forall>p. inj_Marshal I p = Inr (f p)" using choice [OF assms(4)] by blast
  then have answer: "fst (injector_Handle I raw w) =
      (if \<not> not_found_answer (fst ?r) then Ret (Denied ''it is forbidden to update the Pod'')
       else case ?i of Panic \<Rightarrow> Panic | Ret (Inl e) \<Rightarrow> Ret (Denied (err_text e))
         | Ret (Inr pod') \<Rightarrow> Ret (PatchResponseFromRaw raw (f pod')))"
    by (simp add: handle_guest [OF assms(1,2)] Let_def split: gores.split sum.split)
  have patch: "(\<exists>s. fst (injector_Handle I raw w) = Ret (PatchResponseFromRaw raw s)) \<longleftrightarrow>
      not_found_answer (fst ?r) \<and> (\<exists>pod'. ?i = Ret (Inr pod'))"
    unfolding answer by (auto split: gores.splits sum.splits)
  have panic: "fst (injector_Handle I raw w) = Panic \<longleftrightarrow> not_found_answer (fst ?r) \<and> ?i = Panic"
    unfolding answer by (auto split: gores.splits sum.splits)
  have "fst (injector_Handle I raw w) = Panic \<or>
      (\<exists>s. fst (injector_Handle I raw w) = Ret (PatchResponseFromRaw raw s)) \<or>
      (\<exists>e. fst (injector_Handle I raw w) = Ret (Denied e))"
    unfolding answer by (auto split: gores.splits sum.splits)
  then show ?thesis unfolding Let_def patch panic verdict by blast
qed

theorem guest_verdict_witness:
  "\<exists>s. fst (injector_Handle (mem_injector_env ex_pod) ''raw'' (ex_iworld ex_reserved)) =
     Ret (PatchResponseFromRaw ''raw'' s)"
proof -
  let ?I = "mem_injector_env ex_pod" and ?w = "ex_iworld ex_reserved"
  have "inj_Decode ?I ''raw'' = Inr ex_pod" "\<forall>p. \<exists>s. inj_Marshal ?I p = Inr s" by simp_all
  note verdict = guest_verdict [where w = ?w, OF this(1) ex_pod_sel(3,6) this(2), unfolded Let_def]
  have "inj_Get_Pod ?I k ?w = (Inl (NotFound (snd k)), ?w)" for k
    by (simp add: ex_iworld_def empty_cluster_def)
  moreover have "offered ?I ex_pod ?w = Some (Some \<lparr>Maximum = 3, Reserved = 2, Used = 1, Waiting = 0\<rparr>)"
    by (simp add: offered_def ex_list)
  moreover have "\<not> (\<exists>aff. ps_Affinity (pod_Spec ex_pod) = Some aff \<and> aff_NodeAffinity aff = None)"
    by (simp add: ex_pod_def)
  ultimately show ?thesis
    using conjunct1 [OF verdict, THEN iffD2] by (simp add: not_found_answer_def)
qed

end
