(* ===== verification/WebhookProps.thy ===== *)
theory WebhookProps
  imports MachineProps NodePoolProps
begin

text \<open>
  The Machine webhook: what it admits, stated without its loops, that admission keeps machine
  groups unique, what defaulting does to the status, and what the checks let through.
\<close>

subsection \<open>The loops of the validation\<close>

lemma validateLabel_loop_ok: "validateLabel_loop r ms = Inr () \<longleftrightarrow> (\<forall>m \<in> set ms. Name (m_Meta m) = Name (m_Meta r))"
  by (induction ms) auto

lemma existNodes: "existNodes_loop m ns k = (if k \<in> node_Name ` set ns then Some True else m k)"
  by (induction ns arbitrary: m) auto

lemma validateNodeName_ok: "validateNodeName_loop ex nps = Inr () \<longleftrightarrow> (\<forall>np \<in> set nps. ex (np_Name np) = Some True)"
  by (induction nps) auto

lemma machineTypeMap_ok:
  assumes "\<forall>x \<in> set mts. m (mt_Name x) = None" and "distinct (map mt_Name mts)"
  shows "machineTypeMap_loop m mts =
    Inr (\<lambda>k. case find (\<lambda>mt. mt_Name mt = k) mts of Some mt \<Rightarrow> Some mt | None \<Rightarrow> m k)"
  using assms
proof (induction mts arbitrary: m)
  case (Cons mt mts)
  have new: "\<forall>x \<in> set mts. mt_Name x \<noteq> mt_Name mt"
    using Cons.prems(2) by (metis distinct.simps(2) image_eqI list.simps(9) set_map)
  then have "find (\<lambda>x. mt_Name x = mt_Name mt) mts = None" by (simp add: find_None_iff)
  moreover have "machineTypeMap_loop (m(mt_Name mt \<mapsto> mt)) mts =
      Inr (\<lambda>k. case find (\<lambda>mt. mt_Name mt = k) mts of Some mt \<Rightarrow> Some mt | None \<Rightarrow> (m(mt_Name mt \<mapsto> mt)) k)"
    by (rule Cons.IH) (use Cons.prems new in simp_all)
  ultimately show ?case
    using Cons.prems(1) by (auto simp del: fun_upd_apply split: option.split intro!: ext) auto
qed simp

lemma machineTypeMap_distinct:
  "machineTypeMap_loop m mts = Inr m' \<Longrightarrow> (\<forall>x \<in> set mts. m (mt_Name x) = None) \<and> distinct (map mt_Name mts)"
proof (induction mts arbitrary: m)
  case (Cons mt mts)
  from Cons.prems have new: "m (mt_Name mt) = None"
    and loop: "machineTypeMap_loop (m(mt_Name mt \<mapsto> mt)) mts = Inr m'"
    by (auto split: if_splits)
  from Cons.IH [OF loop] new show ?case by (auto split: if_splits)
qed simp

lemma validateEntryTypes_ok:
  "validateEntryTypes_loop m ts = Inr () \<longleftrightarrow> (\<forall>t \<in> set ts. m (npmt_Name t) \<noteq> None)"
  by (induction ts) auto

lemma validateNodePool_ok:
  "validateNodePool_loop m ps = Inr () \<longleftrightarrow>
     (\<forall>p \<in> set ps. length (np_MachineType p) = 1 \<and> (\<forall>t \<in> set (np_MachineType p). m (npmt_Name t) \<noteq> None))"
proof (induction ps)
  case (Cons p ps)
  then show ?case
    by (cases "validateEntryTypes_loop m (np_MachineType p)")
      (use validateEntryTypes_ok [of m "np_MachineType p"] in \<open>simp_all add: Cons\<close>)
qed simp

lemma gpuTypes: "gpuSelectorTypes_loop acc ss = acc @ filter (\<lambda>s. s \<noteq> []) ss"
  by (induction ss arbitrary: acc) auto

definition gpu_valid :: "(quantity \<Rightarrow> int) \<Rightarrow> GPUSpec \<Rightarrow> bool" where
  "gpu_valid qv g \<longleftrightarrow> gpu_Type g \<noteq> [] \<and> 0 \<le> qv (gpu_Num g) \<and>
     length (filter (\<lambda>s. s \<noteq> []) [gpu_Family g, gpu_Product g, gpu_Machine g]) = 1"

lemma validateGPU_ok:
  "validateGPU_loop qv mts = Inr () \<longleftrightarrow>
     (\<forall>mt \<in> set mts. case GPU (mt_Spec mt) of None \<Rightarrow> True | Some g \<Rightarrow> gpu_valid qv g)"
proof (induction mts)
  case (Cons mt mts)
  then show ?case
    by (cases "GPU (mt_Spec mt)") (auto simp: Let_def gpuTypes gpu_valid_def not_less)
qed simp

text \<open>A valid specification of a Machine.\<close>

definition spec_valid :: "(quantity \<Rightarrow> int) \<Rightarrow> MachineSpec \<Rightarrow> bool" where
  "spec_valid qv spec \<longleftrightarrow>
     distinct (map mt_Name (ms_MachineTypes spec)) \<and>
     (\<forall>p \<in> set (ms_NodePool spec). \<exists>t. np_MachineType p = [t] \<and> npmt_Name t \<in> mt_Name ` set (ms_MachineTypes spec)) \<and>
     (\<forall>mt \<in> set (ms_MachineTypes spec). case GPU (mt_Spec mt) of None \<Rightarrow> True | Some g \<Rightarrow> gpu_valid qv g)"

lemma machineTypes_ok:
  "ValidateNodePoolMachineTypeName r = Inr () \<longleftrightarrow>
     distinct (map mt_Name (ms_MachineTypes (m_Spec r))) \<and>
     (\<forall>p \<in> set (ms_NodePool (m_Spec r)). \<exists>t. np_MachineType p = [t] \<and>
        npmt_Name t \<in> mt_Name ` set (ms_MachineTypes (m_Spec r)))"
proof -
  have found: "find (\<lambda>mt. mt_Name mt = k) mts \<noteq> None \<longleftrightarrow> k \<in> mt_Name ` set mts" for k and mts :: "MachineType list"
    by (auto simp: find_None_iff)
  have one: "length ts = 1 \<and> (\<forall>t \<in> set ts. P t) \<longleftrightarrow> (\<exists>t. ts = [t] \<and> P t)" for ts :: "NodePoolMachineType list" and P
    by (cases ts) auto
  let ?mts = "ms_MachineTypes (m_Spec r)"
  show ?thesis
  proof (cases "distinct (map mt_Name ?mts)")
    case True
    have "(\<lambda>k. case find (\<lambda>mt. mt_Name mt = k) ?mts of Some mt \<Rightarrow> Some mt | None \<Rightarrow> None)
        = (\<lambda>k. find (\<lambda>mt. mt_Name mt = k) ?mts)"
      by (auto simp: fun_eq_iff split: option.split)
    with machineTypeMap_ok [OF _ True, of Map.empty]
    have "machineTypeMap_loop Map.empty ?mts = Inr (\<lambda>k. find (\<lambda>mt. mt_Name mt = k) ?mts)" by simp
    then have "ValidateNodePoolMachineTypeName r = Inr () \<longleftrightarrow> validateNodePool_loop
        (\<lambda>k. find (\<lambda>mt. mt_Name mt = k) ?mts) (ms_NodePool (m_Spec r)) = Inr ()"
      by (simp add: ValidateNodePoolMachineTypeName_def)
    then show ?thesis using True unfolding validateNodePool_ok found one by blast
  next
    case False
    then obtain e where "machineTypeMap_loop Map.empty ?mts = Inl e"
      using machineTypeMap_distinct [of Map.empty ?mts] by (cases "machineTypeMap_loop Map.empty ?mts") auto
    with False show ?thesis by (simp add: ValidateNodePoolMachineTypeName_def)
  qed
qed

subsection \<open>What is admitted\<close>

lemma validate_spec:
  "(fst (ValidateAllOperation E r w) = Ret (Inr ()) \<longleftrightarrow>
     (\<exists>g ms ns. let c = wh_List_Machines E [MachineGroupKey \<mapsto> g] w in
        Labels (m_Meta r) MachineGroupKey = Some g \<and> fst c = Inr ms \<and>
        (\<forall>m \<in> set ms. Name (m_Meta m) = Name (m_Meta r)) \<and>
        fst (wh_List_Nodes E (snd c)) = Inr ns \<and>
        np_Name ` set (ms_NodePool (m_Spec r)) \<subseteq> node_Name ` set ns \<and>
        spec_valid (Quantity_Value E) (m_Spec r))) \<and>
   fst (ValidateAllOperation E r w) \<noteq> Panic"
proof -
  have label: "fst (ValidateLabel E r w) = Ret (Inr ()) \<longleftrightarrow>
      (\<exists>g ms. Labels (m_Meta r) MachineGroupKey = Some g \<and>
        fst (wh_List_Machines E [MachineGroupKey \<mapsto> g] w) = Inr ms \<and>
        (\<forall>m \<in> set ms. Name (m_Meta m) = Name (m_Meta r)))"
    by (auto simp: ValidateLabel_def act_simps validateLabel_loop_ok split: option.split sum.split)
  have label_w: "snd (ValidateLabel E r w) = snd (wh_List_Machines E [MachineGroupKey \<mapsto> g] w)"
    if "Labels (m_Meta r) MachineGroupKey = Some g" for g
    using that by (auto simp: ValidateLabel_def act_simps split: sum.split)
  have nodes: "fst (ValidateNodeName E r v) = Ret (Inr ()) \<longleftrightarrow>
      (\<exists>ns. fst (wh_List_Nodes E v) = Inr ns \<and>
        np_Name ` set (ms_NodePool (m_Spec r)) \<subseteq> node_Name ` set ns)" for v
    by (auto simp: ValidateNodeName_def act_simps validateNodeName_ok existNodes split: sum.split if_splits)
  have spec: "spec_valid (Quantity_Value E) (m_Spec r) \<longleftrightarrow>
      ValidateNodePoolMachineTypeName r = Inr () \<and> ValidateGPUSpec E r = Inr ()"
    by (simp add: spec_valid_def machineTypes_ok ValidateGPUSpec_def validateGPU_ok)
  have all: "fst (ValidateAllOperation E r w) = Ret (Inr ()) \<longleftrightarrow>
      fst (ValidateLabel E r w) = Ret (Inr ()) \<and>
      fst (ValidateNodeName E r (snd (ValidateLabel E r w))) = Ret (Inr ()) \<and>
      spec_valid (Quantity_Value E) (m_Spec r)"
    unfolding spec by (auto simp: ValidateAllOperation_def act_simps split: gores.split sum.split)
  have "returns (ValidateAllOperation E r)"
    unfolding ValidateAllOperation_def ValidateLabel_def ValidateNodeName_def
    by (intro returns_intros)
  then have "fst (ValidateAllOperation E r w) \<noteq> Panic" by (simp add: returns_def)
  moreover have "fst (ValidateAllOperation E r w) = Ret (Inr ()) \<longleftrightarrow>
     (\<exists>g ms ns. let c = wh_List_Machines E [MachineGroupKey \<mapsto> g] w in
        Labels (m_Meta r) MachineGroupKey = Some g \<and> fst c = Inr ms \<and>
        (\<forall>m \<in> set ms. Name (m_Meta m) = Name (m_Meta r)) \<and>
        fst (wh_List_Nodes E (snd c)) = Inr ns \<and>
        np_Name ` set (ms_NodePool (m_Spec r)) \<subseteq> node_Name ` set ns \<and>
        spec_valid (Quantity_Value E) (m_Spec r))"
    unfolding all label nodes Let_def using label_w by fastforce
  ultimately show ?thesis by simp
qed

text \<open>
  C5: the webhook admits exactly the valid Machines. A create or update is accepted if and only
  if the Machine carries the group label, every listed Machine of that group has its name, its
  Nodes all exist, its machine types have different names, each entry of the node pool names
  exactly one of them, and every GPU has a type, a count that is not negative and exactly one
  of family, product and machine; and if the two list calls succeed. It never panics.
\<close>
theorem validate_iff:
  "(fst (ValidateAllOperation E r w) = Ret (Inr ()) \<longleftrightarrow>
     (\<exists>g ms ns. let c = wh_List_Machines E [MachineGroupKey \<mapsto> g] w in
        Labels (m_Meta r) MachineGroupKey = Some g \<and> fst c = Inr ms \<and>
        (\<forall>m \<in> set ms. Name (m_Meta m) = Name (m_Meta r)) \<and>
        fst (wh_List_Nodes E (snd c)) = Inr ns \<and>
        np_Name ` set (ms_NodePool (m_Spec r)) \<subseteq> node_Name ` set ns \<and>
        spec_valid (Quantity_Value E) (m_Spec r))) \<and>
   fst (ValidateAllOperation E r w) \<noteq> Panic"
  by (rule validate_spec)

lemma validate_specD:
  assumes "fst (ValidateAllOperation E r w) = Ret (Inr ())"
  obtains g ms ns where "Labels (m_Meta r) MachineGroupKey = Some g"
    and "fst (wh_List_Machines E [MachineGroupKey \<mapsto> g] w) = Inr ms"
    and "\<forall>m \<in> set ms. Name (m_Meta m) = Name (m_Meta r)"
    and "spec_valid (Quantity_Value E) (m_Spec r)"
  using validate_spec [of E r w] assms unfolding Let_def by blast

lemma validate_specI:
  assumes "Labels (m_Meta r) MachineGroupKey = Some g"
    and "wh_List_Machines E [MachineGroupKey \<mapsto> g] w = (Inr ms, w1)"
    and "\<forall>m \<in> set ms. Name (m_Meta m) = Name (m_Meta r)" and "wh_List_Nodes E w1 = (Inr ns, w2)"
    and "np_Name ` set (ms_NodePool (m_Spec r)) \<subseteq> node_Name ` set ns"
    and "spec_valid (Quantity_Value E) (m_Spec r)"
  shows "fst (ValidateAllOperation E r w) = Ret (Inr ())"
  using assms by (intro validate_spec [THEN conjunct1, THEN iffD2] exI [of _ g] exI [of _ ms] exI [of _ ns])
    (simp add: Let_def)

lemma selects_single: "selects [k \<mapsto> v] m \<longleftrightarrow> m k = Some v"
  by (auto simp: selects_def map_le_def)

definition groups_unique :: "Machine list \<Rightarrow> bool" where
  "groups_unique ms \<longleftrightarrow>
     (\<forall>m \<in> set ms. \<forall>m' \<in> set ms. \<forall>g. Labels (m_Meta m) MachineGroupKey = Some g \<longrightarrow>
        Labels (m_Meta m') MachineGroupKey = Some g \<longrightarrow> Name (m_Meta m) = Name (m_Meta m'))"

lemma groups_uniqueD:
  "groups_unique ms \<Longrightarrow> m \<in> set ms \<Longrightarrow> m' \<in> set ms \<Longrightarrow> Labels (m_Meta m) MachineGroupKey = Some g \<Longrightarrow>
   Labels (m_Meta m') MachineGroupKey = Some g \<Longrightarrow> Name (m_Meta m) = Name (m_Meta m')"
  unfolding groups_unique_def by blast

lemma groups_uniqueI:
  "(\<And>m m' g. m \<in> set ms \<Longrightarrow> m' \<in> set ms \<Longrightarrow> Labels (m_Meta m) MachineGroupKey = Some g \<Longrightarrow>
      Labels (m_Meta m') MachineGroupKey = Some g \<Longrightarrow> Name (m_Meta m) = Name (m_Meta m')) \<Longrightarrow>
   groups_unique ms"
  unfolding groups_unique_def by blast

lemma groups_unique_put:
  assumes "groups_unique ms"
    and "\<And>m g. m \<in> set ms \<Longrightarrow> Labels (m_Meta r) MachineGroupKey = Some g \<Longrightarrow>
      Labels (m_Meta m) MachineGroupKey = Some g \<Longrightarrow> Name (m_Meta m) = Name (m_Meta r)"
  shows "groups_unique (r # filter (\<lambda>m. Name (m_Meta m) \<noteq> Name (m_Meta r)) ms)"
proof (rule groups_uniqueI)
  let ?kept = "r # filter (\<lambda>m. Name (m_Meta m) \<noteq> Name (m_Meta r)) ms"
  fix m m' g
  assume m: "m \<in> set ?kept" and m': "m' \<in> set ?kept"
    and l: "Labels (m_Meta m) MachineGroupKey = Some g" and l': "Labels (m_Meta m') MachineGroupKey = Some g"
  from m consider "m = r" | "m \<in> set ms" by auto
  then show "Name (m_Meta m) = Name (m_Meta m')"
  proof cases
    case 1
    with m' l l' assms(2) [of m' g] show ?thesis by auto
  next
    case 2
    with m' l l' assms(2) [of m g] groups_uniqueD [OF assms(1) 2 _ l l'] show ?thesis by auto
  qed
qed

text \<open>
  Machine groups stay unique. If no two stored Machines share a group, and the list call
  answers with the stored Machines that match, then storing an admitted Machine (in place of the
  one of its name, if there is one) keeps it so; the controllers and the injector rely on it
  when they take the only Machine of a group.
\<close>
theorem admission_keeps_groups_unique:
  assumes "groups_unique ms" and "fst (ValidateAllOperation E r w) = Ret (Inr ())"
    and "\<And>sel xs. fst (wh_List_Machines E sel w) = Inr xs \<Longrightarrow> xs = filter (\<lambda>m. selects sel (Labels (m_Meta m))) ms"
  shows "groups_unique (r # filter (\<lambda>m. Name (m_Meta m) \<noteq> Name (m_Meta r)) ms)"
proof -
  obtain g xs where g: "Labels (m_Meta r) MachineGroupKey = Some g"
    and xs: "fst (wh_List_Machines E [MachineGroupKey \<mapsto> g] w) = Inr xs"
      "\<forall>m \<in> set xs. Name (m_Meta m) = Name (m_Meta r)"
    by (rule validate_specD [OF assms(2)])
  have "Name (m_Meta m) = Name (m_Meta r)"
    if "m \<in> set ms" "Labels (m_Meta m) MachineGroupKey = Some g" for m
    using xs assms(3) [OF xs(1)] that by (auto simp: selects_single)
  with g show ?thesis by (intro groups_unique_put [OF assms(1)]) simp
qed

lemma ex_listed:
  "mem_list_machines [MachineGroupKey \<mapsto> ''team''] ex_world = (Inr [ex_machine], ex_world)"
  by (simp add: mem_list_machines_def selects_single) (simp add: ex_machine_def)

lemma ex_validates:
  "fst (ValidateAllOperation (mem_webhook_env [node_of ''n1'' Map.empty []]) ex_machine ex_world) = Ret (Inr ())"
proof (rule validate_specI)
  show "Labels (m_Meta ex_machine) MachineGroupKey = Some ''team''" by (simp add: ex_machine_def)
  show "wh_List_Machines (mem_webhook_env [node_of ''n1'' Map.empty []]) [MachineGroupKey \<mapsto> ''team''] ex_world =
      (Inr [ex_machine], ex_world)"
    by (simp add: ex_listed)
  show "wh_List_Nodes (mem_webhook_env [node_of ''n1'' Map.empty []]) ex_world = (Inr [node_of ''n1'' Map.empty []], ex_world)"
    by simp
qed (simp_all add: ex_machine_def spec_valid_def ex_type_def gpu_valid_def)

theorem validate_iff_witness:
  "spec_valid (Quantity_Value (mem_webhook_env [node_of ''n1'' Map.empty []])) (m_Spec ex_machine)"
  using validate_iff [of "mem_webhook_env [node_of ''n1'' Map.empty []]" ex_machine ex_world] ex_validates
  unfolding Let_def by blast

theorem admission_keeps_groups_unique_witness:
  "groups_unique [ex_machine]"
proof -
  have "groups_unique (ex_machine # filter (\<lambda>m. Name (m_Meta m) \<noteq> Name (m_Meta ex_machine)) [ex_machine])"
  proof (rule admission_keeps_groups_unique [OF _ ex_validates])
    show "groups_unique [ex_machine]" by (simp add: groups_unique_def)
    show "xs = filter (\<lambda>m. selects sel (Labels (m_Meta m))) [ex_machine]"
      if "fst (wh_List_Machines (mem_webhook_env [node_of ''n1'' Map.empty []]) sel ex_world) = Inr xs" for sel xs
      using that by (simp add: mem_list_machines_def split: if_splits)
  qed
  then show ?thesis by simp
qed

subsection \<open>Defaulting\<close>

lemma Default_loop_eq:
  "Default_loop ams mts = ams @ map (\<lambda>mt. \<lparr>am_Name = mt_Name mt, am_Usage =
     \<lparr>Maximum = mt_Available mt, Reserved = 0, Used = 0, Waiting = 0\<rparr>\<rparr>) mts"
  by (induction mts arbitrary: ams) simp_all

lemma usage_append:
  "GetMachineTypeUsage (xs @ ys) t =
     (case GetMachineTypeUsage xs t of Some u \<Rightarrow> Some u | None \<Rightarrow> GetMachineTypeUsage ys t)"
  by (induction xs) auto

lemma usage_new:
  "GetMachineTypeUsage (map (\<lambda>mt. \<lparr>am_Name = mt_Name mt, am_Usage = f mt\<rparr>) mts) t =
     map_option f (find (\<lambda>mt. mt_Name mt = t) mts)"
  by (induction mts) auto

text \<open>
  C40: defaulting. What \<open>Default\<close> makes of a Machine has a usage for every machine type of the
  specification; a usage the status already knows is kept, a new one has all machines unused.
  But the list grows by one entry per machine type with every call, also for types it has
  already: looked up by name, a second call changes nothing, yet the status holds every type
  twice.
\<close>
theorem default_usage:
  "(\<forall>t. GetMachineTypeUsage (avail (machine_Default r)) t =
     (case GetMachineTypeUsage (avail r) t of
        Some u \<Rightarrow> Some u
      | None \<Rightarrow> map_option (\<lambda>mt. \<lparr>Maximum = mt_Available mt, Reserved = 0, Used = 0, Waiting = 0\<rparr>)
          (find (\<lambda>mt. mt_Name mt = t) (ms_MachineTypes (m_Spec r))))) \<and>
   GetMachineTypeUsage (avail (machine_Default (machine_Default r))) =
     GetMachineTypeUsage (avail (machine_Default r)) \<and>
   length (avail (machine_Default (machine_Default r))) =
     length (avail r) + 2 * length (ms_MachineTypes (m_Spec r))"
proof -
  have one: "GetMachineTypeUsage (avail (machine_Default r)) t =
     (case GetMachineTypeUsage (avail r) t of
        Some u \<Rightarrow> Some u
      | None \<Rightarrow> map_option (\<lambda>mt. \<lparr>Maximum = mt_Available mt, Reserved = 0, Used = 0, Waiting = 0\<rparr>)
          (find (\<lambda>mt. mt_Name mt = t) (ms_MachineTypes (m_Spec r))))" for r t
    by (simp add: machine_Default_def Default_loop_eq usage_append usage_new split: option.split)
  have spec: "m_Spec (machine_Default r) = m_Spec r" by (simp add: machine_Default_def)
  have "GetMachineTypeUsage (avail (machine_Default (machine_Default r))) t =
      GetMachineTypeUsage (avail (machine_Default r)) t" for t
    by (simp add: one spec split: option.split)
  then have "GetMachineTypeUsage (avail (machine_Default (machine_Default r))) =
      GetMachineTypeUsage (avail (machine_Default r))" by (rule ext)
  moreover have "length (avail (machine_Default (machine_Default r))) =
      length (avail r) + 2 * length (ms_MachineTypes (m_Spec r))"
    by (simp add: machine_Default_def Default_loop_eq)
  ultimately show ?thesis using one by simp
qed

subsection \<open>What admission gives the other components, and what it does not\<close>

text \<open>
  An admitted GPU always selects. For a machine type of an admitted Machine the generated
  affinity names the machine type, the ready status and, exactly when the type has a GPU, the
  one GPU label its specification gives; every expression has one value.
\<close>
theorem admitted_types_select:
  assumes "fst (ValidateAllOperation E r w) = Ret (Inr ())" and "mt \<in> set (ms_MachineTypes (m_Spec r))"
  shows "length (GenerateAffinityMatchExpression mt grp) = (if GPU (mt_Spec mt) = None then 2 else 3) \<and>
    (\<forall>e \<in> set (GenerateAffinityMatchExpression mt grp). \<exists>v. nsr_Values e = [v] \<and> nsr_Operator e = NodeSelectorOpIn)"
proof -
  have "spec_valid (Quantity_Value E) (m_Spec r)" by (rule validate_specD [OF assms(1)])
  with assms(2) have gpu: "case GPU (mt_Spec mt) of None \<Rightarrow> True | Some g \<Rightarrow> gpu_valid (Quantity_Value E) g"
    by (auto simp: spec_valid_def)
  have "length (getGPUSelector g) = 2" if "gpu_valid qv g" for qv g
    using that by (auto simp: gpu_valid_def getGPUSelector_def split: if_splits)
  with gpu show ?thesis
    by (auto simp: GenerateAffinityMatchExpression_def Let_def split: option.splits)
qed

theorem admitted_types_select_witness:
  "length (GenerateAffinityMatchExpression ex_type ''team'') = 3"
  using admitted_types_select [OF ex_validates, of ex_type "''team''"] by (simp add: ex_type_def)

definition ex_gap :: Machine where
  "ex_gap = ex_machine\<lparr>m_Spec := \<lparr>ms_NodePool =
       [\<lparr>np_Name = ''n1'', np_Mode = NodeModeReady, np_Taint = True, np_MachineType = [\<lparr>npmt_Name = ''node-pool''\<rparr>]\<rparr>,
        \<lparr>np_Name = ''n1'', np_Mode = NodeModeMaintenance, np_Taint = True, np_MachineType = [\<lparr>npmt_Name = ''node-pool''\<rparr>]\<rparr>],
     ms_MachineTypes = [ex_type\<lparr>mt_Name := ''node-pool''\<rparr>]\<rparr>\<rparr>"

text \<open>
  Two gaps of the validation. The webhook admits a Machine that lists one Node twice with
  different modes, and one whose machine type is called "node-pool", the name whose label and
  taint key is the key of the status itself; its node pool is then not well formed, and the
  guarantees of the node pool controller do not apply.
\<close>
theorem admission_gaps:
  "fst (ValidateAllOperation (mem_webhook_env [node_of ''n1'' Map.empty []]) ex_gap ex_world) = Ret (Inr ()) \<and>
   \<not> distinct (map np_Name (entries (edit_pool ex_gap ''team'' p))) \<and>
   list_all (\<lambda>q. MachineStatusKey \<in> set (entry_keys q)) (entries (edit_pool ex_gap ''team'' p))"
proof -
  have "fst (ValidateAllOperation (mem_webhook_env [node_of ''n1'' Map.empty []]) ex_gap ex_world) = Ret (Inr ())"
  proof (rule validate_specI)
    show "Labels (m_Meta ex_gap) MachineGroupKey = Some ''team''" by (simp add: ex_gap_def ex_machine_def)
    show "wh_List_Machines (mem_webhook_env [node_of ''n1'' Map.empty []]) [MachineGroupKey \<mapsto> ''team''] ex_world =
        (Inr [ex_machine], ex_world)"
      by (simp add: ex_listed)
    show "wh_List_Nodes (mem_webhook_env [node_of ''n1'' Map.empty []]) ex_world = (Inr [node_of ''n1'' Map.empty []], ex_world)"
      by simp
    show "\<forall>m \<in> set [ex_machine]. Name (m_Meta m) = Name (m_Meta ex_gap)" by (simp add: ex_gap_def)
    show "np_Name ` set (ms_NodePool (m_Spec ex_gap)) \<subseteq> node_Name ` set [node_of ''n1'' Map.empty []]"
      by (simp add: ex_gap_def)
    show "spec_valid (Quantity_Value (mem_webhook_env [node_of ''n1'' Map.empty []])) (m_Spec ex_gap)"
      by (simp add: spec_valid_def ex_gap_def ex_type_def gpu_valid_def)
  qed
  then show ?thesis
    by (simp add: edit_pool_sel(2) ex_gap_def schedule_keys machine_type_key_status')
qed

end
