(* ===== verification/NodeLifecycle.thy ===== *)
theory NodeLifecycle
  imports NodePoolProps
begin

text \<open>
  The node pool controller over several runs: taking a Node into a pool and giving it back,
  and the runs after which nothing changes any more.
\<close>

subsection \<open>Preparing and cleaning up\<close>

text \<open>A Node that nobody has labelled, annotated or tainted with the keys of its entry.\<close>

definition untouched :: "NodePool \<Rightarrow> Node \<Rightarrow> bool" where
  "untouched p n \<longleftrightarrow> node_Annotations n MachineGroupKey = None \<and>
     (\<forall>k \<in> set (managed_keys p). node_Labels n k = None) \<and>
     (\<forall>t \<in> set (n_Taints n). taint_Key t \<notin> set (managed_keys p))"

lemma untouched_taints:
  "untouched p n \<Longrightarrow> without_keys (managed_keys p) (n_Taints n) = n_Taints n"
  unfolding untouched_def without_keys_def by (rule filter_True) blast

lemma untouched_unique: "untouched p n \<Longrightarrow> own_unique (managed_keys p) (n_Taints n)"
proof -
  assume "untouched p n"
  then have "filter (\<lambda>t. taint_Key t = k) (n_Taints n) = []" if "k \<in> set (managed_keys p)" for k
    using that by (auto simp: untouched_def filter_empty_conv)
  then show ?thesis by (simp add: own_unique_def)
qed

lemma node_eqI:
  "meta_rest n = meta_rest n' \<Longrightarrow> node_Labels n = node_Labels n' \<Longrightarrow>
   node_Annotations n = node_Annotations n' \<Longrightarrow> n_Taints n = n_Taints n' \<Longrightarrow> n = n'"
  by (cases n; cases n'; cases "n_Meta n"; cases "n_Meta n'") (simp add: meta_rest_def)

lemma node_prepared_label:
  assumes "node_prepared env pool p n"
  shows "k \<in> set (entry_keys p) \<Longrightarrow> node_Labels n k = Some (group_of pool)"
    and "MachineStatusKey \<notin> set (entry_keys p) \<Longrightarrow>
      node_Labels n MachineStatusKey = Some (expected_status env p (n_Taints n))"
    and "node_Labels n MachineStatusKey \<noteq> None"
proof -
  have e: "node_Labels n = prepared_labels env (group_of pool) p (n_Taints n) (node_Labels n)"
    using assms by (simp only: node_prepared_def)
  have l: "node_Labels n k = prepared_labels env (group_of pool) p (n_Taints n) (node_Labels n) k" for k
    by (rule fun_cong [OF e])
  show "k \<in> set (entry_keys p) \<Longrightarrow> node_Labels n k = Some (group_of pool)"
    using l [of k] by (simp add: prepared_labels_def)
  show "MachineStatusKey \<notin> set (entry_keys p) \<Longrightarrow>
      node_Labels n MachineStatusKey = Some (expected_status env p (n_Taints n))"
    using l [of MachineStatusKey] by (simp add: prepared_labels_def)
  show "node_Labels n MachineStatusKey \<noteq> None"
    using l [of MachineStatusKey] by (simp add: prepared_labels_def split: if_splits)
qed

lemma cleaned_restores:
  assumes fresh: "untouched p n" and frame: "unmanaged_same p n n'" and prep: "node_prepared env pool p n'"
  shows "cleaned pool p n' = n"
proof (rule node_eqI)
  have "meta_rest (cleaned pool p n') = meta_rest n'" by (simp add: meta_rest_def cleaned_def)
  with frame show "meta_rest (cleaned pool p n') = meta_rest n" by (simp add: unmanaged_same_def)
  show "node_Labels (cleaned pool p n') = node_Labels n"
  proof
    fix k
    show "node_Labels (cleaned pool p n') k = node_Labels n k"
    proof (cases "k \<in> set (managed_keys p)")
      case True
      then have "node_Labels n k = None" using fresh unfolding untouched_def by blast
      moreover have "k = MachineStatusKey \<or> map_get (node_Labels n') k = group_of pool"
        using True node_prepared_label(1) [OF prep] by (auto simp: map_get_def)
      ultimately show ?thesis using True by (auto simp: cleaned_def)
    next
      case False
      with frame show ?thesis by (simp add: unmanaged_same_def cleaned_def)
    qed
  qed
  show "node_Annotations (cleaned pool p n') = node_Annotations n"
    using frame fresh by (auto simp: unmanaged_same_def untouched_def cleaned_def map_delete_def fun_eq_iff)
  show "n_Taints (cleaned pool p n') = n_Taints n"
    using frame untouched_taints [OF fresh] by (simp add: cleaned_def unmanaged_same_def)
qed

lemma prepared_dirty:
  assumes "node_prepared env pool p n"
  shows "cleaned pool p n \<noteq> n"
proof
  assume same: "cleaned pool p n = n"
  have "node_Labels (cleaned pool p n) MachineStatusKey = None" by (simp add: cleaned_def)
  with same have "node_Labels n MachineStatusKey = None" by simp
  with node_prepared_label(3) [OF assms] show False by contradiction
qed


text \<open>Two fresh Nodes, one with a foreign taint.\<close>

definition ex_fresh_cluster :: cluster where
  "ex_fresh_cluster = ex_cluster\<lparr>cl_nodes :=
     [''n1'' \<mapsto> node_of ''n1'' Map.empty [ex_taint], ''n2'' \<mapsto> node_of ''n2'' [''zone'' \<mapsto> ''a''] []]\<rparr>"

lemma ex_fresh_nodes:
  "mem_nodes ex_fresh_cluster =
     [''n1'' \<mapsto> node_of ''n1'' Map.empty [ex_taint], ''n2'' \<mapsto> node_of ''n2'' [''zone'' \<mapsto> ''a''] []]"
  by (auto simp: mem_nodes_def ex_fresh_cluster_def fun_eq_iff)

lemma untouched_run:
  assumes "node_api E nodes" and "cmp_laws E" and "pool_wf pool"
    and "\<forall>p \<in> set (entries pool). \<exists>n. nodes w (np_Name p) = Some n \<and> untouched p n"
    and "reconcileNode E pool w = (Ret (Inr ()), w1)"
  shows "nodes_unmanaged_same pool (nodes w) (nodes w1)"
    and "\<And>p. p \<in> set (entries pool) \<Longrightarrow> \<exists>n n'. nodes w (np_Name p) = Some n \<and> nodes w1 (np_Name p) = Some n' \<and>
      untouched p n \<and> unmanaged_same p n n' \<and> node_prepared (os_environ E) pool p n' \<and>
      own_unique (managed_keys p) (n_Taints n')"
proof -
  have "taints_unique pool (nodes w)"
    using assms(4) untouched_unique by (force simp: taints_unique_def)
  with reconcileNode_establishes [OF assms(1-3) _ assms(5)]
  have uniq: "taints_unique pool (nodes w1)" and prep: "pool_prepared (os_environ E) pool (nodes w1)" by auto
  show frame: "nodes_unmanaged_same pool (nodes w) (nodes w1)"
    using reconcileNode_unmanaged [OF assms(1) pool_wfD(1) [OF assms(3)], of w] assms(5) by simp
  fix p assume p: "p \<in> set (entries pool)"
  obtain n where n: "nodes w (np_Name p) = Some n" "untouched p n"
    using bspec [OF assms(4) p] by (elim exE conjE)
  obtain n' where n': "nodes w1 (np_Name p) = Some n'" "node_prepared (os_environ E) pool p n'"
    using bspec [OF prep [unfolded pool_prepared_def] p] by (elim exE conjE)
  have same: "unmanaged_same p n n'" by (rule nodes_unmanaged_sameD [OF frame p n(1) n'(1)])
  have "own_unique (managed_keys p) (n_Taints n')"
  proof (cases "np_Taint p")
    case True
    with uniq p n' show ?thesis by (auto simp: taints_unique_def)
  next
    case False
    with same untouched_unique [OF n(2)] show ?thesis by (simp add: unmanaged_same_def)
  qed
  with n n' same show "\<exists>n n'. nodes w (np_Name p) = Some n \<and> nodes w1 (np_Name p) = Some n' \<and>
      untouched p n \<and> unmanaged_same p n n' \<and> node_prepared (os_environ E) pool p n' \<and>
      own_unique (managed_keys p) (n_Taints n')" by blast
qed

lemma cleanup_of_prepared:
  assumes "node_api_total E nodes" and "cmp_laws E" and "pool_wf pool"
    and "\<And>p. p \<in> set (entries pool) \<Longrightarrow> \<exists>n. nodes w (np_Name p) = Some n \<and>
      node_prepared env pool p n \<and> own_unique (managed_keys p) (n_Taints n)"
  shows "\<exists>w'. cleanupNode E pool w = (Ret (Inr ()), w') \<and>
    nodes w' = (\<lambda>k. case find (\<lambda>p. np_Name p = k) (entries pool) of
      None \<Rightarrow> nodes w k | Some p \<Rightarrow> map_option (cleaned pool p) (nodes w k))"
proof -
  note d = pool_wfD(1) [OF assms(3)]
  have "dirty pool (nodes w) p" if "p \<in> set (entries pool)" for p
    using assms(4) [OF that] prepared_dirty by (auto simp: dirty_def)
  then have all: "takeWhile (dirty pool (nodes w)) (entries pool) = entries pool"
    by (simp only: takeWhile_eq_all_conv) blast
  have "own_unique (managed_keys p) (n_Taints n)"
    if "p \<in> set (entries pool)" and "nodes w (np_Name p) = Some n" for p n
    using assms(4) [OF that(1)] that(2) by auto
  then show ?thesis
    unfolding cleanupNode_def using cleanup_loop_exact [OF assms(1,2) d subset_refl d, of w] all by simp
qed

text \<open>
  C31: a Node comes back as it was. If a run took Nodes nobody had labelled or tainted with
  the keys of their entries into the pool, the cleanup of that pool succeeds against an API
  server that does not fail and leaves every Node of the cluster exactly as it was before the
  run, foreign labels, annotations and taints and their order included.
\<close>
theorem cleanup_undoes_reconcile:
  assumes "node_api_total E nodes" and "cmp_laws E" and "pool_wf pool"
    and "\<forall>p \<in> set (entries pool). \<exists>n. nodes w (np_Name p) = Some n \<and> untouched p n"
    and "reconcileNode E pool w = (Ret (Inr ()), w1)"
  shows "\<exists>w2. cleanupNode E pool w1 = (Ret (Inr ()), w2) \<and> nodes w2 = nodes w"
proof -
  note api = node_api_totalD(1) [OF assms(1)]
  note frame = untouched_run(1) [OF api assms(2-5)] and entry = untouched_run(2) [OF api assms(2-5)]
  have "\<exists>n. nodes w1 (np_Name p) = Some n \<and> node_prepared (os_environ E) pool p n \<and>
      own_unique (managed_keys p) (n_Taints n)" if "p \<in> set (entries pool)" for p
    using entry [OF that] by blast
  from cleanup_of_prepared [OF assms(1-3) this]
  obtain w2 where run: "cleanupNode E pool w1 = (Ret (Inr ()), w2)"
    and w2: "nodes w2 = (\<lambda>k. case find (\<lambda>p. np_Name p = k) (entries pool) of
      None \<Rightarrow> nodes w1 k | Some p \<Rightarrow> map_option (cleaned pool p) (nodes w1 k))" by blast
  have "nodes w2 k = nodes w k" for k
  proof (cases "find (\<lambda>p. np_Name p = k) (entries pool)")
    case None
    then have "k \<notin> np_Name ` set (entries pool)" by (auto simp: find_None_iff)
    then have "nodes w1 k = nodes w k" using frame unfolding nodes_unmanaged_same_def by blast
    with None show ?thesis by (simp only: w2 option.case)
  next
    case (Some p)
    then have p: "p \<in> set (entries pool)" "np_Name p = k" by (auto dest: find_SomeD)
    obtain n n' where "nodes w k = Some n" "nodes w1 k = Some n'" "cleaned pool p n' = n"
      using entry [OF p(1)] cleaned_restores unfolding p(2) by blast
    with Some show ?thesis by (simp only: w2 option.case option.map)
  qed
  with run show ?thesis by auto
qed

theorem cleanup_undoes_reconcile_witness:
  "\<exists>w1 w2. reconcileNode ex_env ex_pool ex_fresh_cluster = (Ret (Inr ()), w1) \<and>
     cleanupNode ex_env ex_pool w1 = (Ret (Inr ()), w2) \<and> mem_nodes w2 = mem_nodes ex_fresh_cluster"
proof -
  have ex: "\<exists>n. mem_nodes ex_fresh_cluster (np_Name p) = Some n \<and> untouched p n"
    if "p \<in> set (entries ex_pool)" for p
    using that by (auto simp: ex_pool_def ex_fresh_nodes untouched_def ex_keys ex_entry_def ex_entry2_def
        GroupVersion_Group_def MachineStatusKey_def ex_taint_def)
  obtain w1 where w1: "reconcileNode ex_env ex_pool ex_fresh_cluster = (Ret (Inr ()), w1)"
  proof -
    have "taints_unique ex_pool (mem_nodes ex_fresh_cluster)"
      using ex untouched_unique by (force simp: taints_unique_def)
    from reconcileNode_succeeds [OF mem_node_api mem_cmp_laws ex_pool_wf this] ex show ?thesis
      by (force intro: that)
  qed
  from cleanup_undoes_reconcile [OF mem_node_api mem_cmp_laws ex_pool_wf _ w1] ex
  obtain w2 where "cleanupNode ex_env ex_pool w1 = (Ret (Inr ()), w2)" "mem_nodes w2 = mem_nodes ex_fresh_cluster"
    by blast
  with w1 show ?thesis by blast
qed

end
