(* ===== verification/NodeConvergence.thy ===== *)
theory NodeConvergence
  imports NodePoolProps
begin

text \<open>
  Repeated runs of the node pool controller on one pool: they come to rest. The API server's
  pools are seen through \<open>pools\<close>, its Nodes through \<open>nodes\<close>.
\<close>

subsection \<open>The pools of the API server\<close>

text \<open>
  Reading a stored pool succeeds. An update of a pool that is not being deleted stores it, the
  status excepted; a status update stores the status and nothing else. Calls about Nodes,
  events and the clock change no pool, calls about pools change no Node.
\<close>

definition pool_store_api ::
    "('w, 'x) pool_env_scheme \<Rightarrow> ('w \<Rightarrow> ObjectKey \<rightharpoonup> MachineNodePool) \<Rightarrow> ('w \<Rightarrow> string \<rightharpoonup> Node) \<Rightarrow> bool" where
  "pool_store_api E pools nodes \<longleftrightarrow>
     (\<forall>key w p. pools w key = Some p \<longrightarrow> fst (Get_Pool E key w) = Inr p) \<and>
     (\<forall>p w old. pools w (ObjectKeyFromMeta (p_Meta p)) = Some old \<longrightarrow> DeletionTimestamp (p_Meta p) = None \<longrightarrow>
        (\<exists>p'. fst (Update_Pool E p w) = Inr p') \<and>
        pools (snd (Update_Pool E p w)) =
          (pools w)(ObjectKeyFromMeta (p_Meta p) \<mapsto> p\<lparr>p_Status := p_Status old\<rparr>)) \<and>
     (\<forall>p w old. pools w (ObjectKeyFromMeta (p_Meta p)) = Some old \<longrightarrow>
        (\<exists>p'. fst (StatusUpdate_Pool E p w) = Inr p') \<and>
        pools (snd (StatusUpdate_Pool E p w)) =
          (pools w)(ObjectKeyFromMeta (p_Meta p) \<mapsto> old\<lparr>p_Status := p_Status p\<rparr>)) \<and>
     (\<forall>key. preserves pools (Get_Pool E key)) \<and> (\<forall>key. preserves nodes (Get_Pool E key)) \<and>
     (\<forall>p. preserves nodes (Update_Pool E p)) \<and> (\<forall>p. preserves nodes (StatusUpdate_Pool E p)) \<and>
     (\<forall>k. preserves pools (Get_Node E k)) \<and> (\<forall>n. preserves pools (Update_Node E n)) \<and>
     preserves pools (metav1_Now E) \<and> (\<forall>s w. pools (Recorder_Eventf E s w) = pools w)"

text \<open>The finalizer functions of controller-runtime, and the zero time.\<close>

definition finalizer_laws :: "('w, 'x) pool_env_scheme \<Rightarrow> bool" where
  "finalizer_laws E \<longleftrightarrow> (\<forall>fs f. ContainsFinalizer E (AddFinalizer E fs f) f) \<and> time_laws E"

lemma pool_store_apiD:
  assumes "pool_store_api E pools nodes"
  shows "pools w key = Some p \<Longrightarrow> fst (Get_Pool E key w) = Inr p"
    and "pools (snd (Get_Pool E key w)) = pools w" and "nodes (snd (Get_Pool E key w)) = nodes w"
    and "preserves nodes (Update_Pool E p)" and "preserves nodes (StatusUpdate_Pool E p)"
    and "preserves pools (Get_Node E k)" and "preserves pools (Update_Node E n)"
    and "preserves pools (metav1_Now E)" and "pools (Recorder_Eventf E s w) = pools w"
  using assms unfolding pool_store_api_def by (simp_all add: preserves_def del: split_paired_All)

lemma pool_store_update:
  assumes "pool_store_api E pools nodes" and "pools w (ObjectKeyFromMeta (p_Meta p)) = Some old"
    and "DeletionTimestamp (p_Meta p) = None"
  obtains p' where "fst (Update_Pool E p w) = Inr p'"
    and "pools (snd (Update_Pool E p w)) =
      (pools w)(ObjectKeyFromMeta (p_Meta p) \<mapsto> p\<lparr>p_Status := p_Status old\<rparr>)"
  using assms unfolding pool_store_api_def by blast

lemma pool_store_status:
  assumes "pool_store_api E pools nodes" and "pools w (ObjectKeyFromMeta (p_Meta p)) = Some old"
  obtains p' where "fst (StatusUpdate_Pool E p w) = Inr p'"
    and "pools (snd (StatusUpdate_Pool E p w)) =
      (pools w)(ObjectKeyFromMeta (p_Meta p) \<mapsto> old\<lparr>p_Status := p_Status p\<rparr>)"
  using assms unfolding pool_store_api_def by blast

lemma reconcileNode_step_pools:
  assumes "pool_store_api E pools nodes"
  shows "preserves pools (reconcileNode_step E pool p)"
  unfolding reconcileNode_step_def Let_def
  by (intro preserves_intros pool_store_apiD [OF assms])

lemma reconcileNode_pools:
  assumes "pool_store_api E pools nodes"
  shows "pools (snd (reconcileNode E pool w)) = pools w"
proof -
  have "preserves pools (reconcileNode_loop E pool ps)" for ps
    by (induction ps) (simp_all add: preserves_intros reconcileNode_step_pools [OF assms])
  then show ?thesis by (simp add: reconcileNode_def preservesD)
qed

lemma nodeConditions_pools:
  assumes "pool_store_api E pools nodes"
  shows "pools (snd (nodeConditions_loop E cs ps w)) = pools w"
proof -
  have "preserves pools (nodeConditions_loop E cs ps)"
    by (induction ps arbitrary: cs) (simp_all add: preserves_intros pool_store_apiD [OF assms])
  then show ?thesis by (rule preservesD)
qed


subsection \<open>The states the runs go through\<close>

text \<open>
  A live pool whose Nodes exist and whose entries are not tainted; with the finalizer; and at
  rest: its Nodes prepared and its status telling so.
\<close>

definition conditions_of :: "NodePool list \<Rightarrow> (string \<rightharpoonup> Node) \<Rightarrow> NodePoolCondition list" where
  "conditions_of ps ns = map (\<lambda>p. \<lparr>npc_Name = np_Name p,
     npc_NodeCondition = nodeCondition p (the (ns (np_Name p)))\<rparr>) ps"

definition live_pool :: "MachineNodePoolSpec \<Rightarrow> (string \<rightharpoonup> Node) \<Rightarrow> MachineNodePool \<Rightarrow> bool" where
  "live_pool spec ns pool \<longleftrightarrow> p_Spec pool = spec \<and> DeletionTimestamp (p_Meta pool) = None \<and>
     pool_wf pool \<and> (\<forall>p \<in> set (entries pool). \<not> np_Taint p \<and> ns (np_Name p) \<noteq> None)"

definition guarded_pool :: "('w, 'x) pool_env_scheme \<Rightarrow> MachineNodePoolSpec \<Rightarrow> (string \<rightharpoonup> Node) \<Rightarrow> MachineNodePool \<Rightarrow> bool" where
  "guarded_pool E spec ns pool \<longleftrightarrow> live_pool spec ns pool \<and>
     ContainsFinalizer E (Finalizers (p_Meta pool)) MachineNodePoolFinalizer"

definition settled_pool :: "('w, 'x) pool_env_scheme \<Rightarrow> MachineNodePoolSpec \<Rightarrow> (string \<rightharpoonup> Node) \<Rightarrow> MachineNodePool \<Rightarrow> bool" where
  "settled_pool E spec ns pool \<longleftrightarrow> guarded_pool E spec ns pool \<and>
     pool_prepared (os_environ E) pool ns \<and>
     mnps_NodePoolCondition (p_Status pool) = conditions_of (entries pool) ns"

lemma settled_cong:
  assumes "p_Spec q = p_Spec pool" and "p_Meta q = p_Meta pool"
  shows "guarded_pool E spec ns q \<longleftrightarrow> guarded_pool E spec ns pool"
    and "pool_prepared env q ns \<longleftrightarrow> pool_prepared env pool ns"
    and "live_pool spec ns q \<longleftrightarrow> live_pool spec ns pool"
  using assms
  by (simp_all add: guarded_pool_def live_pool_def pool_wf_def pool_prepared_def node_prepared_def)

text \<open>The first run stores the finalizer.\<close>

lemma run_adds_finalizer:
  assumes store: "pool_store_api E pools nodes" and api: "node_api E nodes" and fin: "finalizer_laws E"
    and p: "pools w key = Some pool" and live: "live_pool spec (nodes w) pool"
    and own_key: "ObjectKeyFromMeta (p_Meta pool) = key"
    and no: "\<not> ContainsFinalizer E (Finalizers (p_Meta pool)) MachineNodePoolFinalizer"
  shows "\<exists>w' q. pool_Reconcile E key w = (Ret (\<lparr>Requeue = False\<rparr>, None), w') \<and> nodes w' = nodes w \<and>
    pools w' = (pools w)(key \<mapsto> q) \<and> guarded_pool E spec (nodes w) q \<and>
    p_Meta q = (p_Meta pool)\<lparr>Finalizers := Finalizers (p_Meta q)\<rparr>"
proof -
  note st = pool_store_apiD [OF store]
  let ?q = "pool_setFinalizers (AddFinalizer E (Finalizers (p_Meta pool)) MachineNodePoolFinalizer) pool"
  let ?w1 = "snd (Get_Pool E key w)"
  have key: "ObjectKeyFromMeta (p_Meta ?q) = key"
    using own_key by (simp add: pool_setFinalizers_def ObjectKeyFromMeta_def)
  have stored: "pools ?w1 (ObjectKeyFromMeta (p_Meta ?q)) = Some pool" using p st(2) key by simp
  have "DeletionTimestamp (p_Meta ?q) = None" using live by (simp add: pool_setFinalizers_def live_pool_def)
  from pool_store_update [OF store stored this] obtain p' where
    u: "fst (Update_Pool E ?q ?w1) = Inr p'"
      "pools (snd (Update_Pool E ?q ?w1)) = (pools ?w1)(key \<mapsto> ?q\<lparr>p_Status := p_Status pool\<rparr>)"
    unfolding key by blast
  have status: "?q\<lparr>p_Status := p_Status pool\<rparr> = ?q" by (simp add: pool_setFinalizers_def)
  have "Time_IsZero E (DeletionTimestamp (p_Meta pool))"
    using live fin by (simp add: live_pool_def finalizer_laws_def time_laws_def)
  then have run: "pool_Reconcile E key w =
      (Ret (\<lparr>Requeue = False\<rparr>, None), Recorder_Eventf E ''add finalizer'' (snd (Update_Pool E ?q ?w1)))"
    using no st(1) [OF p] u(1)
    by (simp add: pool_Reconcile_def pool_reconcile_def updatePool_event_def Let_def act_simps)
  have "guarded_pool E spec (nodes w) ?q"
    using live fin by (auto simp: guarded_pool_def live_pool_def pool_wf_def finalizer_laws_def pool_setFinalizers_def)
  moreover have "nodes (snd (Update_Pool E ?q ?w1)) = nodes w" using preservesD [OF st(4)] st(3) by simp
  ultimately show ?thesis
    using run u(2) st(2,9) status node_apiD(7) [OF api] by (auto simp: pool_setFinalizers_def)
qed

text \<open>A run on a pool with the finalizer brings it to rest, and leaves it so.\<close>

lemma pool_updateStatus_stores:
  assumes store: "pool_store_api E pools nodes" and api: "node_api_total E nodes" and cmp: "cmp_laws E"
    and p: "pools w (ObjectKeyFromMeta (p_Meta pool)) = Some pool"
    and ex: "\<forall>p \<in> set (entries pool). nodes w (np_Name p) \<noteq> None"
  shows "\<exists>w' st. pool_updateStatus E pool w = (Ret (\<lparr>Requeue = False\<rparr>, None), w') \<and> nodes w' = nodes w \<and>
    pools w' = (pools w)(ObjectKeyFromMeta (p_Meta pool) \<mapsto> pool\<lparr>p_Status := st\<rparr>) \<and>
    mnps_NodePoolCondition st = conditions_of (entries pool) (nodes w) \<and>
    (mnps_NodePoolCondition (p_Status pool) = conditions_of (entries pool) (nodes w) \<longrightarrow> st = p_Status pool)"
proof -
  note st = pool_store_apiD [OF store] and api' = node_api_totalD(1) [OF api]
  let ?cs = "conditions_of (entries pool) (nodes w)"
  obtain w1 where w1: "nodeConditions_loop E [] (entries pool) w = (Ret (Inr ?cs), w1)" "nodes w1 = nodes w"
    using nodeConditions_exact [OF api ex, of "[]"] by (auto simp: conditions_of_def)
  have pools1: "pools w1 = pools w" using nodeConditions_pools [OF store, of "[]" "entries pool" w] w1(1) by simp
  show ?thesis
  proof (cases "mnps_NodePoolCondition (p_Status pool) = ?cs")
    case True
    have "pools w = (pools w)(ObjectKeyFromMeta (p_Meta pool) \<mapsto> pool\<lparr>p_Status := p_Status pool\<rparr>)"
      using p by (simp add: fun_upd_idem)
    with True w1 pools1 cmp show ?thesis
      by (intro exI [of _ w1] exI [of _ "p_Status pool"])
        (simp add: pool_updateStatus_def act_simps cmp_lawsD)
  next
    case False
    let ?w2 = "Recorder_Eventf E ''updated Node condition in status'' w1"
    let ?w3 = "snd (metav1_Now E ?w2)"
    let ?q = "pool_setCondition E (readyCondition True (fst (metav1_Now E ?w2)) ''update status conditions'')
        (pool\<lparr>p_Status := (p_Status pool)\<lparr>mnps_NodePoolCondition := ?cs\<rparr>\<rparr>)"
    have pools3: "pools ?w3 = pools w" and nodes3: "nodes ?w3 = nodes w"
      using preservesD [OF st(8)] st(9) pools1 node_apiD(6,7) [OF api'] w1(2) by simp_all
    have key: "ObjectKeyFromMeta (p_Meta ?q) = ObjectKeyFromMeta (p_Meta pool)"
      by (simp add: pool_setCondition_def)
    have "pools ?w3 (ObjectKeyFromMeta (p_Meta ?q)) = Some pool" using p pools3 key by simp
    then obtain p' where u0: "fst (StatusUpdate_Pool E ?q ?w3) = Inr p'"
        "pools (snd (StatusUpdate_Pool E ?q ?w3)) =
           (pools ?w3)(ObjectKeyFromMeta (p_Meta ?q) \<mapsto> pool\<lparr>p_Status := p_Status ?q\<rparr>)"
      by (rule pool_store_status [OF store])
    note u = u0(1) u0(2) [unfolded key pools3]
    have "pool_updateStatus E pool w = (Ret (\<lparr>Requeue = False\<rparr>, None), snd (StatusUpdate_Pool E ?q ?w3))"
      using w1(1) False u(1) cmp by (simp add: pool_updateStatus_def act_simps cmp_lawsD Let_def)
    moreover have "nodes (snd (StatusUpdate_Pool E ?q ?w3)) = nodes w"
      using preservesD [OF st(5)] nodes3 by simp
    moreover have "mnps_NodePoolCondition (p_Status ?q) = ?cs" by (simp add: pool_setCondition_def)
    ultimately show ?thesis using u(2) False by blast
  qed
qed

lemma run_settles:
  assumes store: "pool_store_api E pools nodes" and api: "node_api_total E nodes" and cmp: "cmp_laws E"
    and fin: "finalizer_laws E" and p: "pools w key = Some pool" and g: "guarded_pool E spec (nodes w) pool"
    and key: "ObjectKeyFromMeta (p_Meta pool) = key"
  shows "\<exists>w' q. pool_Reconcile E key w = (Ret (\<lparr>Requeue = False\<rparr>, None), w') \<and>
    pools w' = (pools w)(key \<mapsto> q) \<and> settled_pool E spec (nodes w') q \<and> p_Meta q = p_Meta pool \<and>
    (settled_pool E spec (nodes w) pool \<longrightarrow> nodes w' = nodes w \<and> q = pool)"
proof -
  note st = pool_store_apiD [OF store] and api' = node_api_totalD(1) [OF api]
  let ?w1 = "snd (Get_Pool E key w)"
  have live: "live_pool spec (nodes w) pool" and cf: "ContainsFinalizer E (Finalizers (p_Meta pool)) MachineNodePoolFinalizer"
    using g by (simp_all add: guarded_pool_def)
  then have wf: "pool_wf pool" and untainted: "\<forall>p \<in> set (entries pool). \<not> np_Taint p"
    and ex: "\<forall>p \<in> set (entries pool). nodes ?w1 (np_Name p) \<noteq> None"
    by (simp_all add: live_pool_def st(3))
  have uniq: "taints_unique pool (nodes ?w1)" using untainted by (simp add: taints_unique_def)
  obtain w2 where w2: "reconcileNode E pool ?w1 = (Ret (Inr ()), w2)"
    using reconcileNode_succeeds [OF api cmp wf uniq ex] by blast
  have pools2: "pools w2 = pools w" using reconcileNode_pools [OF store, of pool ?w1] w2 st(2) by simp
  have prep: "pool_prepared (os_environ E) pool (nodes w2)"
    using reconcileNode_establishes [OF api' cmp wf uniq w2] by blast
  then have ex2: "\<forall>p \<in> set (entries pool). nodes w2 (np_Name p) \<noteq> None" by (auto simp: pool_prepared_def)
  have "pools w2 (ObjectKeyFromMeta (p_Meta pool)) = Some pool" using p pools2 key by simp
  from pool_updateStatus_stores [OF store api cmp this ex2] obtain w' s where
    u: "pool_updateStatus E pool w2 = (Ret (\<lparr>Requeue = False\<rparr>, None), w')" "nodes w' = nodes w2"
      "pools w' = (pools w2)(key \<mapsto> pool\<lparr>p_Status := s\<rparr>)"
      "mnps_NodePoolCondition s = conditions_of (entries pool) (nodes w2)"
      "mnps_NodePoolCondition (p_Status pool) = conditions_of (entries pool) (nodes w2) \<longrightarrow> s = p_Status pool"
    unfolding key by blast
  have "Time_IsZero E (DeletionTimestamp (p_Meta pool))"
    using live fin by (simp add: live_pool_def finalizer_laws_def time_laws_def)
  then have run: "pool_Reconcile E key w = (Ret (\<lparr>Requeue = False\<rparr>, None), w')"
    using cf st(1) [OF p] w2 u(1) by (simp add: pool_Reconcile_def pool_reconcile_def act_simps Let_def)
  have "live_pool spec (nodes w2) pool"
    using live ex2 by (simp add: live_pool_def)
  then have "settled_pool E spec (nodes w') (pool\<lparr>p_Status := s\<rparr>)"
    using cf prep u(2,4) settled_cong [of "pool\<lparr>p_Status := s\<rparr>" pool]
    by (simp add: settled_pool_def guarded_pool_def)
  moreover have "settled_pool E spec (nodes w) pool \<longrightarrow> nodes w' = nodes w \<and> pool\<lparr>p_Status := s\<rparr> = pool"
  proof
    assume rest: "settled_pool E spec (nodes w) pool"
    have "nodes w2 = nodes w"
      using loop_quiet [OF api' cmp pool_wfD(1) [OF wf] subset_refl _ untainted, of ?w1] rest w2
      by (simp add: settled_pool_def st(3) reconcileNode_def)
    with rest u(2,5) show "nodes w' = nodes w \<and> pool\<lparr>p_Status := s\<rparr> = pool" by (simp add: settled_pool_def)
  qed
  moreover have "p_Meta (pool\<lparr>p_Status := s\<rparr>) = p_Meta pool" by simp
  ultimately show ?thesis using run u(3) [unfolded pools2] by blast
qed

subsection \<open>Coming to rest\<close>

definition pool_runs :: "('w, 'x) pool_env_scheme \<Rightarrow> ObjectKey \<Rightarrow> nat \<Rightarrow> 'w \<Rightarrow> 'w" where
  "pool_runs E key k = (\<lambda>w. snd (pool_Reconcile E key w)) ^^ k"

lemma pool_runs_Suc: "pool_runs E key (Suc k) w = snd (pool_Reconcile E key (pool_runs E key k w))"
  by (simp add: pool_runs_def)

lemma settled_stays:
  assumes laws: "pool_store_api E pools nodes" "node_api_total E nodes" "cmp_laws E" "finalizer_laws E"
    and w: "pools w key = Some q" "settled_pool E spec (nodes w) q" and key: "ObjectKeyFromMeta (p_Meta q) = key"
  shows "\<exists>w'. pool_Reconcile E key w = (Ret (\<lparr>Requeue = False\<rparr>, None), w') \<and>
    pools w' = pools w \<and> nodes w' = nodes w"
proof -
  have "guarded_pool E spec (nodes w) q" using w(2) by (simp add: settled_pool_def)
  from run_settles [OF laws w(1) this key] w show ?thesis by (auto simp: fun_upd_idem)
qed

lemma settled_forever:
  assumes laws: "pool_store_api E pools nodes" "node_api_total E nodes" "cmp_laws E" "finalizer_laws E"
    and w: "pools w key = Some q" "settled_pool E spec (nodes w) q" and key: "ObjectKeyFromMeta (p_Meta q) = key"
  shows "pools (pool_runs E key k w) = pools w \<and> nodes (pool_runs E key k w) = nodes w \<and>
    fst (pool_Reconcile E key (pool_runs E key k w)) = Ret (\<lparr>Requeue = False\<rparr>, None)"
proof (induction k)
  case 0
  show ?case using settled_stays [OF laws w key] by (auto simp: pool_runs_def)
next
  case (Suc k)
  let ?w = "pool_runs E key k w"
  have at: "pools ?w key = Some q" "settled_pool E spec (nodes ?w) q" using Suc w by simp_all
  from settled_stays [OF laws at key] obtain w' where w': "pool_runs E key (Suc k) w = w'"
    "pools w' = pools w" "nodes w' = nodes w"
    using Suc by (auto simp: pool_runs_Suc)
  then have "pools w' key = Some q" "settled_pool E spec (nodes w') q" using w by simp_all
  from settled_stays [OF laws this key] w' show ?case by auto
qed

lemma two_runs_settle:
  assumes laws: "pool_store_api E pools nodes" "node_api_total E nodes" "cmp_laws E" "finalizer_laws E"
    and p: "pools w key = Some pool" and live: "live_pool spec (nodes w) pool"
    and key: "ObjectKeyFromMeta (p_Meta pool) = key"
  shows "\<exists>q. pools (pool_runs E key 2 w) = (pools w)(key \<mapsto> q) \<and>
    settled_pool E spec (nodes (pool_runs E key 2 w)) q \<and>
    p_Meta q = (p_Meta pool)\<lparr>Finalizers := Finalizers (p_Meta q)\<rparr>"
proof -
  obtain w1 q1 where w1: "snd (pool_Reconcile E key w) = w1" "pools w1 = (pools w)(key \<mapsto> q1)"
    and q1: "guarded_pool E spec (nodes w1) q1" "p_Meta q1 = (p_Meta pool)\<lparr>Finalizers := Finalizers (p_Meta q1)\<rparr>"
  proof (cases "ContainsFinalizer E (Finalizers (p_Meta pool)) MachineNodePoolFinalizer")
    case True
    with live have "guarded_pool E spec (nodes w) pool" by (simp add: guarded_pool_def)
    from run_settles [OF laws p this key] show ?thesis by (force simp: settled_pool_def intro: that)
  next
    case False
    from run_adds_finalizer [OF laws(1) node_api_totalD(1) [OF laws(2)] laws(4) p live key False]
    show ?thesis by (force intro: that)
  qed
  have two: "pool_runs E key 2 w = snd (pool_Reconcile E key w1)"
    using w1(1) by (simp add: pool_runs_def numeral_2_eq_2)
  have key1: "ObjectKeyFromMeta (p_Meta q1) = key"
    by (subst q1(2)) (use key in \<open>simp add: ObjectKeyFromMeta_def\<close>)
  have stored: "pools w1 key = Some q1" by (simp add: w1(2))
  from run_settles [OF laws stored q1(1) key1] obtain w2 q where
    "pool_Reconcile E key w1 = (Ret (\<lparr>Requeue = False\<rparr>, None), w2)"
    "pools w2 = (pools w1)(key \<mapsto> q)" "settled_pool E spec (nodes w2) q" "p_Meta q = p_Meta q1" by blast
  then show ?thesis unfolding two using w1(2) q1(2) by auto
qed

text \<open>
  C30: the runs come to rest. For a live pool with one entry per Node, without taints and with
  all its Nodes present, against an API server that does not fail: after two runs the pool
  carries the finalizer, its Nodes are prepared and its status tells the condition of each;
  every later run returns without error and without a requeue and changes neither pools nor
  Nodes.
\<close>
theorem pool_comes_to_rest:
  assumes "pool_store_api E pools nodes" and "node_api_total E nodes" and "cmp_laws E"
    and "finalizer_laws E" and "pools w key = Some pool" and "live_pool spec (nodes w) pool"
    and "ObjectKeyFromMeta (p_Meta pool) = key"
  shows "\<exists>q. pools (pool_runs E key 2 w) key = Some q \<and> settled_pool E spec (nodes (pool_runs E key 2 w)) q \<and>
    (\<forall>k. pools (pool_runs E key (k + 2) w) = pools (pool_runs E key 2 w) \<and>
         nodes (pool_runs E key (k + 2) w) = nodes (pool_runs E key 2 w) \<and>
         fst (pool_Reconcile E key (pool_runs E key (k + 2) w)) = Ret (\<lparr>Requeue = False\<rparr>, None))"
proof -
  obtain q where pools: "pools (pool_runs E key 2 w) = (pools w)(key \<mapsto> q)"
    and settled: "settled_pool E spec (nodes (pool_runs E key 2 w)) q"
    and meta: "p_Meta q = (p_Meta pool)\<lparr>Finalizers := Finalizers (p_Meta q)\<rparr>"
    using two_runs_settle [OF assms] by blast
  have q: "pools (pool_runs E key 2 w) key = Some q" by (simp add: pools)
  have key: "ObjectKeyFromMeta (p_Meta q) = key"
    by (subst meta) (use assms(7) in \<open>simp add: ObjectKeyFromMeta_def\<close>)
  have "pool_runs E key (k + 2) w = pool_runs E key k (pool_runs E key 2 w)" for k
    by (simp only: pool_runs_def funpow_add comp_apply)
  with q settled settled_forever [OF assms(1-4) q settled key] show ?thesis by metis
qed

text \<open>The in-memory cluster obeys the laws.\<close>

lemma mem_nodes_pools: "mem_nodes (w\<lparr>cl_pools := ps\<rparr>) = mem_nodes w"
  by (simp add: mem_nodes_def fun_eq_iff)

lemma mem_pool_store_api: "pool_store_api (mem_pool_env env) mem_pools mem_nodes"
  unfolding pool_store_api_def
  by (intro conjI allI impI)
    (auto simp: mem_get_def preserves_def mem_update_pool_def mem_status_pool_def Let_def mem_nodes_pools
      mem_get_node_def mem_update_node_def mem_now_def mem_event_def ObjectKeyFromMeta_def split: option.split)

lemma mem_finalizer_laws: "finalizer_laws (mem_pool_env env)"
  by (simp add: finalizer_laws_def time_laws_def)

definition ex_rest_cluster :: cluster where
  "ex_rest_cluster = ex_cluster\<lparr>cl_pools := [(([], ''team-node-pool''), pool_of [ex_entry2])]\<rparr>"

theorem pool_comes_to_rest_witness:
  "\<exists>q. mem_pools (pool_runs ex_env ([], ''team-node-pool'') 2 ex_rest_cluster) ([], ''team-node-pool'') = Some q \<and>
     mem_pools (pool_runs ex_env ([], ''team-node-pool'') 5 ex_rest_cluster) ([], ''team-node-pool'') = Some q"
proof -
  have stored: "mem_pools ex_rest_cluster ([], ''team-node-pool'') = Some (pool_of [ex_entry2])"
    by (simp add: ex_rest_cluster_def pool_of_def ObjectKeyFromMeta_def zero_meta_def)
  have own: "ObjectKeyFromMeta (p_Meta (pool_of [ex_entry2])) = ([], ''team-node-pool'')"
    by (simp add: pool_of_def ObjectKeyFromMeta_def zero_meta_def)
  have "mem_nodes ex_rest_cluster ''n2'' \<noteq> None"
    by (simp add: ex_rest_cluster_def mem_nodes_pools ex_nodes)
  then have "live_pool (p_Spec (pool_of [ex_entry2])) (mem_nodes ex_rest_cluster) (pool_of [ex_entry2])"
    by (simp add: live_pool_def pool_wf_def entry_wf_def ex_entry2_def pool_of_def zero_meta_def)
  from pool_comes_to_rest [where E = ex_env and pools = mem_pools and nodes = mem_nodes and w = ex_rest_cluster
      and key = "([], ''team-node-pool'')", OF mem_pool_store_api mem_node_api mem_cmp_laws mem_finalizer_laws stored this own]
  have "\<exists>q. mem_pools (pool_runs ex_env ([], ''team-node-pool'') 2 ex_rest_cluster) ([], ''team-node-pool'') = Some q \<and>
      mem_pools (pool_runs ex_env ([], ''team-node-pool'') (3 + 2) ex_rest_cluster) =
      mem_pools (pool_runs ex_env ([], ''team-node-pool'') 2 ex_rest_cluster)"
    by (elim exE conjE allE [of _ 3]) (intro exI conjI, assumption+)
  moreover have "(3::nat) + 2 = 5" by simp
  ultimately show ?thesis by (simp only:) metis
qed

end
