(* ===== verification/Scheduling.thy ===== *)
theory Scheduling
  imports InjectorProps WebhookProps NodeLifecycle NodeConvergence
begin

text \<open>
  How the components fit together: the labels and taints one controller writes on a Node are
  those the Pods generated or edited by the others ask for and tolerate, a guest asks for the
  same place as the reservation it takes over, and what the webhook admits is what the node
  pool controller can handle. The scheduler is not part of the program.
\<close>

subsection \<open>The scheduler\<close>

text \<open>
  What the scheduler does with one match expression and with one toleration (the documented
  meaning of the operators \<open>In\<close> and \<open>Equal\<close>).
\<close>

record scheduler =
  sched_matches :: "NodeSelectorRequirement \<Rightarrow> smap \<Rightarrow> bool"
  sched_tolerates :: "Toleration \<Rightarrow> Taint \<Rightarrow> bool"

definition sched_laws :: "scheduler \<Rightarrow> bool" where
  "sched_laws S \<longleftrightarrow>
     (\<forall>e ls. nsr_Operator e = NodeSelectorOpIn \<longrightarrow>
        (sched_matches S e ls \<longleftrightarrow> (\<exists>v \<in> set (nsr_Values e). ls (nsr_Key e) = Some v))) \<and>
     (\<forall>l t. tol_Operator l = TolerationOpEqual \<longrightarrow> tol_Key l \<noteq> [] \<longrightarrow>
        (sched_tolerates S l t \<longleftrightarrow> tol_Key l = taint_Key t \<and> tol_Value l = taint_Value t \<and>
           (tol_Effect l = [] \<or> tol_Effect l = taint_Effect t)))"

lemma sched_lawsD:
  assumes "sched_laws S"
  shows "nsr_Operator e = NodeSelectorOpIn \<Longrightarrow>
      sched_matches S e ls \<longleftrightarrow> (\<exists>v \<in> set (nsr_Values e). ls (nsr_Key e) = Some v)"
    and "tol_Operator l = TolerationOpEqual \<Longrightarrow> tol_Key l \<noteq> [] \<Longrightarrow>
      sched_tolerates S l t \<longleftrightarrow> tol_Key l = taint_Key t \<and> tol_Value l = taint_Value t \<and>
        (tol_Effect l = [] \<or> tol_Effect l = taint_Effect t)"
  using assms by (simp_all add: sched_laws_def)

definition mem_scheduler :: scheduler where
  "mem_scheduler = \<lparr>sched_matches = (\<lambda>e ls. case ls (nsr_Key e) of None \<Rightarrow> False | Some v \<Rightarrow> v \<in> set (nsr_Values e)),
     sched_tolerates = (\<lambda>l t. tol_Key l = taint_Key t \<and> tol_Value l = taint_Value t \<and>
        (tol_Effect l = [] \<or> tol_Effect l = taint_Effect t))\<rparr>"

lemma mem_sched_laws: "sched_laws mem_scheduler"
  by (auto simp: sched_laws_def mem_scheduler_def split: option.splits)

subsection \<open>Nodes and the Pods of their machine type\<close>

text \<open>The label of the GPU a machine type asks for is on the Node (by the GPU operator).\<close>

definition gpu_labelled :: "MachineType \<Rightarrow> smap \<Rightarrow> bool" where
  "gpu_labelled mt ls = (case GPU (mt_Spec mt) of
     None \<Rightarrow> True
   | Some g \<Rightarrow> (case getGPUSelector g of [k, v] \<Rightarrow> ls k = Some v | _ \<Rightarrow> True))"

lemma expressions_match:
  assumes "sched_laws S"
  shows "list_all (\<lambda>e. sched_matches S e ls) (GenerateAffinityMatchExpression mt grp) \<longleftrightarrow>
    ls (GenerateMachineTypeLabelTaintKey (mt_Name mt)) = Some grp \<and>
    ls MachineStatusKey = Some NodeModeReady \<and> gpu_labelled mt ls"
proof -
  have two: "length (getGPUSelector g) = 2 \<Longrightarrow> \<exists>k v. getGPUSelector g = [k, v]" for g
    by (cases "getGPUSelector g" rule: remdups_adj.cases) auto
  show ?thesis
    using sched_lawsD(1) [OF assms] two gpu_selector_length
    by (auto simp: GenerateAffinityMatchExpression_def gpu_labelled_def mode_Value_def Let_def
        split: option.split list.splits)
qed

lemma status_key_nonempty: "MachineStatusKey \<noteq> []" "GenerateMachineTypeLabelTaintKey n \<noteq> []"
  by (simp_all add: MachineStatusKey_def machine_type_key GroupVersion_Group_def)

lemma tolerated:
  assumes "sched_laws S"
  shows "list_ex (\<lambda>l. sched_tolerates S l t) (GenerateToleration name grp) \<longleftrightarrow>
    taint_Effect t = TaintEffectNoSchedule \<and>
    (taint_Key t = GenerateMachineTypeLabelTaintKey name \<and> taint_Value t = grp \<or>
     taint_Key t = MachineStatusKey \<and> taint_Value t = NodeModeReady)"
  using status_key_nonempty
  by (auto simp: GenerateToleration_def sched_lawsD(2) [OF assms] mode_Value_def TaintEffectNoSchedule_def)

lemma prepared_matches:
  assumes "sched_laws S" and "node_prepared env pool p n" and "entry_wf p"
    and "np_MachineType p = [t]" and "npmt_Name t = mt_Name mt"
  shows "list_all (\<lambda>e. sched_matches S e (node_Labels n)) (GenerateAffinityMatchExpression mt (group_of pool)) \<longleftrightarrow>
    expected_status env p (n_Taints n) = NodeModeReady \<and> gpu_labelled mt (node_Labels n)"
proof -
  have keys: "entry_keys p = [GenerateMachineTypeLabelTaintKey (mt_Name mt)]" using assms(4,5) by (simp add: schedule_keys)
  have "MachineStatusKey \<notin> set (entry_keys p)" by (rule entry_wf_keys(2) [OF assms(3)])
  from node_prepared_label(2) [OF assms(2) this] show ?thesis
    using node_prepared_label(1) [OF assms(2)] keys by (simp add: expressions_match [OF assms(1)])
qed

text \<open>
  C23: a prepared Node takes the Pods of its machine type exactly while it is ready. On a Node
  prepared for an entry with one machine type, the node affinity generated for that type
  matches if and only if the Node is reported ready (not in maintenance and without a taint
  that makes it unusable) and carries the GPU label the type asks for; and when the entry is
  tainted, the generated tolerations tolerate all taints the controller put on the Node if and
  only if it is ready.
\<close>
theorem prepared_node_hosts:
  assumes "sched_laws S" and "node_prepared env pool p n" and "entry_wf p"
    and "np_MachineType p = [t]" and "npmt_Name t = mt_Name mt"
  shows "(list_all (\<lambda>e. sched_matches S e (node_Labels n)) (GenerateAffinityMatchExpression mt (group_of pool)) \<longleftrightarrow>
      expected_status env p (n_Taints n) = NodeModeReady \<and> gpu_labelled mt (node_Labels n)) \<and>
    (np_Taint p \<longrightarrow>
      (list_all (\<lambda>u. list_ex (\<lambda>l. sched_tolerates S l u) (GenerateToleration (mt_Name mt) (group_of pool)))
         (filter (\<lambda>u. taint_Key u \<in> set (managed_keys p)) (n_Taints n)) \<longleftrightarrow>
       expected_status env p (n_Taints n) = NodeModeReady))"
proof -
  let ?key = "GenerateMachineTypeLabelTaintKey (mt_Name mt)"
  have keys: "entry_keys p = [?key]" using assms(4,5) by (simp add: schedule_keys)
  have new: "MachineStatusKey \<notin> set (entry_keys p)" by (rule entry_wf_keys(2) [OF assms(3)])
  have taints: "list_all (\<lambda>u. list_ex (\<lambda>l. sched_tolerates S l u) (GenerateToleration (mt_Name mt) (group_of pool)))
      (filter (\<lambda>u. taint_Key u \<in> set (managed_keys p)) (n_Taints n)) \<longleftrightarrow>
      expected_status env p (n_Taints n) = NodeModeReady" if tainted: "np_Taint p"
  proof -
    obtain now where "filter (\<lambda>u. taint_Key u \<in> set (managed_keys p)) (n_Taints n) =
        managed_taints env (group_of pool) p now (n_Taints n)"
      using assms(2) tainted by (auto simp: node_prepared_def)
    moreover have "MachineStatusKey \<noteq> ?key" using new keys by simp
    ultimately show ?thesis
      by (simp add: managed_taints_def keys tolerated [OF assms(1)])
  qed
  show ?thesis
    using prepared_matches [OF assms] taints by blast
qed

definition ex_one_entry :: NodePool where
  "ex_one_entry = \<lparr>np_Name = ''n1'', np_Mode = NodeModeReady, np_Taint = True,
     np_MachineType = [\<lparr>npmt_Name = ''a100''\<rparr>]\<rparr>"

theorem prepared_node_hosts_witness:
  "list_all (\<lambda>e. sched_matches mem_scheduler e
       (node_Labels (prepared Map.empty (pool_of [ex_one_entry]) ex_one_entry 5
          (node_of ''n1'' [NvidiaGPUFamilyKey \<mapsto> ''ampere''] []))))
     (GenerateAffinityMatchExpression ex_type ''team'')"
proof -
  let ?n = "node_of ''n1'' [NvidiaGPUFamilyKey \<mapsto> ''ampere''] []"
  have wf: "entry_wf ex_one_entry" by (simp add: entry_wf_def ex_one_entry_def)
  have "npmt_Name \<lparr>npmt_Name = ''a100''\<rparr> = mt_Name ex_type" by simp
  moreover have "np_MachineType ex_one_entry = [\<lparr>npmt_Name = ''a100''\<rparr>]" by (simp add: ex_one_entry_def)
  ultimately have "list_all (\<lambda>e. sched_matches mem_scheduler e
       (node_Labels (prepared Map.empty (pool_of [ex_one_entry]) ex_one_entry 5 ?n)))
       (GenerateAffinityMatchExpression ex_type (group_of (pool_of [ex_one_entry]))) \<longleftrightarrow>
     expected_status Map.empty ex_one_entry (n_Taints (prepared Map.empty (pool_of [ex_one_entry]) ex_one_entry 5 ?n))
       = NodeModeReady \<and>
     gpu_labelled ex_type (node_Labels (prepared Map.empty (pool_of [ex_one_entry]) ex_one_entry 5 ?n))"
    using prepared_node_hosts [OF mem_sched_laws node_prepared_prepared wf] by blast
  moreover have "expected_status Map.empty ex_one_entry
      (n_Taints (prepared Map.empty (pool_of [ex_one_entry]) ex_one_entry 5 ?n)) = NodeModeReady"
    by (simp add: expected_status_prepared) (simp add: expected_status_def ex_one_entry_def)
  moreover have "gpu_labelled ex_type (node_Labels (prepared Map.empty (pool_of [ex_one_entry]) ex_one_entry 5 ?n))"
    by (simp add: gpu_labelled_def ex_type_def getGPUSelector_def prepared_def prepared_labels_def ex_one_entry_def
        NvidiaGPUFamilyKey_def MachineStatusKey_def GroupVersion_Group_def)
  ultimately show ?thesis by simp
qed

subsection \<open>Guests and reservations\<close>

text \<open>
  C17: a guest asks for the place of a reservation. Whenever \<open>injectToPod\<close> succeeds, the group
  offers the machine type of the Pod, and compared with the Pod template of the reservation
  StatefulSet of that type, whatever its replica count and whatever was stored before, the
  target container has the resources of the reservation's container, the last node selector
  term is the reservation's only one, and all tolerations of the reservation are there.
\<close>
theorem guest_takes_reservation_place:
  assumes "fst (injectToPod E pod w) = Ret (Inr pod')" and "terms_have_values pod"
    and "pod_type pod \<noteq> ''node-pool''"
  shows "\<exists>m ms mt ts. fst (inj_List_Machines E [MachineGroupKey \<mapsto> pod_group pod] w) = Inr (m # ms) \<and>
    mt \<in> set (ms_MachineTypes (m_Spec m)) \<and> mt_Name mt = pod_type pod \<and> requiredTerms pod' = Ret ts \<and>
    (\<forall>n s. let tmpl = sts_TemplateSpec (GenerateStatefulSet mt (pod_group pod) n s) in
       map c_Resources (ps_Containers tmpl) =
         [c_Resources (ps_Containers (pod_Spec pod') ! findInjectingTargetContainerIndex pod)] \<and>
       ps_Affinity tmpl = Some \<lparr>aff_NodeAffinity = Some \<lparr>na_Required = Some [last ts]\<rparr>\<rparr> \<and>
       set (ps_Tolerations tmpl) \<subseteq> set (ps_Tolerations (pod_Spec pod')))"
proof -
  obtain m ms mt where list: "fst (inj_List_Machines E [MachineGroupKey \<mapsto> pod_group pod] w) = Inr (m # ms)"
    and find: "find (\<lambda>mt. mt_Name mt = pod_type pod) (ms_MachineTypes (m_Spec m)) = Some mt"
    and cs: "ps_Containers (pod_Spec pod) \<noteq> []"
    and inj: "pod' = injected_pod mt (pod_group pod) (pod_type pod) pod"
    by (rule injectToPod_ok [OF assms(1,2)])
  have name: "mt_Name mt = pod_type pod" and mem: "mt \<in> set (ms_MachineTypes (m_Spec m))"
    using find by (auto dest: find_SomeD)
  obtain ts' where ts: "requiredTerms pod' =
      Ret (ts' @ [\<lparr>MatchExpressions = type_expressions mt (pod_group pod), MatchFields = []\<rparr>])"
    using injected_pod_sel(3) unfolding inj asked_term_eq by blast
  have res: "c_Resources (ps_Containers (pod_Spec pod') ! findInjectingTargetContainerIndex pod) =
      \<lparr>Requests = convertToResourceQuantity mt, Limits = convertToResourceQuantity mt\<rparr>"
    using target_container_bound [OF cs] by (simp add: inj injected_pod_def Let_def target_index_eq asked_resources_eq)
  have tol: "set (GenerateToleration (pod_type pod) (pod_group pod)) \<subseteq> set (ps_Tolerations (pod_Spec pod'))"
  proof -
    have "distinct (map (\<lambda>t. (tol_Key t, tol_Value t)) (GenerateToleration (pod_type pod) (pod_group pod)))"
      using assms(3) by (simp add: GenerateToleration_def machine_type_key_status)
    from inject_present [OF this] show ?thesis by (simp add: inj injected_pod_sel)
  qed
  show ?thesis
  proof (intro exI conjI allI)
    show "requiredTerms pod' = Ret (ts' @ [\<lparr>MatchExpressions = type_expressions mt (pod_group pod), MatchFields = []\<rparr>])"
      by (rule ts)
    show "let tmpl = sts_TemplateSpec (GenerateStatefulSet mt (pod_group pod) n s) in
       map c_Resources (ps_Containers tmpl) =
         [c_Resources (ps_Containers (pod_Spec pod') ! findInjectingTargetContainerIndex pod)] \<and>
       ps_Affinity tmpl = Some \<lparr>aff_NodeAffinity = Some \<lparr>na_Required =
         Some [last (ts' @ [\<lparr>MatchExpressions = type_expressions mt (pod_group pod), MatchFields = []\<rparr>])]\<rparr>\<rparr> \<and>
       set (ps_Tolerations tmpl) \<subseteq> set (ps_Tolerations (pod_Spec pod'))" for n s
      using tol name by (simp add: GenerateStatefulSet_def Let_def res convertToResourceQuantity_def)
  qed (fact list mem name)+
qed

theorem guest_takes_reservation_place_witness:
  "\<exists>pod' ts. fst (injectToPod (mem_injector_env ex_pod) ex_pod (ex_iworld ex_reserved)) = Ret (Inr pod') \<and>
     requiredTerms pod' = Ret ts \<and>
     ps_Affinity (sts_TemplateSpec (GenerateStatefulSet ex_type ''team'' 1 (new_sts [] ''r''))) =
       Some \<lparr>aff_NodeAffinity = Some \<lparr>na_Required = Some [last ts]\<rparr>\<rparr>"
proof -
  let ?E = "mem_injector_env ex_pod" and ?w = "ex_iworld ex_reserved"
  obtain pod' where i: "fst (injectToPod ?E ex_pod ?w) = Ret (Inr pod')"
    using injectToPod_run [of ?E ex_pod ?w] inject_edit_exact [of ex_pod _ ex_type "''team''" "''a100''"]
    by (auto simp: ex_list Let_def)
  have "pod_type ex_pod \<noteq> ''node-pool''" by simp
  from guest_takes_reservation_place [OF i ex_pod_sel(6) this]
  obtain m ms mt ts where "fst (inj_List_Machines ?E [MachineGroupKey \<mapsto> ''team''] ?w) = Inr (m # ms)"
    and "mt \<in> set (ms_MachineTypes (m_Spec m))" and "requiredTerms pod' = Ret ts"
    and "ps_Affinity (sts_TemplateSpec (GenerateStatefulSet mt ''team'' 1 (new_sts [] ''r''))) =
       Some \<lparr>aff_NodeAffinity = Some \<lparr>na_Required = Some [last ts]\<rparr>\<rparr>"
    by (auto simp: Let_def)
  with i show ?thesis by (auto simp: ex_list)
qed

text \<open>
  A requirement of the Pod's own that the injection deletes. When exactly one expression of a term
  of the Pod is taken for a repetition, whatever its operator is, the injected Pod has the term
  without it: a Node that meets the other expressions is accepted also where the deleted one
  excludes it, as a \<open>NotIn\<close> of the ready status does.
\<close>
theorem requirement_lost:
  assumes "fst (injectToPod E pod w) = Ret (Inr pod')" and "terms_have_values pod"
    and "fst (inj_List_Machines E [MachineGroupKey \<mapsto> pod_group pod] w) = Inr (m # ms)"
    and "find (\<lambda>mt. mt_Name mt = pod_type pod) (ms_MachineTypes (m_Spec m)) = Some mt"
    and "t \<in> set (own_terms pod)" and "MatchExpressions t = a @ e # b"
    and "taken_for_repeated mt (pod_group pod) e"
    and "\<forall>x \<in> set a \<union> set b. \<not> taken_for_repeated mt (pod_group pod) x"
    and "list_all (\<lambda>x. sched_matches S x ls) (a @ b)" and "\<not> sched_matches S e ls"
  shows "\<not> list_all (\<lambda>x. sched_matches S x ls) (MatchExpressions t) \<and>
    (\<exists>ts t'. requiredTerms pod' = Ret ts \<and> t' \<in> set ts \<and> MatchFields t' = MatchFields t \<and>
       MatchExpressions t' = a @ b \<and> list_all (\<lambda>x. sched_matches S x ls) (MatchExpressions t'))"
proof -
  have pod': "pod' = injected_pod mt (pod_group pod) (pod_type pod) pod"
    using injectToPod_ok [OF assms(1,2)] assms(3,4) by (metis Inr_inject list.inject option.inject)
  let ?t' = "t\<lparr>MatchExpressions := thinned (taken_for_repeated mt (pod_group pod)) (MatchExpressions t)\<rparr>"
  have "MatchExpressions ?t' = a @ b" using thinned_one [OF assms(7,8)] assms(6) by simp
  moreover have "MatchFields ?t' = MatchFields t" by simp
  moreover have "?t' \<in> (\<lambda>t. t\<lparr>MatchExpressions := thinned (taken_for_repeated mt (pod_group pod)) (MatchExpressions t)\<rparr>)
      ` set (own_terms pod)" using assms(5) by blast
  ultimately show ?thesis
    using assms(6,9,10) unfolding pod' injected_pod_sel(3)
    by (intro conjI exI [of _ ?t'] exI [of _ "map (\<lambda>t. t\<lparr>MatchExpressions :=
      thinned (taken_for_repeated mt (pod_group pod)) (MatchExpressions t)\<rparr>) (own_terms pod) @ [asked_term mt (pod_group pod)]"])
      simp_all
qed

subsection \<open>What the webhook admits and what the controllers need\<close>

lemma admitted_entry:
  assumes "fst (ValidateAllOperation E r w) = Ret (Inr ())" and "p \<in> set (ms_NodePool (m_Spec r))"
  shows "\<exists>t mt. np_MachineType p = [t] \<and> mt \<in> set (ms_MachineTypes (m_Spec r)) \<and> npmt_Name t = mt_Name mt"
proof -
  have "spec_valid (Quantity_Value E) (m_Spec r)" by (rule validate_specD [OF assms(1)])
  with assms(2) show ?thesis by (fastforce simp: spec_valid_def)
qed

lemma edit_pool_wf:
  assumes "fst (ValidateAllOperation E r w) = Ret (Inr ())"
    and "distinct (map np_Name (ms_NodePool (m_Spec r)))"
    and "''node-pool'' \<notin> mt_Name ` set (ms_MachineTypes (m_Spec r))"
  shows "pool_wf (edit_pool r grp pool)"
proof -
  have "entry_wf p" if p: "p \<in> set (ms_NodePool (m_Spec r))" for p
  proof -
    obtain t mt where t: "np_MachineType p = [t]" and "mt \<in> set (ms_MachineTypes (m_Spec r))" "npmt_Name t = mt_Name mt"
      using admitted_entry [OF assms(1) p] by blast
    then have "npmt_Name t \<in> mt_Name ` set (ms_MachineTypes (m_Spec r))" by simp
    with assms(3) have "npmt_Name t \<noteq> ''node-pool''" by metis
    with t show ?thesis by (simp add: entry_wf_def)
  qed
  with assms(2) show ?thesis by (simp add: pool_wf_def edit_pool_sel(2))
qed

text \<open>
  C22: the pool of an admitted Machine is well formed. If the webhook accepts a Machine that
  lists no Node twice and whose machine types are not called "node-pool" (the two things it
  does not check), then the MachineNodePool made from it, whatever was stored before, has one
  entry per Node, each entry names exactly one machine type, and that type is in the stock.
\<close>
theorem admitted_pool_wf:
  assumes "fst (ValidateAllOperation E r w) = Ret (Inr ())"
    and "distinct (map np_Name (ms_NodePool (m_Spec r)))"
    and "''node-pool'' \<notin> mt_Name ` set (ms_MachineTypes (m_Spec r))"
  shows "pool_wf (edit_pool r grp pool) \<and>
    list_all (\<lambda>p. \<exists>t. np_MachineType p = [t] \<and>
        npmt_Name t \<in> stock_Name ` set (mnp_MachineTypeStock (p_Spec (edit_pool r grp pool))))
      (entries (edit_pool r grp pool))"
  using edit_pool_wf [OF assms] admitted_entry [OF assms(1)] edit_pool_covers
  by (fastforce simp: edit_pool_sel(2) list_all_iff)

theorem admitted_pool_wf_witness:
  "pool_wf (edit_pool ex_machine ''team'' (new_pool ''team-node-pool''))"
  using admitted_pool_wf [OF ex_validates, of "''team''" "new_pool ''team-node-pool''"]
  by (simp add: ex_machine_def ex_type_def)

text \<open>
  C14: from the Machine to its Nodes. Take a Machine the webhook admits (with the two
  restrictions of the last property), let the first stage of the Machine controller store its
  pool, and let the node pool controller run on that pool against an API server that does not
  fail and has the Nodes: the run succeeds, and afterwards on every Node of the Machine the
  affinity generated for the machine type of its entry, a type of the Machine, matches exactly
  when the Node is ready and has the GPU label.
\<close>
theorem machine_reaches_nodes:
  assumes "fst (ValidateAllOperation V r v) = Ret (Inr ())"
    and "distinct (map np_Name (ms_NodePool (m_Spec r)))"
    and "''node-pool'' \<notin> mt_Name ` set (ms_MachineTypes (m_Spec r))"
    and "pool_stage_laws E pools" and "reconcileMachineNodePool E r w = (Ret (Inr r'), w1)"
    and "node_api_total P nodes" and "cmp_laws P" and "sched_laws S"
    and "\<forall>p \<in> set (ms_NodePool (m_Spec r)). \<exists>n. nodes w1 (np_Name p) = Some n \<and>
      own_unique (managed_keys p) (n_Taints n)"
  shows "\<exists>pool w2. pools w1 (group_pool_key (machine_group r)) = Some pool \<and>
    reconcileNode P pool w1 = (Ret (Inr ()), w2) \<and>
    (\<forall>p \<in> set (ms_NodePool (m_Spec r)). \<exists>n mt. nodes w2 (np_Name p) = Some n \<and>
       mt \<in> set (ms_MachineTypes (m_Spec r)) \<and> map npmt_Name (np_MachineType p) = [mt_Name mt] \<and>
       (list_all (\<lambda>e. sched_matches S e (node_Labels n)) (GenerateAffinityMatchExpression mt (machine_group r)) \<longleftrightarrow>
        expected_status (os_environ P) p (n_Taints n) = NodeModeReady \<and> gpu_labelled mt (node_Labels n)))"
proof -
  let ?g = "machine_group r"
  obtain old pool where stored: "pools w1 = (pools w)(group_pool_key ?g \<mapsto> pool)"
    and own: "own_edited (edit_pool r ?g) p_Meta (\<lambda>m p. p\<lparr>p_Meta := m\<rparr>) (SetControllerReference E r) old = Inr pool"
    by (rule pool_stage [OF assms(4,5)])
  have spec: "p_Spec pool = p_Spec (edit_pool r ?g old)"
    using own by (auto simp: own_edited_def split: sum.splits)
  have entries: "entries pool = ms_NodePool (m_Spec r)" and grp: "group_of pool = ?g"
    by (simp_all add: spec edit_pool_sel)
  have wf: "pool_wf pool"
    using edit_pool_wf [OF assms(1-3)] by (simp add: pool_wf_def spec)
  have uniq: "taints_unique pool (nodes w1)" and ex: "\<forall>p \<in> set (entries pool). nodes w1 (np_Name p) \<noteq> None"
    using assms(9) by (fastforce simp: taints_unique_def entries)+
  obtain w2 where w2: "reconcileNode P pool w1 = (Ret (Inr ()), w2)"
    using reconcileNode_succeeds [OF assms(6,7) wf uniq ex] by blast
  have prep: "pool_prepared (os_environ P) pool (nodes w2)"
    using reconcileNode_establishes [OF node_api_totalD(1) [OF assms(6)] assms(7) wf uniq w2] by blast
  have "\<exists>n mt. nodes w2 (np_Name p) = Some n \<and>
       mt \<in> set (ms_MachineTypes (m_Spec r)) \<and> map npmt_Name (np_MachineType p) = [mt_Name mt] \<and>
       (list_all (\<lambda>e. sched_matches S e (node_Labels n)) (GenerateAffinityMatchExpression mt ?g) \<longleftrightarrow>
        expected_status (os_environ P) p (n_Taints n) = NodeModeReady \<and> gpu_labelled mt (node_Labels n))"
    if p: "p \<in> set (ms_NodePool (m_Spec r))" for p
  proof -
    obtain n where n: "nodes w2 (np_Name p) = Some n" "node_prepared (os_environ P) pool p n"
      using bspec [OF prep [unfolded pool_prepared_def], of p] p entries by auto
    obtain t mt where t: "np_MachineType p = [t]" and mt: "mt \<in> set (ms_MachineTypes (m_Spec r))" "npmt_Name t = mt_Name mt"
      using admitted_entry [OF assms(1) p] by blast
    have "entry_wf p" using pool_wfD(3) [OF wf] p entries by simp
    from prepared_matches [OF assms(8) n(2) this t mt(2)] n(1) t mt show ?thesis
      unfolding grp by (intro exI conjI) simp_all
  qed
  with stored w2 show ?thesis by auto
qed

lemma mem_pool_stage_nodes: "preserves mem_nodes (reconcileMachineNodePool ex_menv m)"
proof -
  have "preserves mem_nodes (mem_write_machine m')" for m'
    by (rule mem_preserves) (simp add: mem_nodes_def fun_eq_iff)
  moreover have "preserves mem_nodes mem_now" by (rule mem_preserves) simp
  moreover have "preserves mem_nodes (CreateOrUpdate_Pool ex_menv p (\<lambda>p w. (mutate_pool ex_menv m g p, w)))" for p g
    by simp (rule mem_upsert_preserves, simp_all add: mem_nodes_pools preserves_def)
  ultimately show ?thesis
    unfolding reconcileMachineNodePool_def updateReconcileConditions_def updateReconcileSuccessStatus_def Let_def
    by (intro preserves_intros) simp_all
qed

definition ex_full_world :: cluster where
  "ex_full_world = ex_world\<lparr>cl_nodes := [''n1'' \<mapsto> node_of ''n1'' [NvidiaGPUFamilyKey \<mapsto> ''ampere''] []]\<rparr>"

theorem machine_reaches_nodes_witness:
  "\<exists>pool w1 w2 n. mem_pools w1 (group_pool_key ''team'') = Some pool \<and>
     reconcileNode ex_env pool w1 = (Ret (Inr ()), w2) \<and> mem_nodes w2 ''n1'' = Some n \<and>
     (list_all (\<lambda>e. sched_matches mem_scheduler e (node_Labels n)) (GenerateAffinityMatchExpression ex_type ''team'') \<longleftrightarrow>
      expected_status Map.empty (hd (ms_NodePool (m_Spec ex_machine))) (n_Taints n) = NodeModeReady \<and>
      gpu_labelled ex_type (node_Labels n))"
proof -
  obtain m1 w1 where run: "reconcileMachineNodePool ex_menv ex_machine ex_full_world = (Ret (Inr m1), w1)"
    using mem_pool_stage_runs by blast
  have "mem_nodes w1 = mem_nodes ex_full_world"
    using preservesD [OF mem_pool_stage_nodes, of ex_machine ex_full_world] run by simp
  then have nodes: "mem_nodes w1 ''n1'' = Some (node_of ''n1'' [NvidiaGPUFamilyKey \<mapsto> ''ampere''] [])"
    by (simp add: ex_full_world_def mem_nodes_def)
  have entry: "ms_NodePool (m_Spec ex_machine) = [\<lparr>np_Name = ''n1'', np_Mode = NodeModeReady, np_Taint = True,
      np_MachineType = [\<lparr>npmt_Name = ''a100''\<rparr>]\<rparr>]"
    by (simp add: ex_machine_def)
  have "distinct (map np_Name (ms_NodePool (m_Spec ex_machine)))"
    "''node-pool'' \<notin> mt_Name ` set (ms_MachineTypes (m_Spec ex_machine))"
    "\<forall>p \<in> set (ms_NodePool (m_Spec ex_machine)). \<exists>n. mem_nodes w1 (np_Name p) = Some n \<and>
      own_unique (managed_keys p) (n_Taints n)"
    using nodes by (simp_all add: entry own_unique_def)
  from machine_reaches_nodes [where pools = mem_pools and nodes = mem_nodes, OF ex_validates this(1,2)
      mem_pool_stage_laws run mem_node_api mem_cmp_laws mem_sched_laws this(3), of Map.empty]
  obtain pool w2 where "mem_pools w1 (group_pool_key ''team'') = Some pool"
      "reconcileNode ex_env pool w1 = (Ret (Inr ()), w2)"
    and "\<forall>p \<in> set (ms_NodePool (m_Spec ex_machine)). \<exists>n mt. mem_nodes w2 (np_Name p) = Some n \<and>
       mt \<in> set (ms_MachineTypes (m_Spec ex_machine)) \<and> map npmt_Name (np_MachineType p) = [mt_Name mt] \<and>
       (list_all (\<lambda>e. sched_matches mem_scheduler e (node_Labels n)) (GenerateAffinityMatchExpression mt ''team'') \<longleftrightarrow>
        expected_status Map.empty p (n_Taints n) = NodeModeReady \<and> gpu_labelled mt (node_Labels n))"
    by auto
  then show ?thesis by (fastforce simp: entry)
qed

end
