(* ===== verification/Admission.thy ===== *)
theory Admission
  imports WebhookProps InjectorProps NodeConvergence MachineFrames
begin

text \<open>
  The whole program as a step relation: the webhooks and the two controllers run one after the
  other in any order, while the API server stores the Machines that were admitted. The state is
  the world together with the Machines that were admitted and are not stored yet.
\<close>

subsection \<open>What the components leave alone\<close>

text \<open>No call changes what \<open>view\<close> shows; a mutate function that does not makes no difference.\<close>

definition mach_keeps :: "('w, 'x) mach_env_scheme \<Rightarrow> ('w \<Rightarrow> 'v) \<Rightarrow> bool" where
  "mach_keeps E view \<longleftrightarrow>
     preserves view (metav1_Now E) \<and> (\<forall>s w. view (Recorder_Eventf E s w) = view w) \<and>
     (\<forall>k. preserves view (Get_Machine E k)) \<and> (\<forall>m. preserves view (StatusUpdate_Machine E m)) \<and>
     (\<forall>n. preserves view (Get_Namespace E n)) \<and> (\<forall>ns sel. preserves view (List_Pods E ns sel)) \<and>
     (\<forall>x f. (\<forall>y. preserves view (f y)) \<longrightarrow> preserves view (CreateOrUpdate_Pool E x f)) \<and>
     (\<forall>x f. (\<forall>y. preserves view (f y)) \<longrightarrow> preserves view (CreateOrUpdate_Sts E x f)) \<and>
     (\<forall>x f. (\<forall>y. preserves view (f y)) \<longrightarrow> preserves view (CreateOrUpdate_Svc E x f))"

definition pool_keeps :: "('w, 'x) pool_env_scheme \<Rightarrow> ('w \<Rightarrow> 'v) \<Rightarrow> bool" where
  "pool_keeps P view \<longleftrightarrow>
     preserves view (metav1_Now P) \<and> (\<forall>s w. view (Recorder_Eventf P s w) = view w) \<and>
     (\<forall>k. preserves view (Get_Pool P k)) \<and> (\<forall>p. preserves view (Update_Pool P p)) \<and>
     (\<forall>p. preserves view (StatusUpdate_Pool P p)) \<and>
     (\<forall>k. preserves view (Get_Node P k)) \<and> (\<forall>n. preserves view (Update_Node P n))"

definition injector_keeps :: "('w, 'x) injector_env_scheme \<Rightarrow> ('w \<Rightarrow> 'v) \<Rightarrow> bool" where
  "injector_keeps I view \<longleftrightarrow>
     (\<forall>k. preserves view (inj_Get_Pod I k)) \<and> (\<forall>sel. preserves view (inj_List_Machines I sel))"

definition webhook_keeps :: "('w, 'x) webhook_env_scheme \<Rightarrow> ('w \<Rightarrow> 'v) \<Rightarrow> bool" where
  "webhook_keeps V view \<longleftrightarrow>
     (\<forall>sel. preserves view (wh_List_Machines V sel)) \<and> preserves view (wh_List_Nodes V)"

lemma mach_keepsD:
  assumes "mach_keeps E view"
  shows "preserves view (metav1_Now E)" "view (Recorder_Eventf E s w) = view w"
    "preserves view (Get_Machine E k)" "preserves view (StatusUpdate_Machine E m)"
    "preserves view (Get_Namespace E n)" "preserves view (List_Pods E ns sel)"
    "(\<And>y. preserves view (f y)) \<Longrightarrow> preserves view (CreateOrUpdate_Pool E p f)"
    "(\<And>y. preserves view (g y)) \<Longrightarrow> preserves view (CreateOrUpdate_Sts E q g)"
    "(\<And>y. preserves view (h y)) \<Longrightarrow> preserves view (CreateOrUpdate_Svc E v h)"
  using assms unfolding mach_keeps_def by blast+

lemma pool_keepsD:
  assumes "pool_keeps P view"
  shows "preserves view (metav1_Now P)" "view (Recorder_Eventf P s w) = view w"
    "preserves view (Get_Pool P k)" "preserves view (Update_Pool P p)"
    "preserves view (StatusUpdate_Pool P p)" "preserves view (Get_Node P key)"
    "preserves view (Update_Node P n)"
  using assms unfolding pool_keeps_def by blast+

lemma keeps_machine_Reconcile:
  assumes "mach_keeps E view"
  shows "preserves view (machine_Reconcile E req)"
proof -
  note keep = mach_keepsD [OF assms]
  have status: "status_frame E view" using keep(1,4) by (simp add: status_frame_def)
  show ?thesis
    unfolding machine_Reconcile_def machine_reconcile_def stage_def
    by (intro preserves_intros pool_stage_frame sts_stage_frame svc_stage_frame updateStatus_frame
        failed_frame mutate_sts_frame preserves_pure status keep)
qed

lemma keeps_pool_Reconcile:
  assumes "pool_keeps P view"
  shows "preserves view (pool_Reconcile P req)"
proof -
  note keep = pool_keepsD [OF assms]
  have "preserves view (reconcileNode_step P pool p)" for pool p
    unfolding reconcileNode_step_def Let_def by (intro preserves_intros keep)
  then have "preserves view (reconcileNode_loop P pool ps)" for pool ps
    by (induction ps) (simp_all add: preserves_intros)
  then have nodes: "preserves view (reconcileNode P pool)" for pool by (simp add: reconcileNode_def)
  have "preserves view (cleanupNode_loop P pool ps)" for pool ps
    by (induction ps) (simp_all add: preserves_intros keep Let_def)
  then have clean: "preserves view (cleanupNode P pool)" for pool by (simp add: cleanupNode_def)
  have "preserves view (nodeConditions_loop P cs ps)" for cs ps
    by (induction ps arbitrary: cs) (simp_all add: preserves_intros keep)
  then have status: "preserves view (pool_updateStatus P pool)" for pool
    unfolding pool_updateStatus_def Let_def by (intro preserves_intros keep)
  have update: "preserves view (updatePool_event P pool msg)" for pool msg
    unfolding updatePool_event_def by (intro preserves_intros keep)
  show ?thesis
    unfolding pool_Reconcile_def pool_reconcile_def Let_def
    by (intro preserves_intros nodes clean status update keep)
qed

lemma keeps_injector:
  assumes "injector_keeps I view"
  shows "preserves view (injector_Handle I raw)"
proof -
  have keep: "preserves view (inj_Get_Pod I k)" "preserves view (inj_List_Machines I sel)" for k sel
    using assms unfolding injector_keeps_def by blast+
  have "preserves view (replacePods I pod)" for pod
    unfolding replacePods_def Let_def by (intro preserves_intros keep)
  moreover have "preserves view (injectToPod I pod)" for pod
    unfolding injectToPod_def findMachineType_def Let_def by (intro preserves_intros keep)
  ultimately show ?thesis
    unfolding injector_Handle_def by (intro preserves_intros)
qed

lemma keeps_webhook:
  assumes "webhook_keeps V view"
  shows "preserves view (ValidateAllOperation V r)"
proof -
  have keep: "preserves view (wh_List_Machines V sel)" "preserves view (wh_List_Nodes V)" for sel
    using assms by (simp_all add: webhook_keeps_def)
  show ?thesis
    unfolding ValidateAllOperation_def ValidateLabel_def ValidateNodeName_def
    by (intro preserves_intros keep)
qed

subsection \<open>The step relation\<close>

text \<open>What the invariant is about: names and groups of the stored Machines.\<close>

definition identities :: "('w \<Rightarrow> Machine list) \<Rightarrow> 'w \<Rightarrow> (string \<times> string option) list" where
  "identities machines w = map (\<lambda>m. (Name (m_Meta m), Labels (m_Meta m) MachineGroupKey)) (machines w)"

text \<open>The API server stores an admitted Machine in place of the one of its name, and deletes by name.\<close>

record 'w machine_store =
  stored_machines :: "'w \<Rightarrow> Machine list"
  put_machine :: "Machine \<Rightarrow> 'w \<Rightarrow> 'w"
  delete_machine :: "string \<Rightarrow> 'w \<Rightarrow> 'w"

definition machine_store_api :: "'w machine_store \<Rightarrow> ('w, 'x) webhook_env_scheme \<Rightarrow> bool" where
  "machine_store_api D V \<longleftrightarrow>
     (\<forall>r w. stored_machines D (put_machine D r w) =
        r # filter (\<lambda>m. Name (m_Meta m) \<noteq> Name (m_Meta r)) (stored_machines D w)) \<and>
     (\<forall>s w. stored_machines D (delete_machine D s w) = filter (\<lambda>m. Name (m_Meta m) \<noteq> s) (stored_machines D w)) \<and>
     (\<forall>sel w xs. fst (wh_List_Machines V sel w) = Inr xs \<longrightarrow>
        xs = filter (\<lambda>m. selects sel (Labels (m_Meta m))) (stored_machines D w))"

text \<open>
  With \<open>serial\<close> the API server admits a Machine only when no admitted one waits to be stored.
\<close>

inductive system_step ::
    "bool \<Rightarrow> 'w machine_store \<Rightarrow> 'w webhook_env \<Rightarrow> 'w mach_env \<Rightarrow> 'w pool_env \<Rightarrow> 'w injector_env \<Rightarrow>
     'w \<times> Machine list \<Rightarrow> 'w \<times> Machine list \<Rightarrow> bool"
  for serial D V E P I where
  admit: "fst (ValidateAllOperation V r w) = Ret (Inr ()) \<Longrightarrow> (serial \<longrightarrow> pending = []) \<Longrightarrow>
    system_step serial D V E P I (w, pending) (snd (ValidateAllOperation V r w), r # pending)"
| store: "r \<in> set pending \<Longrightarrow>
    system_step serial D V E P I (w, pending) (put_machine D r w, remove1 r pending)"
| delete: "system_step serial D V E P I (w, pending) (delete_machine D name w, pending)"
| machine: "system_step serial D V E P I (w, pending) (snd (machine_Reconcile E req w), pending)"
| pool: "system_step serial D V E P I (w, pending) (snd (pool_Reconcile P req w), pending)"
| inject: "system_step serial D V E P I (w, pending) (snd (injector_Handle I raw w), pending)"

inductive_cases system_stepE [elim]: "system_step serial D V E P I s s'"

text \<open>Groups are unique, and a Machine that waits to be stored keeps them so.\<close>

definition groups_ok :: "(string \<times> string option) list \<Rightarrow> bool" where
  "groups_ok ids \<longleftrightarrow> (\<forall>n n' g. (n, Some g) \<in> set ids \<longrightarrow> (n', Some g) \<in> set ids \<longrightarrow> n = n')"

definition fits :: "(string \<times> string option) list \<Rightarrow> Machine \<Rightarrow> bool" where
  "fits ids r \<longleftrightarrow> (\<forall>n g. (n, Some g) \<in> set ids \<longrightarrow> Labels (m_Meta r) MachineGroupKey = Some g \<longrightarrow>
     n = Name (m_Meta r))"

lemma groups_ok_iff: "groups_ok (identities machines w) \<longleftrightarrow> groups_unique (machines w)"
proof
  assume ok: "groups_ok (identities machines w)"
  show "groups_unique (machines w)"
  proof (rule groups_uniqueI)
    fix m m' g
    assume "m \<in> set (machines w)" "m' \<in> set (machines w)"
      and "Labels (m_Meta m) MachineGroupKey = Some g" "Labels (m_Meta m') MachineGroupKey = Some g"
    then have "(Name (m_Meta m), Some g) \<in> set (identities machines w)"
      "(Name (m_Meta m'), Some g) \<in> set (identities machines w)"
      by (auto simp: identities_def image_iff intro!: bexI)
    with ok show "Name (m_Meta m) = Name (m_Meta m')" unfolding groups_ok_def by blast
  qed
next
  assume unique: "groups_unique (machines w)"
  show "groups_ok (identities machines w)"
    unfolding groups_ok_def
  proof (intro allI impI)
    fix n n' g
    assume "(n, Some g) \<in> set (identities machines w)" "(n', Some g) \<in> set (identities machines w)"
    then obtain m m' where m: "m \<in> set (machines w)" "m' \<in> set (machines w)"
        "Labels (m_Meta m) MachineGroupKey = Some g" "Labels (m_Meta m') MachineGroupKey = Some g"
      and n: "n = Name (m_Meta m)" "n' = Name (m_Meta m')"
      by (auto simp: identities_def)
    show "n = n'" unfolding n by (rule groups_uniqueD [OF unique m])
  qed
qed

lemma identities_put:
  assumes "machine_store_api D V"
  shows "identities (stored_machines D) (put_machine D r w) =
      (Name (m_Meta r), Labels (m_Meta r) MachineGroupKey) #
        filter (\<lambda>i. fst i \<noteq> Name (m_Meta r)) (identities (stored_machines D) w)"
    and "identities (stored_machines D) (delete_machine D name w) =
      filter (\<lambda>i. fst i \<noteq> name) (identities (stored_machines D) w)"
  using assms by (simp_all add: machine_store_api_def identities_def filter_map comp_def)

lemma groups_ok_put:
  assumes "groups_ok ids" and "fits ids r"
  shows "groups_ok ((Name (m_Meta r), Labels (m_Meta r) MachineGroupKey) # filter P ids)"
  unfolding groups_ok_def
proof (intro allI impI)
  fix n n' g
  assume *: "(n, Some g) \<in> set ((Name (m_Meta r), Labels (m_Meta r) MachineGroupKey) # filter P ids)"
    "(n', Some g) \<in> set ((Name (m_Meta r), Labels (m_Meta r) MachineGroupKey) # filter P ids)"
  then have "n = Name (m_Meta r) \<and> Labels (m_Meta r) MachineGroupKey = Some g \<or> (n, Some g) \<in> set ids"
    "n' = Name (m_Meta r) \<and> Labels (m_Meta r) MachineGroupKey = Some g \<or> (n', Some g) \<in> set ids"
    by auto
  with assms show "n = n'" unfolding groups_ok_def fits_def by metis
qed

lemma groups_ok_filter: "groups_ok ids \<Longrightarrow> groups_ok (filter P ids)"
  unfolding groups_ok_def by auto

lemma fits_filter: "fits ids r \<Longrightarrow> fits (filter P ids) r"
  unfolding fits_def by auto

lemma admitted_fits:
  assumes "machine_store_api D V" and "fst (ValidateAllOperation V r w) = Ret (Inr ())"
  shows "fits (identities (stored_machines D) w) r"
proof -
  obtain g xs where g: "Labels (m_Meta r) MachineGroupKey = Some g"
    and xs: "fst (wh_List_Machines V [MachineGroupKey \<mapsto> g] w) = Inr xs"
      "\<forall>m \<in> set xs. Name (m_Meta m) = Name (m_Meta r)"
    by (rule validate_specD [OF assms(2)])
  have "xs = filter (\<lambda>m. selects [MachineGroupKey \<mapsto> g] (Labels (m_Meta m))) (stored_machines D w)"
    using assms(1) xs(1) unfolding machine_store_api_def by blast
  with xs(2) g show ?thesis by (auto simp: fits_def identities_def selects_single)
qed

definition admission_ok :: "('w \<Rightarrow> (string \<times> string option) list) \<Rightarrow> 'w \<times> Machine list \<Rightarrow> bool" where
  "admission_ok ids s \<longleftrightarrow> groups_ok (ids (fst s)) \<and> length (snd s) \<le> 1 \<and>
     list_all (fits (ids (fst s))) (snd s)"

definition system_keeps ::
    "('w, 'a) webhook_env_scheme \<Rightarrow> ('w, 'b) mach_env_scheme \<Rightarrow> ('w, 'c) pool_env_scheme \<Rightarrow>
     ('w, 'd) injector_env_scheme \<Rightarrow> ('w \<Rightarrow> 'v) \<Rightarrow> bool" where
  "system_keeps V E P I view \<longleftrightarrow>
     webhook_keeps V view \<and> mach_keeps E view \<and> pool_keeps P view \<and> injector_keeps I view"

lemma system_keepsD:
  assumes "system_keeps V E P I view"
  shows "webhook_keeps V view" "mach_keeps E view" "pool_keeps P view" "injector_keeps I view"
  using assms by (simp_all add: system_keeps_def)

lemma admission_step:
  assumes step: "system_step True D V E P I s s'" and api: "machine_store_api D V"
    and keeps: "system_keeps V E P I (identities (stored_machines D))"
    and ok: "admission_ok (identities (stored_machines D)) s"
  shows "admission_ok (identities (stored_machines D)) s'"
proof -
  note keep = system_keepsD [OF keeps]
  show ?thesis
    using step
  proof cases
    case (admit r w pending)
    have "identities (stored_machines D) (snd (ValidateAllOperation V r w)) = identities (stored_machines D) w"
      by (rule preservesD [OF keeps_webhook [OF keep(1)]])
    with admit ok admitted_fits [OF api admit(3)] show ?thesis by (simp add: admission_ok_def)
  next
    case (store r pending w)
    then have pending: "pending = [r]" using ok by (cases pending) (auto simp: admission_ok_def)
    have "groups_ok (identities (stored_machines D) w)" "fits (identities (stored_machines D) w) r"
      using ok store pending by (simp_all add: admission_ok_def)
    with store pending show ?thesis
      by (simp add: admission_ok_def identities_put [OF api] groups_ok_put)
  next
    case (delete w pending name)
    with ok show ?thesis
      by (auto simp: admission_ok_def identities_put [OF api] groups_ok_filter list_all_iff intro: fits_filter)
  next
    case (machine w pending req)
    with ok preservesD [OF keeps_machine_Reconcile [OF keep(2)]] show ?thesis by (simp add: admission_ok_def)
  next
    case (pool w pending req)
    with ok preservesD [OF keeps_pool_Reconcile [OF keep(3)]] show ?thesis by (simp add: admission_ok_def)
  next
    case (inject w pending raw)
    with ok preservesD [OF keeps_injector [OF keep(4)]] show ?thesis by (simp add: admission_ok_def)
  qed
qed

text \<open>
  C9: an invariant of the whole system. If the API server handles one admission at a time,
  then whatever the controllers and webhooks do in between, in whatever order, and whatever is
  deleted, no two stored Machines ever share a machine group.
\<close>
theorem groups_stay_unique:
  assumes "machine_store_api D V" and "system_keeps V E P I (identities (stored_machines D))"
    and "groups_unique (stored_machines D w0)"
    and "(system_step True D V E P I)\<^sup>*\<^sup>* (w0, []) (w, pending)"
  shows "groups_unique (stored_machines D w)"
proof -
  have "admission_ok (identities (stored_machines D)) (w, pending)"
    using assms(4)
  proof (induction rule: rtranclp_induct)
    case base
    show ?case using assms(3) by (simp add: admission_ok_def groups_ok_iff)
  next
    case (step s s')
    show ?case by (rule admission_step [OF step(2) assms(1,2) step(3)])
  qed
  then show ?thesis by (simp add: admission_ok_def groups_ok_iff)
qed

subsection \<open>The in-memory cluster\<close>

text \<open>A status update that writes the status only.\<close>

definition mem_status_machine :: "Machine \<Rightarrow> cluster \<Rightarrow> (goerr + Machine) \<times> cluster" where
  "mem_status_machine m w =
     (Inr m, w\<lparr>cl_machines := map (\<lambda>(k, n). (k, if k = ObjectKeyFromMeta (m_Meta m)
        then n\<lparr>m_Status := m_Status m\<rparr> else n)) (cl_machines w)\<rparr>)"

definition sys_mach_env :: "cluster mach_env" where
  "sys_mach_env = ex_menv\<lparr>StatusUpdate_Machine := mem_status_machine\<rparr>"

definition mem_machine_store :: "cluster machine_store" where
  "mem_machine_store = \<lparr>stored_machines = (\<lambda>w. map snd (cl_machines w)),
     put_machine = (\<lambda>r w. w\<lparr>cl_machines := (ObjectKeyFromMeta (m_Meta r), r) #
        filter (\<lambda>(k, m). Name (m_Meta m) \<noteq> Name (m_Meta r)) (cl_machines w)\<rparr>),
     delete_machine = (\<lambda>s w. w\<lparr>cl_machines := filter (\<lambda>(k, m). Name (m_Meta m) \<noteq> s) (cl_machines w)\<rparr>)\<rparr>"

abbreviation mem_identities :: "cluster \<Rightarrow> (string \<times> string option) list" where
  "mem_identities \<equiv> identities (stored_machines mem_machine_store)"

lemma mem_machine_store_api: "machine_store_api mem_machine_store (mem_webhook_env ns)"
  by (auto simp: machine_store_api_def mem_machine_store_def mem_list_machines_def filter_map comp_def
      case_prod_unfold split: if_splits)

lemma mem_identities_cong: "cl_machines w = cl_machines w' \<Longrightarrow> mem_identities w = mem_identities w'"
  by (simp add: identities_def mem_machine_store_def)

lemma mem_status_keeps: "preserves mem_identities (mem_status_machine m)"
  by (auto simp: preserves_def mem_status_machine_def identities_def mem_machine_store_def)

text \<open>The Machine controller's calls in that cluster, for any way to store a status.\<close>

lemma mem_mach_keeps_view:
  assumes "\<And>w c. view (w\<lparr>cl_clock := c\<rparr>) = view w" and "\<And>w es. view (w\<lparr>cl_events := es\<rparr>) = view w"
    and "\<And>w ps. view (w\<lparr>cl_pools := ps\<rparr>) = view w" and "\<And>w ss. view (w\<lparr>cl_sts := ss\<rparr>) = view w"
    and "\<And>w ss. view (w\<lparr>cl_svc := ss\<rparr>) = view w" and "\<And>m. preserves view (status m)"
  shows "mach_keeps (ex_menv\<lparr>StatusUpdate_Machine := status\<rparr>) view"
proof -
  have upd: "\<forall>x f. (\<forall>y. preserves view (f y)) \<longrightarrow> preserves view (mem_upsert key store put x f)"
    if "\<And>k x w. view (put k x w) = view w"
    for key and store :: "cluster \<Rightarrow> ObjectKey \<rightharpoonup> 'o" and put
    by (intro allI impI) (rule mem_upsert_preserves, rule that)
  let ?E = "ex_menv\<lparr>StatusUpdate_Machine := status\<rparr>"
  have sel: "metav1_Now ?E = mem_now" "Recorder_Eventf ?E = mem_event"
    "Get_Machine ?E = Get_Machine ex_menv" "StatusUpdate_Machine ?E = status"
    "Get_Namespace ?E = mem_get_namespace" "List_Pods ?E = mem_list_pods"
    "CreateOrUpdate_Pool ?E = CreateOrUpdate_Pool ex_menv"
    "CreateOrUpdate_Sts ?E = CreateOrUpdate_Sts ex_menv"
    "CreateOrUpdate_Svc ?E = CreateOrUpdate_Svc ex_menv"
    by simp_all
  have get: "preserves view (Get_Machine ex_menv k)" for k by (simp add: preserves_def)
  have event: "view (mem_event s w) = view w" for s w unfolding mem_event_def by (rule assms(2))
  show ?thesis
    unfolding mach_keeps_def sel mem_mach_env_sel(11-13)
    by (intro conjI allI get event assms(6) mem_preserves(1,3,4) [where view = view] assms(1)
        upd [THEN spec, THEN spec] assms(3-5))
qed

lemma sys_mach_keeps_view:
  assumes "\<And>w c. view (w\<lparr>cl_clock := c\<rparr>) = view w" and "\<And>w es. view (w\<lparr>cl_events := es\<rparr>) = view w"
    and "\<And>w ps. view (w\<lparr>cl_pools := ps\<rparr>) = view w" and "\<And>w ss. view (w\<lparr>cl_sts := ss\<rparr>) = view w"
    and "\<And>w ss. view (w\<lparr>cl_svc := ss\<rparr>) = view w" and "\<And>m. preserves view (mem_status_machine m)"
  shows "mach_keeps sys_mach_env view"
  unfolding sys_mach_env_def by (rule mem_mach_keeps_view [OF assms])

lemma sys_mach_keeps: "mach_keeps sys_mach_env mem_identities"
  by (rule sys_mach_keeps_view [OF _ _ _ _ _ mem_status_keeps]) (rule mem_identities_cong, simp)+

lemma mem_system_keeps:
  "system_keeps (mem_webhook_env ns) sys_mach_env ex_env (mem_injector_env p) mem_identities"
proof -
  have "preserves mem_identities (mem_list_machines sel)" for sel
    by (simp add: preserves_def mem_list_machines_def)
  moreover have "preserves mem_identities mem_now" "mem_identities (mem_event s w) = mem_identities w" for s w
    by (auto simp: preserves_def mem_now_def mem_event_def intro: mem_identities_cong)
  moreover have "preserves mem_identities (mem_update_pool q)" "preserves mem_identities (mem_status_pool q)"
    "preserves mem_identities (mem_get_node k)" "preserves mem_identities (mem_update_node n)" for q k n
    by (auto simp: preserves_def mem_update_pool_def mem_status_pool_def mem_get_node_def mem_update_node_def Let_def
        intro: mem_identities_cong split: option.split)
  moreover have "preserves mem_identities (Get_Pool ex_env k)" "preserves mem_identities (inj_Get_Pod (mem_injector_env p) k)"
    "preserves mem_identities (wh_List_Nodes (mem_webhook_env ns))" for k
    by (simp_all add: preserves_def)
  ultimately show ?thesis
    using sys_mach_keeps
    by (simp add: system_keeps_def webhook_keeps_def pool_keeps_def injector_keeps_def del: split_paired_All)
qed

definition race_world :: cluster where
  "race_world = empty_cluster\<lparr>cl_nodes := [''n1'' \<mapsto> node_of ''n1'' Map.empty []]\<rparr>"

abbreviation race_env :: "cluster webhook_env" where
  "race_env \<equiv> mem_webhook_env [node_of ''n1'' Map.empty []]"

lemma race_admits:
  "ValidateAllOperation race_env (ex_machine\<lparr>m_Meta := (m_Meta ex_machine)\<lparr>Name := name\<rparr>\<rparr>) race_world =
     (Ret (Inr ()), race_world)"
proof -
  let ?r = "ex_machine\<lparr>m_Meta := (m_Meta ex_machine)\<lparr>Name := name\<rparr>\<rparr>"
  have list: "wh_List_Machines race_env sel race_world = (Inr [], race_world)" for sel
    by (simp add: mem_list_machines_def race_world_def empty_cluster_def)
  have "fst (ValidateAllOperation race_env ?r race_world) = Ret (Inr ())"
  proof (rule validate_specI [where g = "''team''" and ms = "[]" and ?w1.0 = race_world
        and ns = "[node_of ''n1'' Map.empty []]" and ?w2.0 = race_world])
    show "wh_List_Nodes race_env race_world = (Inr [node_of ''n1'' Map.empty []], race_world)" by simp
  qed (simp_all only: list, simp_all add: ex_machine_def spec_valid_def ex_type_def gpu_valid_def)
  moreover have "snd (ValidateAllOperation race_env ?r race_world) = race_world"
  proof -
    have "webhook_keeps race_env (\<lambda>w :: cluster. w)"
      by (simp add: webhook_keeps_def preserves_def mem_list_machines_def)
    from preservesD [OF keeps_webhook [OF this]] show ?thesis .
  qed
  ultimately show ?thesis by (metis prod.collapse)
qed

theorem groups_stay_unique_witness:
  "groups_unique (stored_machines mem_machine_store (put_machine mem_machine_store ex_machine race_world))"
proof -
  let ?step = "system_step True mem_machine_store race_env sys_mach_env ex_env (mem_injector_env ex_pod)"
  have m: "ex_machine\<lparr>m_Meta := (m_Meta ex_machine)\<lparr>Name := ''m''\<rparr>\<rparr> = ex_machine"
    by (simp add: ex_machine_def)
  have "fst (ValidateAllOperation race_env ex_machine race_world) = Ret (Inr ())"
    using race_admits [of "''m''"] by (simp add: m)
  from system_step.admit [OF this, of True "[]"]
  have "?step (race_world, []) (race_world, [ex_machine])"
    using race_admits [of "''m''"] by (simp add: m)
  moreover have "?step (race_world, [ex_machine])
      (put_machine mem_machine_store ex_machine race_world, remove1 ex_machine [ex_machine])"
    by (rule system_step.store) simp
  ultimately have "?step\<^sup>*\<^sup>* (race_world, [])
      (put_machine mem_machine_store ex_machine race_world, remove1 ex_machine [ex_machine])"
    by (rule converse_rtranclp_into_rtranclp [OF _ r_into_rtranclp])
  moreover have "groups_unique (stored_machines mem_machine_store race_world)"
    by (simp add: groups_unique_def mem_machine_store_def race_world_def empty_cluster_def)
  ultimately show ?thesis
    using groups_stay_unique [OF mem_machine_store_api mem_system_keeps] by blast
qed

subsection \<open>Admissions that overlap\<close>

text \<open>Lists that are answered from the store, without a change to the world.\<close>

definition reads_answer :: "'w machine_store \<Rightarrow> ('w, 'x) webhook_env_scheme \<Rightarrow> ('w \<Rightarrow> Node list) \<Rightarrow> bool" where
  "reads_answer D V nodes \<longleftrightarrow>
     (\<forall>sel w. wh_List_Machines V sel w =
        (Inr (filter (\<lambda>m. selects sel (Labels (m_Meta m))) (stored_machines D w)), w)) \<and>
     (\<forall>w. wh_List_Nodes V w = (Inr (nodes w), w))"

text \<open>A Machine of group \<open>grp\<close> that fulfils all that the webhook asks for but a free group.\<close>

definition well_specified :: "('w, 'x) webhook_env_scheme \<Rightarrow> Node list \<Rightarrow> string \<Rightarrow> Machine \<Rightarrow> bool" where
  "well_specified V ns grp r \<longleftrightarrow> Labels (m_Meta r) MachineGroupKey = Some grp \<and>
     np_Name ` set (ms_NodePool (m_Spec r)) \<subseteq> node_Name ` set ns \<and> spec_valid (Quantity_Value V) (m_Spec r)"

lemma keeps_reads:
  assumes "reads_answer D V nodes"
  shows "snd (ValidateAllOperation V r w) = w"
proof -
  have "webhook_keeps V (\<lambda>w. w)" using assms by (simp add: webhook_keeps_def preserves_def reads_answer_def)
  from preservesD [OF keeps_webhook [OF this]] show ?thesis .
qed

lemma free_group_admitted:
  assumes reads: "reads_answer D V nodes" and "well_specified V (nodes w) grp r"
    and free: "\<forall>m \<in> set (stored_machines D w). Labels (m_Meta m) MachineGroupKey \<noteq> Some grp"
  shows "ValidateAllOperation V r w = (Ret (Inr ()), w)"
proof -
  have none: "filter (\<lambda>m. selects [MachineGroupKey \<mapsto> grp] (Labels (m_Meta m))) (stored_machines D w) = []"
    using free by (simp add: filter_empty_conv selects_single)
  have "fst (ValidateAllOperation V r w) = Ret (Inr ())"
    by (rule validate_specI [where g = grp and ms = "[]" and ?w1.0 = w and ns = "nodes w" and ?w2.0 = w])
      (use assms(2) reads none in \<open>simp_all add: well_specified_def reads_answer_def\<close>)
  with keeps_reads [OF reads, of r w] show ?thesis by (metis prod.collapse)
qed

lemma taken_group_denied:
  assumes reads: "reads_answer D V nodes" and "Labels (m_Meta r) MachineGroupKey = Some grp"
    and "m \<in> set (stored_machines D w)" and "Labels (m_Meta m) MachineGroupKey = Some grp"
    and "Name (m_Meta m) \<noteq> Name (m_Meta r)"
  shows "\<exists>e. ValidateAllOperation V r w = (Ret (Inl e), w)"
proof -
  let ?ms = "filter (\<lambda>m. selects [MachineGroupKey \<mapsto> grp] (Labels (m_Meta m))) (stored_machines D w)"
  have m: "m \<in> set ?ms" using assms(3,4) by (simp add: selects_single)
  then have ne: "?ms \<noteq> []" by (metis empty_iff list.set(1))
  have "validateLabel_loop r ?ms \<noteq> Inr ()" unfolding validateLabel_loop_ok using m assms(5) by blast
  then obtain e where "validateLabel_loop r ?ms = Inl e" by (cases "validateLabel_loop r ?ms") auto
  with ne assms(2) reads have "ValidateLabel V r w = (Ret (Inl e), w)"
    by (simp add: ValidateLabel_def act_simps reads_answer_def del: filter_empty_conv)
  then show ?thesis by (simp add: ValidateAllOperation_def act_simps)
qed

text \<open>
  C24: the check of the group is not atomic. Take two Machines with different names for one group
  that no stored Machine has, each with everything the webhook asks for. One after the other, the
  check works: once one of them is stored the webhook denies the other. But when the API server
  handles both admissions at the same time, the webhook admits both, both are stored, and the
  group is shared: every Pod event of the group is dropped from then on, since the Machine
  controller asks for exactly one Machine.
\<close>
theorem overlapping_admissions_collide:
  assumes "machine_store_api D V" and "reads_answer D V nodes"
    and "well_specified V (nodes w) g r1" and "well_specified V (nodes w) g r2"
    and "Name (m_Meta r1) \<noteq> Name (m_Meta r2)"
    and "\<forall>m \<in> set (stored_machines D w). Labels (m_Meta m) MachineGroupKey \<noteq> Some g"
  shows "(\<exists>e. ValidateAllOperation V r2 (put_machine D r1 w) = (Ret (Inl e), put_machine D r1 w)) \<and>
    (\<exists>w'. (system_step False D V E P I)\<^sup>*\<^sup>* (w, []) (w', []) \<and> \<not> groups_unique (stored_machines D w') \<and>
      (\<forall>pod. fst (List_Machines E [MachineGroupKey \<mapsto> g] (snd (Get_Namespace E (Namespace pod) w'))) =
          Inr (filter (\<lambda>m. selects [MachineGroupKey \<mapsto> g] (Labels (m_Meta m))) (stored_machines D w')) \<longrightarrow>
        Labels pod MachineGroupKey = Some g \<longrightarrow> fst (podReconcileRequest E pod w') = Ret []))"
proof -
  let ?step = "system_step False D V E P I"
  let ?w3 = "put_machine D r1 w"
  let ?w' = "put_machine D r2 ?w3"
  have ne: "r1 \<noteq> r2" "r2 \<noteq> r1" using assms(5) by auto
  have g: "Labels (m_Meta r1) MachineGroupKey = Some g" "Labels (m_Meta r2) MachineGroupKey = Some g"
    using assms(3,4) by (simp_all add: well_specified_def)
  have stored1: "stored_machines D ?w3 = r1 # filter (\<lambda>m. Name (m_Meta m) \<noteq> Name (m_Meta r1)) (stored_machines D w)"
    using assms(1) by (simp add: machine_store_api_def)
  have denied: "\<exists>e. ValidateAllOperation V r2 ?w3 = (Ret (Inl e), ?w3)"
    by (rule taken_group_denied [OF assms(2) g(2) _ g(1) assms(5)]) (simp add: stored1)
  have admitted: "ValidateAllOperation V r1 w = (Ret (Inr ()), w)" "ValidateAllOperation V r2 w = (Ret (Inr ()), w)"
    using free_group_admitted [OF assms(2) _ assms(6)] assms(3,4) by blast+
  have "?step (w, []) (w, [r1])"
    using system_step.admit [of V r1 w False "[]"] admitted(1) by simp
  moreover have "?step (w, [r1]) (w, [r2, r1])"
    using system_step.admit [of V r2 w False "[r1]"] admitted(2) by simp
  moreover have "?step (w, [r2, r1]) (?w3, [r2])"
    using system_step.store [of r1 "[r2, r1]" False D V E P I w] ne by simp
  moreover have "?step (?w3, [r2]) (?w', [])"
    using system_step.store [of r2 "[r2]" False D V E P I ?w3] by simp
  ultimately have run: "?step\<^sup>*\<^sup>* (w, []) (?w', [])"
    by (meson converse_rtranclp_into_rtranclp r_into_rtranclp)
  have stored: "stored_machines D ?w' = r2 # filter (\<lambda>m. Name (m_Meta m) \<noteq> Name (m_Meta r2))
      (r1 # filter (\<lambda>m. Name (m_Meta m) \<noteq> Name (m_Meta r1)) (stored_machines D w))"
    using assms(1) by (simp add: machine_store_api_def)
  then have both: "r1 \<in> set (stored_machines D ?w')" "r2 \<in> set (stored_machines D ?w')" using assms(5) by auto
  have "\<not> groups_unique (stored_machines D ?w')"
    using groups_uniqueD [OF _ both g] assms(5) by blast
  moreover have "fst (podReconcileRequest E pod ?w') = Ret []"
    if "fst (List_Machines E [MachineGroupKey \<mapsto> g] (snd (Get_Namespace E (Namespace pod) ?w'))) =
        Inr (filter (\<lambda>m. selects [MachineGroupKey \<mapsto> g] (Labels (m_Meta m))) (stored_machines D ?w'))"
      "Labels pod MachineGroupKey = Some g" for pod
  proof -
    have "length (filter (\<lambda>m. selects [MachineGroupKey \<mapsto> g] (Labels (m_Meta m))) (stored_machines D ?w')) \<noteq> 1"
      using g assms(5) unfolding stored by (simp add: selects_single)
    with that show ?thesis
      by (auto simp: podReconcileRequest_def act_simps split: sum.split list.split)
  qed
  ultimately show ?thesis using denied run by blast
qed

theorem overlapping_admissions_collide_witness:
  "\<exists>w'. (system_step False mem_machine_store race_env sys_mach_env ex_env (mem_injector_env ex_pod))\<^sup>*\<^sup>*
       (race_world, []) (w', []) \<and> \<not> groups_unique (stored_machines mem_machine_store w')"
proof -
  let ?r1 = "ex_machine\<lparr>m_Meta := (m_Meta ex_machine)\<lparr>Name := ''m1''\<rparr>\<rparr>"
  let ?r2 = "ex_machine\<lparr>m_Meta := (m_Meta ex_machine)\<lparr>Name := ''m2''\<rparr>\<rparr>"
  let ?ns = "[node_of ''n1'' Map.empty []]"
  have reads: "reads_answer mem_machine_store race_env (\<lambda>w. ?ns)"
    by (simp add: reads_answer_def mem_list_machines_def mem_machine_store_def)
  have spec: "well_specified race_env ?ns ''team'' ?r1" "well_specified race_env ?ns ''team'' ?r2"
    by (simp_all add: well_specified_def ex_machine_def spec_valid_def ex_type_def gpu_valid_def)
  have "Name (m_Meta ?r1) \<noteq> Name (m_Meta ?r2)" by simp
  moreover have "\<forall>m \<in> set (stored_machines mem_machine_store race_world). Labels (m_Meta m) MachineGroupKey \<noteq> Some ''team''"
    by (simp add: mem_machine_store_def race_world_def empty_cluster_def)
  ultimately show ?thesis
    using overlapping_admissions_collide [where E = sys_mach_env and P = ex_env and I = "mem_injector_env ex_pod",
        OF mem_machine_store_api reads spec] by blast
qed

end
