(* ===== verification/SystemFrame.thy ===== *)
theory SystemFrame
  imports Admission NodeLifecycle
begin

text \<open>
  What the whole program never touches. Every key the node pool controller writes or removes is
  in the program's own group; whatever sequence of handlers runs, with whatever pools, Machines
  and failures, the rest of every Node stays as it is.
\<close>

subsection \<open>Keys of the group\<close>

definition own_prefix :: string where
  "own_prefix = GroupVersion_Group @ ''/''"

definition own_key :: "string \<Rightarrow> bool" where
  "own_key k \<longleftrightarrow> take (length own_prefix) k = own_prefix"

lemma own_key_status [simp]: "own_key MachineStatusKey" "own_key MachineGroupKey"
  by (simp_all add: own_key_def own_prefix_def MachineStatusKey_def MachineGroupKey_def GroupVersion_Group_def)

lemma own_key_types: "k \<in> set (GetScheduleMachineTypeKeys ts) \<Longrightarrow> own_key k"
  by (induction ts) (auto simp: own_key_def own_prefix_def)

lemma own_key_schedule_loop:
  "scheduleMachineTypeKeys_loop m ps j = Some ks \<Longrightarrow> (\<And>i ks. m i = Some ks \<Longrightarrow> \<forall>k\<in>set ks. own_key k) \<Longrightarrow>
   \<forall>k\<in>set ks. own_key k"
proof (induction ps arbitrary: m)
  case (Cons p ps)
  show ?case
    by (rule Cons.IH [OF Cons.prems(1) [unfolded scheduleMachineTypeKeys_loop.simps]])
      (use Cons.prems(2) own_key_types in \<open>auto split: if_splits\<close>)
qed simp

lemma own_key_schedule:
  "scheduleMachineTypeKeys pool j = Some ks \<Longrightarrow> k \<in> set ks \<Longrightarrow> own_key k"
  using own_key_schedule_loop [of Map.empty "mnp_NodePool (p_Spec pool)" j ks]
  by (simp add: scheduleMachineTypeKeys_def)

subsection \<open>One Node\<close>

definition foreign_taints :: "Taint list \<Rightarrow> Taint list" where
  "foreign_taints ts = filter (\<lambda>t. \<not> own_key (taint_Key t)) ts"

definition foreign_same :: "Node \<Rightarrow> Node \<Rightarrow> bool" where
  "foreign_same n n' \<longleftrightarrow>
     meta_rest n' = meta_rest n \<and>
     (\<forall>k. \<not> own_key k \<longrightarrow> node_Labels n' k = node_Labels n k \<and> node_Annotations n' k = node_Annotations n k) \<and>
     foreign_taints (n_Taints n') = foreign_taints (n_Taints n)"

lemma foreign_same_refl [simp]: "foreign_same n n"
  by (simp add: foreign_same_def)

lemma foreign_same_trans [trans]: "foreign_same n n' \<Longrightarrow> foreign_same n' n'' \<Longrightarrow> foreign_same n n''"
  by (simp add: foreign_same_def)

lemma foreign_same_Name: "foreign_same n n' \<Longrightarrow> node_Name n' = node_Name n"
  unfolding foreign_same_def by (blast intro: meta_rest_Name)

lemma foreign_without:
  "without_keys ks ts' = without_keys ks ts \<Longrightarrow> \<forall>k\<in>set ks. own_key k \<Longrightarrow> foreign_taints ts' = foreign_taints ts"
proof -
  assume same: "without_keys ks ts' = without_keys ks ts" and own: "\<forall>k\<in>set ks. own_key k"
  have "foreign_taints ts = filter (\<lambda>t. \<not> own_key (taint_Key t)) (without_keys ks ts)" for ts
    using own by (auto simp: foreign_taints_def without_keys_def intro: filter_cong)
  then show ?thesis using same by simp
qed

lemma foreign_annotation: "foreign_same n (removeNodeAnnotation n)"
  by (auto simp: foreign_same_def removeNodeAnnotation_def node_set_Annotations_def meta_rest_def map_delete_apply)

lemma foreign_label: "foreign_same n (removeNodeLabel pool n)"
  using own_key_schedule [of pool "node_Name n"]
  by (auto simp: foreign_same_def removeNodeLabel_def Let_def removeLabelKeys_apply map_delete_apply split: option.split)

lemma foreign_taint:
  assumes "removeNodeTaint pool n = Ret n'"
  shows "foreign_same n n'"
proof -
  have "foreign_taints (n_Taints n') = foreign_taints (n_Taints n)"
  proof (cases "scheduleMachineTypeKeys pool (node_Name n)")
    case (Some ks)
    show ?thesis
      by (rule foreign_without [OF removeNodeTaint_others [OF Some assms]])
        (use own_key_schedule [OF Some] in auto)
  next
    case None
    with assms have "filter (\<lambda>t. \<not> is_status t) (n_Taints n') = filter (\<lambda>t. \<not> is_status t) (n_Taints n)"
      using removeStatusTaint_loop_others
      by (fastforce simp: removeNodeTaint_def rbind_eq_Ret removeStatusTaint_def split: if_splits)
    then show ?thesis
      by (intro foreign_without [where ks = "[MachineStatusKey]"]) (auto simp: without_keys_def)
  qed
  moreover have "n_Meta n' = n_Meta n"
    using assms by (auto simp: removeNodeTaint_def rbind_eq_Ret Let_def split: option.splits if_splits)
  ultimately show ?thesis by (simp add: foreign_same_def meta_rest_def)
qed

lemma foreign_set: "foreign_same n (setNode env pool p now n)"
proof -
  have own: "\<forall>k\<in>set (managed_keys p). own_key k" using own_key_types by auto
  with setNode_unmanaged [of p n env pool now] show ?thesis
    unfolding unmanaged_same_def foreign_same_def by (metis foreign_without own_key_status(2))
qed

lemma foreign_cleanup:
  assumes "cleanupEdit pool n = Ret n'"
  shows "foreign_same n n'"
  using foreign_same_trans [OF foreign_same_trans [OF foreign_annotation foreign_label] foreign_taint]
    assms by (auto simp: cleanupEdit_def)

lemma foreign_old_env:
  assumes "cleanupOldEnv pool p n = Ret n'"
  shows "foreign_same n n'"
  using assms foreign_label foreign_same_trans [OF foreign_label foreign_taint]
  by (auto simp: cleanupOldEnv_def Let_def split: if_splits)

subsection \<open>The handlers\<close>

definition nodes_foreign_same :: "(string \<rightharpoonup> Node) \<Rightarrow> (string \<rightharpoonup> Node) \<Rightarrow> bool" where
  "nodes_foreign_same ns ns' \<longleftrightarrow> (\<forall>k. rel_option foreign_same (ns k) (ns' k))"

lemma nodes_foreign_refl [simp]: "nodes_foreign_same ns ns"
  by (simp add: nodes_foreign_same_def option.rel_refl)

lemma nodes_foreign_trans [trans]:
  "nodes_foreign_same ns ns' \<Longrightarrow> nodes_foreign_same ns' ns'' \<Longrightarrow> nodes_foreign_same ns ns''"
proof (unfold nodes_foreign_same_def, rule allI)
  fix k assume "\<forall>k. rel_option foreign_same (ns k) (ns' k)" and "\<forall>k. rel_option foreign_same (ns' k) (ns'' k)"
  then have "rel_option foreign_same (ns k) (ns' k)" "rel_option foreign_same (ns' k) (ns'' k)" by blast+
  then show "rel_option foreign_same (ns k) (ns'' k)"
    by (cases "ns k"; cases "ns' k"; cases "ns'' k") (auto intro: foreign_same_trans)
qed

lemma nodes_foreign_update:
  "ns k = Some n \<Longrightarrow> foreign_same n n' \<Longrightarrow> nodes_foreign_same ns (ns(k \<mapsto> n'))"
  by (simp add: nodes_foreign_same_def option.rel_refl)

lemma reconcileNode_foreign:
  assumes "node_api P nodes"
  shows "nodes_foreign_same (nodes w) (nodes (snd (reconcileNode P pool w)))"
  unfolding reconcileNode_def
proof (rule reconcile_nodes.loop_invariant [where I = "\<lambda>w'. nodes_foreign_same (nodes w) (nodes w')"])
  fix p w' assume I: "nodes_foreign_same (nodes w) (nodes w')"
  have "nodes_foreign_same (nodes w') (nodes (snd (reconcileNode_step P pool p w')))"
    using step_frame [OF assms, of pool p w']
  proof (elim disjE exE conjE)
    fix n n1 now
    assume "nodes w' (np_Name p) = Some n" and "cleanupOldEnv pool p n = Ret n1"
      and "nodes (snd (reconcileNode_step P pool p w')) =
        (nodes w')(np_Name p \<mapsto> setNode (os_environ P) pool p now n1)"
    then show ?thesis
      using nodes_foreign_update foreign_same_trans [OF foreign_old_env foreign_set] by simp
  qed simp
  with I show "nodes_foreign_same (nodes w) (nodes (snd (reconcileNode_step P pool p w')))"
    by (rule nodes_foreign_trans)
qed simp

text \<open>The Update of a cleanup stores an edited Node that was read; a missing Node is never stored.\<close>

lemma cleanup_update_foreign:
  assumes api: "node_api P nodes" and n: "fst (Get_Node P ([], k) w) = Inr n" and edit: "cleanupEdit pool n = Ret n'"
  shows "nodes_foreign_same (nodes w) (nodes (snd (Update_Node P n' (snd (Get_Node P ([], k) w)))))"
proof -
  let ?w = "snd (Get_Node P ([], k) w)"
  have stored: "nodes ?w k = Some n" and name: "node_Name n' = k"
    using node_apiD(1,2,3) [OF api] n foreign_same_Name [OF foreign_cleanup [OF edit]] by fastforce+
  show ?thesis
  proof (cases "fst (Update_Node P n' ?w)")
    case (Inl e)
    then show ?thesis using node_apiD(5) [OF api] node_apiD(3) [OF api] by simp
  next
    case (Inr m)
    then have "nodes (snd (Update_Node P n' ?w)) = (nodes ?w)(k \<mapsto> n')"
      using node_apiD(4) [OF api] name by simp
    then show ?thesis
      using nodes_foreign_update [where ns = "nodes ?w" and k = k, OF stored foreign_cleanup [OF edit]]
        node_apiD(3) [OF api] by simp
  qed
qed

lemma cleanupNode_loop_foreign:
  assumes api: "node_api P nodes" and cmp: "cmp_laws P"
  shows "nodes_foreign_same (nodes w) (nodes (snd (cleanupNode_loop P pool ps w)))"
proof (induction ps arbitrary: w)
  case Nil
  then show ?case by (simp add: act_simps)
next
  case (Cons p ps)
  let ?g = "Get_Node P ([], np_Name p) w"
  have get: "nodes (snd ?g) = nodes w" by (rule node_apiD(3) [OF api])
  show ?case
  proof (cases "fst ?g")
    case n: (Inr n)
    show ?thesis
    proof (cases "cleanupEdit pool n")
      case Panic
      then show ?thesis using n get by (simp add: act_simps ignoreNotFound_def)
    next
      case (Ret n')
      let ?u = "Update_Node P n' (snd ?g)"
      note upd = cleanup_update_foreign [OF api n Ret]
      have ev: "nodes (Recorder_Eventf P s v) = nodes v" for s v by (rule node_apiD(7) [OF api])
      from Cons.IH [of "Recorder_Eventf P (''cleanup annotation, label and taint from '' @ node_Name n') (snd ?u)"]
      have rest: "nodes_foreign_same (nodes w) (nodes (snd (cleanupNode_loop P pool ps
          (Recorder_Eventf P (''cleanup annotation, label and taint from '' @ node_Name n') (snd ?u)))))"
        unfolding ev using upd nodes_foreign_trans by blast
      show ?thesis
        using n Ret get upd rest by (auto simp: act_simps ignoreNotFound_def Let_def split: sum.split)
    qed
  next
    case (Inl e)
    obtain n' where "cleanupEdit pool zero_node = Ret n'" "node_Annotations n' = Map.empty"
      "node_Labels n' = Map.empty" "n_Taints n' = []" by (rule cleanup_zero)
    with Inl get cmp show ?thesis
      by (cases e) (simp_all add: act_simps ignoreNotFound_def Let_def cmp_lawsD zero_node_def zero_meta_def)
  qed
qed

subsection \<open>Actions along a preorder\<close>

text \<open>
  What \<open>preserves\<close> is to equality: an action moves what \<open>view\<close> shows of the world along a
  reflexive and transitive relation, and so do the actions made of such actions.
\<close>

locale evolution =
  fixes rel :: "'v \<Rightarrow> 'v \<Rightarrow> bool"
  assumes rel_refl: "rel v v"
    and rel_trans: "rel u v \<Longrightarrow> rel v v' \<Longrightarrow> rel u v'"
begin

definition evolves :: "('w \<Rightarrow> 'v) \<Rightarrow> ('w \<Rightarrow> 'a \<times> 'w) \<Rightarrow> bool" where
  "evolves view f \<longleftrightarrow> (\<forall>w. rel (view w) (view (snd (f w))))"

lemma evolves_preserves: "preserves view f \<Longrightarrow> evolves view f"
  by (simp add: evolves_def preserves_def rel_refl)

lemma evolves_abind:
  assumes "evolves view m" and "\<And>x. evolves view (f x)"
  shows "evolves view (abind m f)"
  unfolding evolves_def
proof
  fix w
  have 1: "rel (view w) (view (snd (m w)))" and 2: "rel (view (snd (m w))) (view (snd (f x (snd (m w)))))" for x
    using assms by (simp_all add: evolves_def)
  have "rel (view w) (view (snd (f x (snd (m w)))))" for x by (rule rel_trans [OF 1 2])
  with 1 show "rel (view w) (view (snd (abind m f w)))" by (simp add: act_simps split: gores.split)
qed

lemma evolves_sum: "(\<And>e. evolves view (f e)) \<Longrightarrow> (\<And>x. evolves view (g x)) \<Longrightarrow>
    evolves view (case r of Inl e \<Rightarrow> f e | Inr x \<Rightarrow> g x)"
  by (cases r) simp_all

lemma evolves_if: "evolves view f \<Longrightarrow> evolves view g \<Longrightarrow> evolves view (if b then f else g)"
  by simp

lemma evolves_step: "evolves view f \<Longrightarrow> rel (view w) (view (snd (f w)))"
  by (simp add: evolves_def)

end

interpretation foreign: evolution nodes_foreign_same
  by unfold_locales (simp, rule nodes_foreign_trans)

subsection \<open>The whole program\<close>

text \<open>Nodes are written by the Node calls of the pool controller only.\<close>

definition nodes_by_pools ::
    "'w machine_store \<Rightarrow> 'w webhook_env \<Rightarrow> 'w mach_env \<Rightarrow> 'w pool_env \<Rightarrow> 'w injector_env \<Rightarrow>
     ('w \<Rightarrow> string \<rightharpoonup> Node) \<Rightarrow> bool" where
  "nodes_by_pools D V E P I nodes \<longleftrightarrow>
     webhook_keeps V nodes \<and> mach_keeps E nodes \<and> injector_keeps I nodes \<and>
     (\<forall>r w. nodes (put_machine D r w) = nodes w) \<and> (\<forall>s w. nodes (delete_machine D s w) = nodes w) \<and>
     (\<forall>k. preserves nodes (Get_Pool P k)) \<and> (\<forall>p. preserves nodes (Update_Pool P p)) \<and>
     (\<forall>p. preserves nodes (StatusUpdate_Pool P p))"

lemma nodes_by_poolsD:
  assumes "nodes_by_pools D V E P I nodes"
  shows "webhook_keeps V nodes" "mach_keeps E nodes" "injector_keeps I nodes"
    "nodes (put_machine D r w) = nodes w" "nodes (delete_machine D s w) = nodes w"
    "preserves nodes (Get_Pool P k)" "preserves nodes (Update_Pool P p)" "preserves nodes (StatusUpdate_Pool P p)"
  using assms unfolding nodes_by_pools_def by blast+

lemma pool_Reconcile_foreign:
  assumes api: "node_api P nodes" and cmp: "cmp_laws P"
    and get: "\<And>k. preserves nodes (Get_Pool P k)" and upd: "\<And>p. preserves nodes (Update_Pool P p)"
    and status: "\<And>p. preserves nodes (StatusUpdate_Pool P p)"
  shows "foreign.evolves nodes (pool_Reconcile P req)"
proof -
  have now: "preserves nodes (metav1_Now P)" "preserves nodes (Get_Node P k)" "nodes (Recorder_Eventf P s w) = nodes w" for k s w
    using node_apiD [OF api] by (simp_all add: preserves_def)
  have conds: "preserves nodes (nodeConditions_loop P cs ps)" for cs ps
    by (induction ps arbitrary: cs) (simp_all add: preserves_intros now)
  have 1: "preserves nodes (pool_updateStatus P pool)" for pool
    unfolding pool_updateStatus_def Let_def by (intro preserves_intros conds now status)
  have 2: "preserves nodes (updatePool_event P pool msg)" for pool msg
    unfolding updatePool_event_def by (intro preserves_intros upd now)
  have 3: "preserves nodes (abind (acall (metav1_Now P)) (\<lambda>now. abind (acall (StatusUpdate_Pool P (f now))) (\<lambda>_. aret r)))"
    for f :: "time \<Rightarrow> MachineNodePool" and r :: reconcile_out
    by (intro preserves_intros now status)
  have 4: "foreign.evolves nodes (reconcileNode P pool)" for pool
    using reconcileNode_foreign [OF api] by (simp add: foreign.evolves_def)
  have 5: "foreign.evolves nodes (cleanupNode P pool)" for pool
    using cleanupNode_loop_foreign [OF api cmp] by (simp add: foreign.evolves_def cleanupNode_def)
  show ?thesis
    unfolding pool_Reconcile_def pool_reconcile_def Let_def
    by (intro foreign.evolves_abind foreign.evolves_sum foreign.evolves_if 4 5
        foreign.evolves_preserves [OF 1] foreign.evolves_preserves [OF 2] foreign.evolves_preserves [OF 3]
        foreign.evolves_preserves [OF preserves_acall [OF get]] foreign.evolves_preserves [OF preserves_aret])
qed

text \<open>
  C13: what is not the program's survives the whole program. Whatever handlers run, in whatever
  order, for whatever Machines and pools (well formed or not), and however their calls fail or
  panic: no Node appears or disappears by it, and every Node keeps its other meta data, all labels,
  annotations and taints whose keys are not in the group imperator.tenzen-y.io, and their order.
\<close>
theorem foreign_parts_survive:
  assumes "node_api P nodes" and "cmp_laws P" and "nodes_by_pools D V E P I nodes"
    and "(system_step serial D V E P I)\<^sup>*\<^sup>* (w, pending) (w', pending')"
  shows "rel_option foreign_same (nodes w k) (nodes w' k)"
proof -
  note frame = nodes_by_poolsD [OF assms(3)]
  have step: "nodes_foreign_same (nodes (fst s)) (nodes (fst s'))" if "system_step serial D V E P I s s'" for s s'
    using that
  proof cases
    case (pool v pending req)
    then show ?thesis
      using foreign.evolves_step [OF pool_Reconcile_foreign [OF assms(1,2) frame(6-8)]] by simp
  qed (simp_all add: frame preservesD [OF keeps_webhook [OF frame(1)]]
      preservesD [OF keeps_machine_Reconcile [OF frame(2)]] preservesD [OF keeps_injector [OF frame(3)]])
  from assms(4) have "nodes_foreign_same (nodes (fst (w, pending))) (nodes (fst (w', pending')))"
    by (induction rule: rtranclp_induct) (simp, rule nodes_foreign_trans [OF _ step])
  then show ?thesis by (simp add: nodes_foreign_same_def)
qed

definition ex_run_cluster :: cluster where
  "ex_run_cluster = ex_cluster\<lparr>cl_pools :=
     [(([], ''p''), pool_setFinalizers [MachineNodePoolFinalizer] ex_pool)]\<rparr>"

lemma mem_nodes_by_pools:
  "nodes_by_pools mem_machine_store (mem_webhook_env ns) sys_mach_env ex_env (mem_injector_env q) mem_nodes"
proof -
  have cong: "cl_nodes w = cl_nodes w' \<Longrightarrow> mem_nodes w = mem_nodes w'" for w w'
    by (simp add: fun_eq_iff mem_nodes_def)
  have "preserves mem_nodes (mem_list_machines sel)" for sel by (simp add: mem_preserves)
  moreover have "preserves mem_nodes (mem_update_pool p)" "preserves mem_nodes (mem_status_pool p)"
    "preserves mem_nodes (mem_status_machine m)" for p m
    by (auto simp: preserves_def mem_update_pool_def mem_status_pool_def mem_status_machine_def Let_def
        intro: cong split: option.split)
  moreover from this(3) have "mach_keeps sys_mach_env mem_nodes"
    by (intro sys_mach_keeps_view) (auto intro: cong)
  moreover have "mem_nodes (put_machine mem_machine_store r w) = mem_nodes w"
    "mem_nodes (delete_machine mem_machine_store s w) = mem_nodes w" for r s w
    by (auto simp: mem_machine_store_def intro: cong)
  moreover have "preserves mem_nodes (Get_Pool ex_env k)" "preserves mem_nodes (inj_Get_Pod (mem_injector_env q) k)"
    "preserves mem_nodes (wh_List_Nodes (mem_webhook_env ns))" for k
    by (simp_all add: preserves_def)
  ultimately show ?thesis
    by (simp add: nodes_by_pools_def webhook_keeps_def injector_keeps_def del: split_paired_All)
qed

theorem foreign_parts_survive_witness:
  "\<exists>n. mem_nodes (snd (pool_Reconcile ex_env ([], ''p'') ex_run_cluster)) ''n1'' = Some n \<and>
     ex_taint \<in> set (n_Taints n)"
proof -
  let ?w = "snd (pool_Reconcile ex_env ([], ''p'') ex_run_cluster)"
  let ?n = "node_of ''n1'' Map.empty [new_taint 0 MachineStatusKey NodeModeReady, ex_taint]"
  have "(system_step True mem_machine_store race_env sys_mach_env ex_env (mem_injector_env ex_pod))\<^sup>*\<^sup>*
      (ex_run_cluster, []) (?w, [])"
    by (rule r_into_rtranclp) (rule system_step.pool)
  from foreign_parts_survive [OF mem_node_api [THEN node_api_totalD(1)] mem_cmp_laws mem_nodes_by_pools this, of "''n1''"]
  have "rel_option foreign_same (mem_nodes ex_run_cluster ''n1'') (mem_nodes ?w ''n1'')" .
  moreover have "mem_nodes ex_run_cluster ''n1'' = Some ?n"
    by (simp add: mem_nodes_def ex_run_cluster_def ex_cluster_def)
  ultimately obtain n where n: "mem_nodes ?w ''n1'' = Some n" "foreign_same ?n n"
    by (auto simp: rel_option_iff split: option.splits)
  have "\<not> own_key (taint_Key ex_taint)"
    by (simp add: own_key_def own_prefix_def GroupVersion_Group_def ex_taint_def)
  then have "ex_taint \<in> set (foreign_taints (n_Taints n))"
    using n(2) by (simp add: foreign_same_def) (simp add: foreign_taints_def)
  then have "ex_taint \<in> set (n_Taints n)" by (simp add: foreign_taints_def)
  with n(1) show ?thesis by blast
qed

end
