(* ===== verification/MachineRuns.thy ===== *)
theory MachineRuns
  imports MachineStatus
begin

text \<open>
  One successful run of the Machine controller. The API server's Machines, MachineNodePools,
  StatefulSets, Services, Pods and Namespaces are seen through the functions of a record. Lemmas:
  what each stage, and then the run, leaves stored.
\<close>

subsection \<open>The API server\<close>

record 'w machine_views =
  mv_machines :: "'w \<Rightarrow> ObjectKey \<rightharpoonup> Machine"
  mv_pools :: "'w \<Rightarrow> ObjectKey \<rightharpoonup> MachineNodePool"
  mv_stss :: "'w \<Rightarrow> ObjectKey \<rightharpoonup> StatefulSet"
  mv_svcs :: "'w \<Rightarrow> ObjectKey \<rightharpoonup> Service"
  mv_pods :: "'w \<Rightarrow> Pod list"
  mv_nss :: "'w \<Rightarrow> string \<rightharpoonup> ObjectMeta"

definition snapshot where
  "snapshot V = (\<lambda>w. (mv_machines V w, mv_pools V w, mv_stss V w, mv_svcs V w, mv_pods V w, mv_nss V w))"

definition but_machines where
  "but_machines V = (\<lambda>w. (mv_pools V w, mv_stss V w, mv_svcs V w, mv_pods V w, mv_nss V w))"

definition but_pools where
  "but_pools V = (\<lambda>w. (mv_machines V w, mv_stss V w, mv_svcs V w, mv_pods V w, mv_nss V w))"

definition but_stss where
  "but_stss V = (\<lambda>w. (mv_machines V w, mv_pools V w, mv_svcs V w, mv_pods V w, mv_nss V w))"

definition but_svcs where
  "but_svcs V = (\<lambda>w. (mv_machines V w, mv_pools V w, mv_stss V w, mv_pods V w, mv_nss V w))"

text \<open>
  Each call changes the objects it is about and no others: reads, the clock and events none, a
  status update Machines, a \<open>CreateOrUpdate\<close> whose mutate function changes nothing else the
  objects of its kind.
\<close>

definition calls_separate :: "('w, 'x) mach_env_scheme \<Rightarrow> 'w machine_views \<Rightarrow> bool" where
  "calls_separate E V \<longleftrightarrow>
     preserves (snapshot V) (metav1_Now E) \<and> (\<forall>s w. snapshot V (Recorder_Eventf E s w) = snapshot V w) \<and>
     (\<forall>k. preserves (snapshot V) (Get_Machine E k)) \<and> (\<forall>n. preserves (snapshot V) (Get_Namespace E n)) \<and>
     (\<forall>ns sel. preserves (snapshot V) (List_Pods E ns sel)) \<and>
     (\<forall>m. preserves (but_machines V) (StatusUpdate_Machine E m)) \<and>
     (\<forall>x f. (\<forall>y. preserves (snapshot V) (f y)) \<longrightarrow> preserves (but_pools V) (CreateOrUpdate_Pool E x f)) \<and>
     (\<forall>x f. (\<forall>y. preserves (snapshot V) (f y)) \<longrightarrow> preserves (but_stss V) (CreateOrUpdate_Sts E x f)) \<and>
     (\<forall>x f. (\<forall>y. preserves (snapshot V) (f y)) \<longrightarrow> preserves (but_svcs V) (CreateOrUpdate_Svc E x f))"

text \<open>
  The stores of the four kinds; a status update answers with the Machine it stored; reading a
  stored Machine succeeds; which owner \<open>SetControllerReference\<close> writes is told by the Machine's
  meta data.
\<close>

definition machine_api :: "('w, 'x) mach_env_scheme \<Rightarrow> 'w machine_views \<Rightarrow> bool" where
  "machine_api E V \<longleftrightarrow>
     pool_stage_laws E (mv_pools V) \<and> sts_stage_laws E (mv_stss V) (mv_pods V) \<and>
     svc_stage_laws E (mv_svcs V) \<and> status_laws E (mv_pods V) (mv_nss V) \<and>
     machine_store_laws E (mv_machines V) \<and> calls_separate E V \<and>
     (\<forall>m w m' w'. StatusUpdate_Machine E m w = (Inr m', w') \<longrightarrow> m' = m) \<and>
     (\<forall>m m'. m_Meta m = m_Meta m' \<longrightarrow> SetControllerReference E m = SetControllerReference E m') \<and>
     (\<forall>k w m. mv_machines V w k = Some m \<longrightarrow> fst (Get_Machine E k w) = Inr m)"

text \<open>
  An API server that does not fail: Pods can be listed, stored Namespaces read, and a
  \<open>CreateOrUpdate\<close> succeeds when its mutate function does.
\<close>

definition upserts_answer :: "('o \<Rightarrow> ObjectKey) \<Rightarrow> ('o, 'w) create_or_update \<Rightarrow> ('w \<Rightarrow> ObjectKey \<rightharpoonup> 'o) \<Rightarrow> bool" where
  "upserts_answer key cou store \<longleftrightarrow>
     (\<forall>obj f w y. fst (f (case store w (key obj) of None \<Rightarrow> obj | Some stored \<Rightarrow> stored) w) = Inr y \<longrightarrow>
        (\<exists>res. fst (cou obj f w) = Inr res))"

definition machine_api_live :: "('w, 'x) mach_env_scheme \<Rightarrow> 'w machine_views \<Rightarrow> bool" where
  "machine_api_live E V \<longleftrightarrow>
     upserts_answer pool_key (CreateOrUpdate_Pool E) (mv_pools V) \<and>
     upserts_answer sts_key (CreateOrUpdate_Sts E) (mv_stss V) \<and>
     upserts_answer svc_key (CreateOrUpdate_Svc E) (mv_svcs V) \<and>
     (\<forall>ns sel w. \<exists>ps. fst (List_Pods E ns sel w) = Inr ps) \<and>
     (\<forall>name w m. mv_nss V w name = Some m \<longrightarrow> fst (Get_Namespace E name w) = Inr m)"

lemma machine_apiD:
  assumes "machine_api E V"
  shows "pool_stage_laws E (mv_pools V)" "sts_stage_laws E (mv_stss V) (mv_pods V)"
    "svc_stage_laws E (mv_svcs V)" "status_laws E (mv_pods V) (mv_nss V)"
    "machine_store_laws E (mv_machines V)" "calls_separate E V"
    "StatusUpdate_Machine E m w = (Inr m', w') \<Longrightarrow> m' = m"
    "m_Meta m = m_Meta n \<Longrightarrow> SetControllerReference E m = SetControllerReference E n"
    "mv_machines V w k = Some m \<Longrightarrow> fst (Get_Machine E k w) = Inr m"
    "owner_laws (SetControllerReference E m)"
  using assms unfolding machine_api_def pool_stage_laws_def by blast+

text \<open>What follows for the parts of the snapshot.\<close>

lemmas views_defs = snapshot_def but_machines_def but_pools_def but_stss_def but_svcs_def

lemma separate_reads:
  assumes "calls_separate E V"
  shows "preserves (snapshot V) (metav1_Now E)" "snapshot V (Recorder_Eventf E s w) = snapshot V w"
    "preserves (snapshot V) (Get_Machine E k)" "preserves (snapshot V) (Get_Namespace E n)"
    "preserves (snapshot V) (List_Pods E ns sel)" "preserves (but_machines V) (StatusUpdate_Machine E m)"
  using assms unfolding calls_separate_def by blast+

lemma separate_upserts:
  assumes "calls_separate E V"
  shows "preserves (but_pools V) (CreateOrUpdate_Pool E x (\<lambda>p w. (mutate_pool E m g p, w)))"
    "preserves (but_stss V) (CreateOrUpdate_Sts E y (mutate_sts E m g mt u))"
    "preserves (but_svcs V) (CreateOrUpdate_Svc E z (\<lambda>s w. (mutate_svc E m g t s, w)))"
  using assms mutate_sts_frame [OF separate_reads(5) [OF assms], of m g mt u]
  unfolding calls_separate_def by (simp_all add: preserves_pure del: split_paired_All)

subsection \<open>One object\<close>

text \<open>
  After a successful \<open>CreateOrUpdate\<close> the stored object is as the edit wants it and has its owner,
  and on such an object the same call with its status update does nothing.
\<close>

context object_edit begin

lemma own_edited_kept:
  assumes "owner_laws set_owner" and "own_edited edit meta set_meta set_owner x = Inr y"
  shows "edit y = y" and "set_owner (meta y) = Inr (meta y)"
  using own_edited_fixed [OF assms] own_edited_cases [OF assms] by blast+

lemma upsert_keeps:
  assumes api: "create_or_update_api key cou store" and owner: "owner_laws (SetControllerReference E m)"
    and status: "machine_status_laws E" "status_frame E store"
    and f: "\<And>x y w1. f x w = (Inr y, w1) \<Longrightarrow>
      own_edited edit meta set_meta (SetControllerReference E m) x = Inr y \<and> store w1 = store w"
    and run: "atry (abind (acall (cou obj f)) (\<lambda>r. aret (with_machine wrap m r)))
      (\<lambda>res. updateReconcileConditions E res m) w = (Ret (Inr m'), w')"
  shows "\<exists>y. store w' = (store w)(key obj \<mapsto> y) \<and> edit y = y \<and> SetControllerReference E m (meta y) = Inr (meta y)"
proof -
  obtain y w1 where "f (case store w (key obj) of None \<Rightarrow> obj | Some stored \<Rightarrow> stored) w = (Inr y, w1)"
    and w': "store w' = (store w1)(key obj \<mapsto> y)"
    by (rule upsert_conditions [OF api status(1) _ _ run])
      (use status(2) in \<open>simp_all add: status_frame_def\<close>)
  with f [OF this(1)] own_edited_kept [OF owner, of _ y] show ?thesis by auto
qed

end

lemma upsert_idle:
  assumes api: "create_or_update_api key cou store" and live: "upserts_answer key cou store"
    and stored: "store w (key obj) = Some y" and f: "fst (f y w) = Inr y" "store (snd (f y w)) = store w"
  shows "\<exists>w'. atry (abind (acall (cou obj f)) (\<lambda>r. aret (with_machine wrap m r)))
      (\<lambda>res. updateReconcileConditions E res m) w = (Ret (Inr m), w') \<and>
    w' = snd (cou obj f w) \<and> store w' = store w"
proof -
  obtain res where res: "fst (cou obj f w) = Inr res"
    using live f stored by (force simp: upserts_answer_def)
  then have call: "cou obj f w = (Inr res, snd (cou obj f w))" by (simp add: prod_eq_iff)
  from create_or_updateE [OF api call] stored f
  have "res = OperationResultNone" and "store (snd (cou obj f w)) = store w"
    by (auto simp: fun_upd_idem prod_eq_iff)
  with res show ?thesis
    by (simp add: act_simps with_machine_def updateReconcileConditions_def)
qed

subsection \<open>The Machine through a run\<close>

definition same_machine :: "Machine \<Rightarrow> Machine \<Rightarrow> bool" where
  "same_machine m m' \<longleftrightarrow> m_Meta m' = m_Meta m \<and> m_Spec m' = m_Spec m \<and> avail m' = avail m"

text \<open>The Machine in memory stays the stored one; only its conditions change.\<close>

definition tracked :: "'w machine_views \<Rightarrow> Machine \<Rightarrow> 'w \<Rightarrow> Machine \<Rightarrow> 'w \<Rightarrow> bool" where
  "tracked V m w m' w' \<longleftrightarrow> same_machine m m' \<and>
     (mv_machines V w (ObjectKeyFromMeta (m_Meta m)) = Some m \<longrightarrow>
      mv_machines V w' (ObjectKeyFromMeta (m_Meta m)) = Some m')"

lemma tracked_refl [simp]: "tracked V m w m w"
  by (simp add: tracked_def same_machine_def)

lemma tracked_trans: "tracked V m w m' w' \<Longrightarrow> tracked V m' w' m'' w'' \<Longrightarrow> tracked V m w m'' w''"
  by (simp add: tracked_def same_machine_def)

lemma conditions_tracked:
  assumes api: "machine_api E V" and run: "updateReconcileConditions E r m w = (Ret (Inr m'), w')"
  shows "tracked V m w m' w'"
proof (cases "r = OperationResultUpdated \<or> r = OperationResultCreated")
  case False
  with run show ?thesis by (auto simp: updateReconcileConditions_def act_simps)
next
  case True
  let ?t = "metav1_Now E w"
  let ?m = "machine_setCondition E ConditionTrue StatusSuccess ''update status conditions'' (fst ?t) m"
  from True run have u: "StatusUpdate_Machine E ?m (snd ?t) = (Inr m', w')"
    by (cases "StatusUpdate_Machine E ?m (snd ?t)")
      (auto simp: updateReconcileConditions_def updateReconcileSuccessStatus_def act_simps Let_def
        with_machine_def split: sum.splits)
  have "m' = ?m" by (rule machine_apiD(7) [OF api u])
  moreover have "mv_machines V w' (ObjectKeyFromMeta (m_Meta ?m)) = Some ?m"
    using machine_apiD(5) [OF api] u unfolding machine_store_laws_def by fastforce
  ultimately show ?thesis by (simp add: tracked_def same_machine_def)
qed

lemma upsert_tracked:
  assumes api: "machine_api E V" and keep: "preserves (mv_machines V) (cou obj f)"
    and run: "atry (abind (acall (cou obj f)) (\<lambda>r. aret (with_machine wrap m r)))
      (\<lambda>res. updateReconcileConditions E res m) w = (Ret (Inr m'), w')"
  shows "tracked V m w m' w'"
proof -
  obtain res w1 where 1: "cou obj f w = (Inr res, w1)" "updateReconcileConditions E res m w1 = (Ret (Inr m'), w')"
    by (rule upsert_stage [OF run])
  have "mv_machines V w1 = mv_machines V w" using preservesD [OF keep, of w] 1(1) by simp
  with conditions_tracked [OF api 1(2)] show ?thesis by (simp add: tracked_def)
qed

subsection \<open>What a run leaves stored\<close>

text \<open>
  The objects of a Machine: the edit and the owner reference are already in place. The replicas
  of a StatefulSet follow from the status and from the reservation Pods no Node has room for.
\<close>

definition pool_kept :: "('w, 'x) mach_env_scheme \<Rightarrow> Machine \<Rightarrow> (ObjectKey \<rightharpoonup> MachineNodePool) \<Rightarrow> bool" where
  "pool_kept E m pools \<longleftrightarrow>
     (\<exists>p. pools (group_pool_key (machine_group m)) = Some p \<and> edit_pool m (machine_group m) p = p \<and>
        SetControllerReference E m (p_Meta p) = Inr (p_Meta p))"

definition sts_kept ::
    "('w, 'x) mach_env_scheme \<Rightarrow> Machine \<Rightarrow> Pod list \<Rightarrow> (ObjectKey \<rightharpoonup> StatefulSet) \<Rightarrow> MachineType \<Rightarrow> bool" where
  "sts_kept E m pods stss mt \<longleftrightarrow>
     (\<forall>u. in_node_pool m (mt_Name mt) \<longrightarrow> GetMachineTypeUsage (avail m) (mt_Name mt) = Some u \<longrightarrow>
        (\<exists>s. stss (reservation_key E (machine_group m) (mt_Name mt)) = Some s \<and>
           GenerateStatefulSet mt (machine_group m)
             (stsReplica u (unscheduled_num E (machine_group m) (mt_Name mt) pods)) s = s \<and>
           SetControllerReference E m (sts_Meta s) = Inr (sts_Meta s)))"

definition svc_kept ::
    "('w, 'x) mach_env_scheme \<Rightarrow> Machine \<Rightarrow> (ObjectKey \<rightharpoonup> Service) \<Rightarrow> MachineType \<Rightarrow> bool" where
  "svc_kept E m svcs mt \<longleftrightarrow>
     (GetMachineTypeUsage (avail m) (mt_Name mt) \<noteq> None \<longrightarrow>
        (\<exists>s. svcs (reservation_key E (machine_group m) (mt_Name mt)) = Some s \<and>
           GenerateService (mt_Name mt) (machine_group m) s = s \<and>
           SetControllerReference E m (svc_Meta s) = Inr (svc_Meta s)))"

lemma kept_cong:
  assumes "machine_api E V" and "same_machine m m'"
  shows "pool_kept E m' = pool_kept E m" "sts_kept E m' = sts_kept E m" "svc_kept E m' = svc_kept E m"
proof -
  have "SetControllerReference E m' = SetControllerReference E m"
    by (rule machine_apiD(8) [OF assms(1)]) (use assms(2) in \<open>simp add: same_machine_def\<close>)
  then show "pool_kept E m' = pool_kept E m" "sts_kept E m' = sts_kept E m" "svc_kept E m' = svc_kept E m"
    using assms(2)
    by (simp_all add: fun_eq_iff pool_kept_def sts_kept_def svc_kept_def same_machine_def in_node_pool_def
        edit_pool_def)
qed

lemma status_frames:
  assumes "machine_api E V"
  shows "status_frame E (but_machines V)" "status_frame E (mv_pools V)" "status_frame E (mv_stss V)"
    "status_frame E (mv_svcs V)" "status_frame E (mv_pods V)" "status_frame E (mv_nss V)"
  using separate_reads(1,6) [OF machine_apiD(6) [OF assms]]
  by (simp_all add: status_frame_def views_defs preserves_pair)

lemma api_status_laws: "machine_api E V \<Longrightarrow> machine_status_laws E"
  using machine_apiD(1) by (auto simp: pool_stage_laws_def)

text \<open>The group's pool, if there is one, is stored under its name and not being deleted.\<close>

definition pool_sound :: "Machine \<Rightarrow> (ObjectKey \<rightharpoonup> MachineNodePool) \<Rightarrow> bool" where
  "pool_sound m pools \<longleftrightarrow>
     (\<forall>p. pools (group_pool_key (machine_group m)) = Some p \<longrightarrow>
        ObjectKeyFromMeta (p_Meta p) = group_pool_key (machine_group m) \<and> DeletionTimestamp (p_Meta p) = None)"

lemma pool_stage_sound:
  assumes api: "machine_api E V" and run: "reconcileMachineNodePool E m w = (Ret (Inr m'), w')"
    and sound: "pool_sound m (mv_pools V w)"
  shows "pool_sound m (mv_pools V w')"
proof -
  let ?g = "machine_group m"
  note law = machine_apiD(10) [OF api, of m]
  obtain old p where old: "old = (case mv_pools V w (group_pool_key ?g) of
        None \<Rightarrow> new_pool (GenerateMachineNodePoolName ?g) | Some stored \<Rightarrow> stored)"
    and w': "mv_pools V w' = (mv_pools V w)(group_pool_key ?g \<mapsto> p)"
    and own: "own_edited (edit_pool m ?g) p_Meta (\<lambda>m p. p\<lparr>p_Meta := m\<rparr>) (SetControllerReference E m) old = Inr p"
    by (rule pool_stage [OF machine_apiD(1) [OF api] run])
  have "pool_key old = group_pool_key ?g \<and> DeletionTimestamp (p_Meta old) = None"
    using sound old by (auto simp: pool_sound_def group_pool_key_def new_pool_def named_meta_def zero_meta_def
        ObjectKeyFromMeta_def split: option.splits)
  moreover obtain refs where "p = (edit_pool m ?g old)\<lparr>p_Meta := (p_Meta (edit_pool m ?g old))\<lparr>OwnerReferences := refs\<rparr>\<rparr>"
    by (rule pool_edit.own_edited_cases [OF law own])
  then have "DeletionTimestamp (p_Meta p) = DeletionTimestamp (p_Meta old)" by (simp add: edit_pool_def Let_def)
  ultimately show ?thesis
    using pool_edit.own_edited_key [OF law own] by (simp add: pool_sound_def w')
qed

lemma pool_run:
  assumes api: "machine_api E V" and run: "reconcileMachineNodePool E m w = (Ret (Inr m'), w')"
  shows "pool_kept E m (mv_pools V w')" "tracked V m w m' w'"
proof -
  let ?g = "machine_group m"
  let ?obj = "new_pool (GenerateMachineNodePoolName ?g)"
  note run' = run [unfolded reconcileMachineNodePool_def Let_def]
  have key: "pool_key ?obj = group_pool_key ?g" by (simp add: group_pool_key_def)
  have "\<exists>p. mv_pools V w' = (mv_pools V w)(pool_key ?obj \<mapsto> p) \<and> edit_pool m ?g p = p \<and>
      SetControllerReference E m (p_Meta p) = Inr (p_Meta p)"
    by (rule pool_edit.upsert_keeps [where key = pool_key and cou = "CreateOrUpdate_Pool E" and store = "mv_pools V"
          and obj = ?obj and f = "\<lambda>p w. (mutate_pool E m ?g p, w)", OF _ machine_apiD(10) [OF api]
          api_status_laws [OF api] status_frames(2) [OF api] _ run'])
      (use machine_apiD(1) [OF api] in \<open>simp_all add: pool_stage_laws_def mutate_pool_own\<close>)
  then show "pool_kept E m (mv_pools V w')" unfolding key by (auto simp: pool_kept_def)
  show "tracked V m w m' w'"
    by (rule upsert_tracked [where cou = "CreateOrUpdate_Pool E" and obj = ?obj, OF api _ run'])
      (use separate_upserts(1) [OF machine_apiD(6) [OF api]] in \<open>simp add: views_defs preserves_pair\<close>)
qed

text \<open>A StatefulSet step: the object is in place, and the Machine and the Pods are tracked.\<close>

lemma sts_step_run:
  assumes api: "machine_api E V"
    and types: "\<And>t. types t \<longleftrightarrow> in_node_pool m t"
    and run: "reconcileStatefulSet_step E (machine_group m) types mt m w = (Ret (Inr m'), w')"
  shows "tracked V m w m' w'" "sts_kept E m (mv_pods V w) (mv_stss V w') mt"
proof -
  let ?g = "machine_group m"
  let ?obj = "new_sts (ImperatorCoreNamespace (os_environ E)) (GenerateReservationResourceName ?g (mt_Name mt))"
  let ?n = "\<lambda>u. stsReplica u (unscheduled_num E ?g (mt_Name mt) (mv_pods V w))"
  have key: "sts_key ?obj = reservation_key E ?g (mt_Name mt)" by (simp add: reservation_key_def)
  note laws = machine_apiD(2) [OF api, unfolded sts_stage_laws_def]
  have *: "tracked V m w m' w' \<and> sts_kept E m (mv_pods V w) (mv_stss V w') mt"
    if in_pool: "in_node_pool m (mt_Name mt)" and u: "GetMachineTypeUsage (avail m) (mt_Name mt) = Some u" for u
  proof
    let ?f = "mutate_sts E m ?g mt u"
    from run in_pool types u have run': "atry (abind (acall (CreateOrUpdate_Sts E ?obj ?f)) (\<lambda>r. aret
          (with_machine (errorf (''failed to reconcile StatefulSet for machineType, '' @ mt_Name mt)) m r)))
        (\<lambda>res. updateReconcileConditions E res m) w = (Ret (Inr m'), w')"
      by (simp add: reconcileStatefulSet_step_def Let_def)
    show "tracked V m w m' w'"
      by (rule upsert_tracked [where cou = "CreateOrUpdate_Sts E" and obj = ?obj, OF api _ run'])
        (use separate_upserts(2) [OF machine_apiD(6) [OF api]] in \<open>simp add: views_defs preserves_pair\<close>)
    obtain y w1 where f: "?f (case mv_stss V w (sts_key ?obj) of None \<Rightarrow> ?obj | Some stored \<Rightarrow> stored) w = (Inr y, w1)"
      and w': "mv_stss V w' = (mv_stss V w1)(sts_key ?obj \<mapsto> y)"
      by (rule upsert_conditions [where cou = "CreateOrUpdate_Sts E" and key = sts_key and store = "mv_stss V"
            and obj = ?obj and f = ?f, OF _ _ _ _ run']) (use laws in simp_all)
    have own: "owner_laws (SetControllerReference E m)" by (rule machine_apiD(10) [OF api])
    have pods: "pod_list_api E (mv_pods V)" using laws by blast
    from sts_edit.own_edited_kept [OF own mutate_sts_own [OF pods f]] w' [unfolded key] u
    show "sts_kept E m (mv_pods V w) (mv_stss V w') mt" by (simp add: sts_kept_def)
  qed
  have skip: "m' = m \<and> w' = w"
    if "\<not> in_node_pool m (mt_Name mt) \<or> GetMachineTypeUsage (avail m) (mt_Name mt) = None"
    using run that types by (auto simp: reconcileStatefulSet_step_def act_simps split: if_splits)
  have "tracked V m w m' w' \<and> sts_kept E m (mv_pods V w) (mv_stss V w') mt"
  proof (cases "in_node_pool m (mt_Name mt) \<and> GetMachineTypeUsage (avail m) (mt_Name mt) \<noteq> None")
    case True
    then show ?thesis using * by auto
  next
    case False
    with skip show ?thesis by (auto simp: sts_kept_def)
  qed
  then show "tracked V m w m' w'" "sts_kept E m (mv_pods V w) (mv_stss V w') mt" by simp_all
qed

lemma sts_run:
  assumes api: "machine_api E V" and dist: "distinct (map mt_Name (ms_MachineTypes (m_Spec m)))"
    and run: "reconcileStatefulSet E m w = (Ret (Inr m'), w')"
  shows "\<forall>mt \<in> set (ms_MachineTypes (m_Spec m)). sts_kept E m (mv_pods V w) (mv_stss V w') mt"
    and "tracked V m w m' w'"
proof -
  let ?g = "machine_group m"
  let ?ts = "ms_MachineTypes (m_Spec m)"
  let ?types = "nodePoolMachineTypeMap_loop (\<lambda>_. False) (ms_NodePool (m_Spec m))"
  let ?Q = "\<lambda>mt v. sts_kept E m (mv_pods V w) (mv_stss V v) mt"
  let ?I = "\<lambda>s v. tracked V m w s v \<and> mv_pods V v = mv_pods V w"
  have types: "?types t \<longleftrightarrow> in_node_pool m t" for t by (simp add: nodePoolMachineTypeMap in_node_pool_def)
  have "?I m' w' \<and> (\<forall>mt \<in> set ?ts. ?Q mt w')"
  proof (rule sts_loop.loop_establishes [where I = ?I and Q = ?Q, OF _ _ run [unfolded reconcileStatefulSet_def]])
    show "distinct ?ts" using dist by (simp add: distinct_map)
    fix mt s v s' v' assume I: "?I s v" and step: "reconcileStatefulSet_step E ?g ?types mt s v = (Ret (Inr s'), v')"
    have same: "same_machine m s" using I by (simp add: tracked_def)
    then have g: "machine_group s = ?g" and in_pool: "in_node_pool s = in_node_pool m"
      by (simp_all add: same_machine_def in_node_pool_def fun_eq_iff)
    have "?types t \<longleftrightarrow> in_node_pool s t" for t using types in_pool by simp
    note st = sts_step_run [OF api this step [folded g]]
    have "mv_pods V v' = mv_pods V v" by (rule sts_step(2) [OF machine_apiD(2) [OF api] step])
    moreover have "tracked V m w s' v'" by (rule tracked_trans [OF conjunct1 [OF I] st(1)])
    moreover have "?Q mt v'" using st(2) kept_cong(2) [OF api same] I by simp
    ultimately show "?I s' v' \<and> ?Q mt v'" using I by simp
  next
    fix p q s v s' v' assume "p \<in> set ?ts" "q \<in> set ?ts" "p \<noteq> q" and Q: "?Q p v"
      and step: "reconcileStatefulSet_step E ?g ?types q s v = (Ret (Inr s'), v')"
    then have "reservation_key E ?g (mt_Name p) \<noteq> reservation_key E ?g (mt_Name q)"
      using dist by (auto simp: reservation_key_def distinct_map dest: inj_onD)
    then show "?Q p v'" using sts_step(4) [OF machine_apiD(2) [OF api] step] Q by (simp add: sts_kept_def)
  qed simp
  then show "\<forall>mt \<in> set ?ts. ?Q mt w'" and "tracked V m w m' w'" by simp_all
qed

text \<open>The same for the Services.\<close>

lemma svc_step_run:
  assumes api: "machine_api E V"
    and run: "reconcileService_step E (machine_group m) mt m w = (Ret (Inr m'), w')"
  shows "tracked V m w m' w'" "svc_kept E m (mv_svcs V w') mt"
proof -
  let ?g = "machine_group m"
  let ?obj = "new_svc (ImperatorCoreNamespace (os_environ E)) (GenerateReservationResourceName ?g (mt_Name mt))"
  let ?f = "\<lambda>s w. (mutate_svc E m ?g (mt_Name mt) s, w)"
  have key: "svc_key ?obj = reservation_key E ?g (mt_Name mt)" by (simp add: reservation_key_def)
  have "tracked V m w m' w' \<and> svc_kept E m (mv_svcs V w') mt"
  proof (cases "GetMachineTypeUsage (avail m) (mt_Name mt)")
    case None
    with run show ?thesis by (auto simp: reconcileService_step_def act_simps svc_kept_def)
  next
    case (Some u)
    with run have run': "atry (abind (acall (CreateOrUpdate_Svc E ?obj ?f)) (\<lambda>r. aret
          (with_machine (errorf (''failed to reconcile Service for machineType, '' @ mt_Name mt)) m r)))
        (\<lambda>res. updateReconcileConditions E res m) w = (Ret (Inr m'), w')"
      by (simp add: reconcileService_step_def Let_def)
    have "\<exists>s. mv_svcs V w' = (mv_svcs V w)(svc_key ?obj \<mapsto> s) \<and> GenerateService (mt_Name mt) ?g s = s \<and>
        SetControllerReference E m (svc_Meta s) = Inr (svc_Meta s)"
      by (rule svc_edit.upsert_keeps [where key = svc_key and cou = "CreateOrUpdate_Svc E" and store = "mv_svcs V"
            and obj = ?obj and f = ?f, OF _ machine_apiD(10) [OF api] api_status_laws [OF api] status_frames(4) [OF api] _ run'])
        (use machine_apiD(3) [OF api] in \<open>simp_all add: svc_stage_laws_def mutate_svc_own\<close>)
    then have "svc_kept E m (mv_svcs V w') mt" unfolding key by (auto simp: svc_kept_def)
    moreover have "tracked V m w m' w'"
      by (rule upsert_tracked [where cou = "CreateOrUpdate_Svc E" and obj = ?obj, OF api _ run'])
        (use separate_upserts(3) [OF machine_apiD(6) [OF api]] in \<open>simp add: views_defs preserves_pair\<close>)
    ultimately show ?thesis by simp
  qed
  then show "tracked V m w m' w'" "svc_kept E m (mv_svcs V w') mt" by simp_all
qed

lemma svc_run:
  assumes api: "machine_api E V" and dist: "distinct (map mt_Name (ms_MachineTypes (m_Spec m)))"
    and run: "reconcileService E m w = (Ret (Inr m'), w')"
  shows "\<forall>mt \<in> set (ms_MachineTypes (m_Spec m)). svc_kept E m (mv_svcs V w') mt"
    and "tracked V m w m' w'"
proof -
  let ?g = "machine_group m"
  let ?ts = "ms_MachineTypes (m_Spec m)"
  let ?Q = "\<lambda>mt v. svc_kept E m (mv_svcs V v) mt"
  let ?I = "\<lambda>s v. tracked V m w s v"
  have "?I m' w' \<and> (\<forall>mt \<in> set ?ts. ?Q mt w')"
  proof (rule svc_loop.loop_establishes [where I = ?I and Q = ?Q, OF _ _ run [unfolded reconcileService_def]])
    show "distinct ?ts" using dist by (simp add: distinct_map)
    fix mt s v s' v' assume I: "?I s v" and step: "reconcileService_step E ?g mt s v = (Ret (Inr s'), v')"
    have same: "same_machine m s" using I by (simp add: tracked_def)
    then have g: "machine_group s = ?g" by (simp add: same_machine_def)
    note st = svc_step_run [OF api step [folded g]]
    have "?I s' v'" by (rule tracked_trans [OF I st(1)])
    with st(2) kept_cong(3) [OF api same] show "?I s' v' \<and> ?Q mt v'" by simp
  next
    fix p q s v s' v' assume "p \<in> set ?ts" "q \<in> set ?ts" "p \<noteq> q" and Q: "?Q p v"
      and step: "reconcileService_step E ?g q s v = (Ret (Inr s'), v')"
    then have ne: "reservation_key E ?g (mt_Name p) \<noteq> reservation_key E ?g (mt_Name q)"
      using dist by (auto simp: reservation_key_def distinct_map dest: inj_onD)
    note st = svc_step(2,3) [OF machine_apiD(3) [OF api] step]
    show "?Q p v'"
    proof (cases "GetMachineTypeUsage (avail s) (mt_Name q) = None")
      case True
      with st(2) Q show ?thesis by simp
    next
      case False
      with st(1) ne Q show ?thesis by (auto simp: svc_kept_def)
    qed
  qed simp
  then show "\<forall>mt \<in> set ?ts. ?Q mt w'" and "tracked V m w m' w'" by simp_all
qed

subsection \<open>A successful run\<close>

text \<open>What each stage leaves to the stages after it.\<close>

lemma stage_frames:
  assumes api: "machine_api E V"
  shows "preserves (\<lambda>w. (mv_stss V w, mv_pods V w, mv_nss V w)) (reconcileMachineNodePool E m)"
    "preserves (\<lambda>w. (mv_pools V w, mv_pods V w, mv_nss V w)) (reconcileStatefulSet E m)"
    "preserves (\<lambda>w. (mv_pools V w, mv_stss V w, mv_pods V w, mv_nss V w)) (reconcileService E m)"
    "preserves (but_machines V) (updateStatus E m)"
proof -
  note sep = machine_apiD(6) [OF api]
  note parts = views_defs preserves_pair status_frame_def
  note upserts = separate_upserts [OF sep, unfolded parts]
  have status: "status_frame E (but_machines V)" by (rule status_frames(1) [OF api])
  show "preserves (\<lambda>w. (mv_stss V w, mv_pods V w, mv_nss V w)) (reconcileMachineNodePool E m)"
    by (rule pool_stage_frame) (use status upserts(1) in \<open>simp_all add: parts\<close>)
  show "preserves (\<lambda>w. (mv_pools V w, mv_pods V w, mv_nss V w)) (reconcileStatefulSet E m)"
    by (rule sts_stage_frame) (use status upserts(2) in \<open>simp_all add: parts\<close>)
  show "preserves (\<lambda>w. (mv_pools V w, mv_stss V w, mv_pods V w, mv_nss V w)) (reconcileService E m)"
    by (rule svc_stage_frame) (use status upserts(3) in \<open>simp_all add: parts\<close>)
  have read: "preserves (but_machines V) f" if "preserves (snapshot V) f" for f :: "'a \<Rightarrow> 'c \<times> 'a"
    using that by (simp add: parts)
  have "but_machines V (Recorder_Eventf E s w) = but_machines V w" for s w
    using separate_reads(2) [OF sep, of s w] by (simp add: views_defs)
  then show "preserves (but_machines V) (updateStatus E m)"
    by (intro updateStatus_frame status read separate_reads [OF sep])
qed

lemma stage_ok:
  assumes "stage E a k w = (Ret (\<lparr>Requeue = False\<rparr>, None), w')" and "returns a"
  obtains m1 w1 where "a w = (Ret (Inr m1), w1)" and "k m1 w1 = (Ret (\<lparr>Requeue = False\<rparr>, None), w')"
proof (cases "a w")
  case (Pair r w1)
  have "r \<noteq> Panic" using assms(2) Pair by (metis fst_conv returns_def)
  then obtain x where r: "r = Ret x" by (cases r) auto
  show thesis
  proof (cases x)
    case (Inr m1)
    with assms(1) Pair r that show thesis by (simp add: stage_def act_simps)
  next
    case (Inl em)
    with assms(1) Pair r show thesis
      by (auto simp: stage_def updateReconcileFailedStatus_def act_simps split: prod.splits sum.splits)
  qed
qed

definition counted_all :: "('w, 'x) mach_env_scheme \<Rightarrow> Machine \<Rightarrow> Pod list \<Rightarrow> (string \<rightharpoonup> ObjectMeta) \<Rightarrow>
    AvailableMachineCondition list" where
  "counted_all E m ps ns =
     map (counted E (machine_group m) (desiredMachineTypeNum m) ps ns) (withMissingEntries m)"

text \<open>The stages of a successful run.\<close>

lemma run_stages:
  assumes api: "machine_api E V" and m: "mv_machines V w req = Some m"
    and run: "machine_Reconcile E req w = (Ret (\<lparr>Requeue = False\<rparr>, None), w')"
  obtains w0 m1 w1 m2 w2 m3 w3 where "snapshot V w0 = snapshot V w"
    and "reconcileMachineNodePool E m w0 = (Ret (Inr m1), w1)"
    and "reconcileStatefulSet E m1 w1 = (Ret (Inr m2), w2)"
    and "reconcileService E m2 w2 = (Ret (Inr m3), w3)"
    and "updateStatus E m3 w3 = (Ret (\<lparr>Requeue = False\<rparr>, None), w')"
proof -
  let ?w0 = "snd (Get_Machine E req w)"
  have snap: "snapshot V ?w0 = snapshot V w"
    by (rule preservesD [OF separate_reads(3) [OF machine_apiD(6) [OF api]]])
  have rec: "machine_reconcile E m ?w0 = (Ret (\<lparr>Requeue = False\<rparr>, None), w')"
    using run machine_apiD(9) [OF api m] by (simp add: machine_Reconcile_def act_simps)
  obtain m1 w1 where 1: "reconcileMachineNodePool E m ?w0 = (Ret (Inr m1), w1)"
    and r1: "stage E (reconcileStatefulSet E m1) (\<lambda>m. stage E (reconcileService E m) (updateStatus E)) w1
      = (Ret (\<lparr>Requeue = False\<rparr>, None), w')"
    by (rule stage_ok [OF rec [unfolded machine_reconcile_def] returns_pool_stage])
  obtain m2 w2 where 2: "reconcileStatefulSet E m1 w1 = (Ret (Inr m2), w2)"
    and r2: "stage E (reconcileService E m2) (updateStatus E) w2 = (Ret (\<lparr>Requeue = False\<rparr>, None), w')"
    by (rule stage_ok [OF r1 returns_sts_stage])
  obtain m3 w3 where 3: "reconcileService E m2 w2 = (Ret (Inr m3), w3)"
    and r3: "updateStatus E m3 w3 = (Ret (\<lparr>Requeue = False\<rparr>, None), w')"
    by (rule stage_ok [OF r2 returns_svc_stage])
  show thesis by (rule that [OF snap 1 2 3 r3])
qed

lemma run_result:
  assumes api: "machine_api E V" and dist: "distinct (map mt_Name (ms_MachineTypes (m_Spec m)))"
    and m: "mv_machines V w req = Some m" and key: "ObjectKeyFromMeta (m_Meta m) = req"
    and run: "machine_Reconcile E req w = (Ret (\<lparr>Requeue = False\<rparr>, None), w')"
  obtains m' where "mv_machines V w' req = Some m'" and "m_Meta m' = m_Meta m" and "m_Spec m' = m_Spec m"
    and "avail m' = counted_all E m (mv_pods V w) (mv_nss V w)"
    and "pool_kept E m (mv_pools V w')"
    and "\<forall>mt \<in> set (ms_MachineTypes (m_Spec m)). sts_kept E m (mv_pods V w) (mv_stss V w') mt"
    and "\<forall>mt \<in> set (ms_MachineTypes (m_Spec m)). svc_kept E m (mv_svcs V w') mt"
    and "mv_pods V w' = mv_pods V w" and "mv_nss V w' = mv_nss V w"
    and "pool_sound m (mv_pools V w) \<longrightarrow> pool_sound m (mv_pools V w')"
    and "\<And>k. k \<notin> offered_keys E m \<Longrightarrow> mv_stss V w' k = mv_stss V w k"
proof -
  obtain w0 m1 w1 m2 w2 m3 w3 where snap: "snapshot V w0 = snapshot V w"
    and 1: "reconcileMachineNodePool E m w0 = (Ret (Inr m1), w1)"
    and 2: "reconcileStatefulSet E m1 w1 = (Ret (Inr m2), w2)"
    and 3: "reconcileService E m2 w2 = (Ret (Inr m3), w3)"
    and r3: "updateStatus E m3 w3 = (Ret (\<lparr>Requeue = False\<rparr>, None), w')"
    by (rule run_stages [OF api m run])
  note pool = pool_run [OF api 1]
  have s1: "same_machine m m1" using pool(2) by (simp add: tracked_def)
  have dist1: "distinct (map mt_Name (ms_MachineTypes (m_Spec m1)))" using dist s1 by (simp add: same_machine_def)
  note sts = sts_run [OF api dist1 2]
  have s2: "same_machine m m2" using s1 sts(2) by (simp add: tracked_def same_machine_def)
  have dist2: "distinct (map mt_Name (ms_MachineTypes (m_Spec m2)))" using dist s2 by (simp add: same_machine_def)
  note svc = svc_run [OF api dist2 3]
  have track: "tracked V m w0 m3 w3" by (rule tracked_trans [OF tracked_trans [OF pool(2) sts(2)] svc(2)])
  then have s3: "same_machine m m3" by (simp add: tracked_def)
  have key3: "ObjectKeyFromMeta (m_Meta m3) = req" using s3 key by (simp add: same_machine_def)
  have stored: "mv_machines V w3 (ObjectKeyFromMeta (m_Meta m3)) = Some m3"
    using track m snap key key3 by (simp add: tracked_def snapshot_def)
  from updateStatus_stores [OF machine_apiD(4,5) [OF api] stored r3] obtain m'
    where m': "mv_machines V w' req = Some m'" "m_Meta m' = m_Meta m3" "m_Spec m' = m_Spec m3"
      "avail m' = counted_all E m3 (mv_pods V w3) (mv_nss V w3)"
    by (auto simp: key3 counted_all_def)
  have f1: "(mv_stss V w1, mv_pods V w1, mv_nss V w1) = (mv_stss V w, mv_pods V w, mv_nss V w)"
    using preservesD [OF stage_frames(1) [OF api, of m], of w0] snap 1 by (simp add: snapshot_def)
  have f2: "(mv_pools V w2, mv_pods V w2, mv_nss V w2) = (mv_pools V w1, mv_pods V w1, mv_nss V w1)"
    using preservesD [OF stage_frames(2) [OF api, of m1], of w1] 2 by simp
  have f3: "(mv_pools V w3, mv_stss V w3, mv_pods V w3, mv_nss V w3) = (mv_pools V w2, mv_stss V w2, mv_pods V w2, mv_nss V w2)"
    using preservesD [OF stage_frames(3) [OF api, of m2], of w2] 3 by simp
  have f4: "but_machines V w' = but_machines V w3"
    using preservesD [OF stage_frames(4) [OF api, of m3], of w3] r3 by simp
  note frames = f1 f2 f3 f4 [unfolded but_machines_def]
  have "counted_all E m3 = counted_all E m"
    using s3 by (simp add: same_machine_def counted_all_def withMissingEntries_def desiredMachineTypeNum_def fun_eq_iff)
  moreover have "pool_sound m (mv_pools V w')" if "pool_sound m (mv_pools V w)"
    using pool_stage_sound [OF api 1] that snap frames by (simp add: snapshot_def)
  moreover have "mv_stss V w' k = mv_stss V w k"
    if "k \<notin> offered_keys E m" for k
  proof -
    have "offered_keys E m1 = offered_keys E m"
      using s1 by (simp add: same_machine_def offered_keys_def in_node_pool_def)
    then have "mv_stss V w2 k = mv_stss V w1 k"
      using sts_stage(2) [OF machine_apiD(2) [OF api] dist1 2] that by (simp del: split_paired_All)
    with frames show ?thesis by simp
  qed
  ultimately show thesis
    using m' s3 pool(1) sts(1) svc(1) kept_cong [OF api s1] kept_cong [OF api s2] s1 s2 frames
    by (intro that [of m']) (simp_all add: same_machine_def)
qed

end
