(* ===== verification/MachineRest.thy ===== *)
theory MachineRest
  imports MachineRuns
begin

text \<open>
  The Machine controller at rest. Lemmas: a run on a settled Machine changes nothing, and two
  successful runs settle a Machine in a cluster in which nothing else happens.
\<close>

subsection \<open>A run at rest\<close>

lemma pool_idle:
  assumes api: "machine_api E V" and live: "machine_api_live E V" and kept: "pool_kept E m (mv_pools V w)"
  shows "\<exists>w'. reconcileMachineNodePool E m w = (Ret (Inr m), w') \<and> snapshot V w' = snapshot V w"
proof -
  let ?g = "machine_group m"
  let ?obj = "new_pool (GenerateMachineNodePoolName ?g)"
  let ?f = "\<lambda>p w. (mutate_pool E m ?g p, w)"
  obtain p where p: "mv_pools V w (pool_key ?obj) = Some p" "edit_pool m ?g p = p"
    "SetControllerReference E m (p_Meta p) = Inr (p_Meta p)"
    using kept by (auto simp: pool_kept_def group_pool_key_def)
  have f: "fst (?f p w) = Inr p"
    using p(2,3) by (simp add: mutate_pool_own own_edited_def)
  from upsert_idle [where cou = "CreateOrUpdate_Pool E" and key = pool_key and store = "mv_pools V" and f = ?f
      and E = E and m = m and wrap = "errorf ''failed to reconcile MachineNodePool''", OF _ _ p(1) f]
    machine_apiD(1) [OF api] live
  have "\<exists>w'. reconcileMachineNodePool E m w = (Ret (Inr m), w') \<and>
      w' = snd (CreateOrUpdate_Pool E ?obj ?f w) \<and> mv_pools V w' = mv_pools V w"
    by (simp add: reconcileMachineNodePool_def pool_stage_laws_def machine_api_live_def Let_def)
  moreover have "but_pools V (snd (CreateOrUpdate_Pool E ?obj ?f w)) = but_pools V w"
    by (rule preservesD [OF separate_upserts(1) [OF machine_apiD(6) [OF api]]])
  ultimately show ?thesis by (auto simp: views_defs)
qed

lemma mutate_sts_answers:
  assumes pods: "pod_list_api E pods" and live: "\<And>ns sel w. \<exists>ps. fst (List_Pods E ns sel w) = Inr ps"
    and own: "own_edited (GenerateStatefulSet mt grp (stsReplica u (unscheduled_num E grp (mt_Name mt) (pods w)))) sts_Meta
      (\<lambda>m s. s\<lparr>sts_Meta := m\<rparr>) (SetControllerReference E m) x = Inr y"
  shows "fst (mutate_sts E m grp mt u x w) = Inr y"
proof -
  let ?r = "getUnscheduledPodNum E (GenerateReservationResourceLabel grp (mt_Name mt))
    (ImperatorCoreNamespace (os_environ E)) w"
  obtain ps where "fst (List_Pods E (ImperatorCoreNamespace (os_environ E))
      (GenerateReservationResourceLabel grp (mt_Name mt)) w) = Inr ps" using live by blast
  then obtain n w1 where r: "?r = (Inr n, w1)"
    by (cases "List_Pods E (ImperatorCoreNamespace (os_environ E)) (GenerateReservationResourceLabel grp (mt_Name mt)) w")
      (cases "ps = []"; auto simp: getUnscheduledPodNum_def)
  from getUnscheduledPodNum_exact(1) [OF pods r] own r show ?thesis
    by (simp add: mutate_sts_def own_edited_def Let_def split: sum.splits)
qed

lemma sts_step_idle:
  assumes api: "machine_api E V" and live: "machine_api_live E V"
    and types: "\<And>t. types t \<longleftrightarrow> in_node_pool m t" and kept: "sts_kept E m (mv_pods V w) (mv_stss V w) mt"
  shows "\<exists>w'. reconcileStatefulSet_step E (machine_group m) types mt m w = (Ret (Inr m), w') \<and>
    snapshot V w' = snapshot V w"
proof (cases "in_node_pool m (mt_Name mt) \<and> GetMachineTypeUsage (avail m) (mt_Name mt) \<noteq> None")
  case False
  with types show ?thesis by (auto simp: reconcileStatefulSet_step_def act_simps)
next
  case True
  then obtain u where u: "GetMachineTypeUsage (avail m) (mt_Name mt) = Some u" by auto
  let ?g = "machine_group m"
  let ?obj = "new_sts (ImperatorCoreNamespace (os_environ E)) (GenerateReservationResourceName ?g (mt_Name mt))"
  let ?f = "mutate_sts E m ?g mt u"
  note sep = machine_apiD(6) [OF api] and laws = machine_apiD(2) [OF api, unfolded sts_stage_laws_def]
  obtain s where s: "mv_stss V w (sts_key ?obj) = Some s"
    "GenerateStatefulSet mt ?g (stsReplica u (unscheduled_num E ?g (mt_Name mt) (mv_pods V w))) s = s"
    "SetControllerReference E m (sts_Meta s) = Inr (sts_Meta s)"
    using kept True u by (auto simp: sts_kept_def reservation_key_def)
  have f: "fst (?f s w) = Inr s"
    by (rule mutate_sts_answers [where pods = "mv_pods V"])
      (use laws live s(2,3) in \<open>simp_all add: machine_api_live_def own_edited_def\<close>)
  have "preserves (mv_stss V) (?f s)"
    by (rule mutate_sts_frame) (use laws in simp)
  from upsert_idle [where cou = "CreateOrUpdate_Sts E" and key = sts_key and store = "mv_stss V" and f = ?f
      and E = E and m = m and wrap = "errorf (''failed to reconcile StatefulSet for machineType, '' @ mt_Name mt)",
      OF _ _ s(1) f preservesD [OF this]] laws live True types u
  have "\<exists>w'. reconcileStatefulSet_step E ?g types mt m w = (Ret (Inr m), w') \<and>
      w' = snd (CreateOrUpdate_Sts E ?obj ?f w) \<and> mv_stss V w' = mv_stss V w"
    by (simp add: reconcileStatefulSet_step_def machine_api_live_def Let_def)
  moreover have "but_stss V (snd (CreateOrUpdate_Sts E ?obj ?f w)) = but_stss V w"
    by (rule preservesD [OF separate_upserts(2) [OF sep]])
  ultimately show ?thesis by (auto simp: views_defs)
qed

lemma sts_idle:
  assumes api: "machine_api E V" and live: "machine_api_live E V"
    and kept: "\<forall>mt \<in> set (ms_MachineTypes (m_Spec m)). sts_kept E m (mv_pods V w) (mv_stss V w) mt"
  shows "\<exists>w'. reconcileStatefulSet E m w = (Ret (Inr m), w') \<and> snapshot V w' = snapshot V w"
  unfolding reconcileStatefulSet_def
proof (rule sts_loop.loop_idle [where I = "\<lambda>v. snapshot V v = snapshot V w"])
  fix mt v assume mt: "mt \<in> set (ms_MachineTypes (m_Spec m))" and v: "snapshot V v = snapshot V w"
  have "sts_kept E m (mv_pods V v) (mv_stss V v) mt" using kept mt v by (simp add: snapshot_def)
  from sts_step_idle [OF api live _ this, where types = "nodePoolMachineTypeMap_loop (\<lambda>_. False) (ms_NodePool (m_Spec m))"] v
  show "\<exists>w'. reconcileStatefulSet_step E (machine_group m)
      (nodePoolMachineTypeMap_loop (\<lambda>_. False) (ms_NodePool (m_Spec m))) mt m v = (Ret (Inr m), w') \<and>
    snapshot V w' = snapshot V w"
    by (simp add: nodePoolMachineTypeMap in_node_pool_def)
qed simp

lemma svc_step_idle:
  assumes api: "machine_api E V" and live: "machine_api_live E V" and kept: "svc_kept E m (mv_svcs V w) mt"
  shows "\<exists>w'. reconcileService_step E (machine_group m) mt m w = (Ret (Inr m), w') \<and> snapshot V w' = snapshot V w"
proof (cases "GetMachineTypeUsage (avail m) (mt_Name mt)")
  case None
  then show ?thesis by (simp add: reconcileService_step_def act_simps)
next
  case (Some u)
  let ?g = "machine_group m"
  let ?obj = "new_svc (ImperatorCoreNamespace (os_environ E)) (GenerateReservationResourceName ?g (mt_Name mt))"
  let ?f = "\<lambda>s w. (mutate_svc E m ?g (mt_Name mt) s, w)"
  obtain s where s: "mv_svcs V w (svc_key ?obj) = Some s" "GenerateService (mt_Name mt) ?g s = s"
    "SetControllerReference E m (svc_Meta s) = Inr (svc_Meta s)"
    using kept Some by (auto simp: svc_kept_def reservation_key_def)
  have f: "fst (?f s w) = Inr s"
    using s(2,3) by (simp add: mutate_svc_own own_edited_def)
  from upsert_idle [where cou = "CreateOrUpdate_Svc E" and key = svc_key and store = "mv_svcs V" and f = ?f
      and E = E and m = m and wrap = "errorf (''failed to reconcile Service for machineType, '' @ mt_Name mt)", OF _ _ s(1) f]
    machine_apiD(3) [OF api] live Some
  have "\<exists>w'. reconcileService_step E ?g mt m w = (Ret (Inr m), w') \<and>
      w' = snd (CreateOrUpdate_Svc E ?obj ?f w) \<and> mv_svcs V w' = mv_svcs V w"
    by (simp add: reconcileService_step_def svc_stage_laws_def machine_api_live_def Let_def)
  moreover have "but_svcs V (snd (CreateOrUpdate_Svc E ?obj ?f w)) = but_svcs V w"
    by (rule preservesD [OF separate_upserts(3) [OF machine_apiD(6) [OF api]]])
  ultimately show ?thesis by (auto simp: views_defs)
qed

lemma svc_idle:
  assumes api: "machine_api E V" and live: "machine_api_live E V"
    and kept: "\<forall>mt \<in> set (ms_MachineTypes (m_Spec m)). svc_kept E m (mv_svcs V w) mt"
  shows "\<exists>w'. reconcileService E m w = (Ret (Inr m), w') \<and> snapshot V w' = snapshot V w"
  unfolding reconcileService_def
proof (rule svc_loop.loop_idle [where I = "\<lambda>v. snapshot V v = snapshot V w"])
  fix mt v assume mt: "mt \<in> set (ms_MachineTypes (m_Spec m))" and v: "snapshot V v = snapshot V w"
  have "svc_kept E m (mv_svcs V v) mt" using kept mt v by (simp add: snapshot_def)
  from svc_step_idle [OF api live this] v
  show "\<exists>w'. reconcileService_step E (machine_group m) mt m v = (Ret (Inr m), w') \<and> snapshot V w' = snapshot V w"
    by simp
qed simp

text \<open>The counters can be computed when every Pod is in a Namespace that exists.\<close>

definition pods_placed :: "'w machine_views \<Rightarrow> 'w \<Rightarrow> bool" where
  "pods_placed V w \<longleftrightarrow> (\<forall>p \<in> set (mv_pods V w). mv_nss V w (Namespace (pod_Meta p)) \<noteq> None)"

lemma entry_answers:
  assumes api: "machine_api E V" and live: "machine_api_live E V" and placed: "pods_placed V w"
  shows "\<exists>am' w'. updateStatus_entry E grp desired am w = (Ret (Inr am'), w') \<and> snapshot V w' = snapshot V w"
proof -
  note sep = machine_apiD(6) [OF api] and laws = machine_apiD(4) [OF api, unfolded status_laws_def]
  let ?r1 = "List_Pods E [] (role_labels PodRoleReservation grp (am_Name am)) w"
  let ?r2 = "List_Pods E [] (role_labels PodRoleGuest grp (am_Name am)) (snd ?r1)"
  obtain ps1 ps2 where ps: "fst ?r1 = Inr ps1" "fst ?r2 = Inr ps2"
    using live unfolding machine_api_live_def by blast
  have snap: "snapshot V (snd ?r1) = snapshot V w" "snapshot V (snd ?r2) = snapshot V w"
    using preservesD [OF separate_reads(5) [OF sep]] by simp_all
  have guests: "set ps2 \<subseteq> set (mv_pods V w)"
  proof -
    have pods: "pod_list_api E (mv_pods V)" using laws by blast
    have "mv_pods V (snd ?r1) = mv_pods V w" using snap(1) by (simp add: snapshot_def)
    with pod_list_all [OF pods ps(2)] show ?thesis by simp
  qed
  have "\<exists>c w'. guest_loop E ps2 (0, 0) (snd ?r2) = (Ret (Inr c), w') \<and> snapshot V w' = snapshot V w"
  proof (rule guest_counter.loop_returns [where I = "\<lambda>v. snapshot V v = snapshot V w", OF snap(2)])
    fix p c v assume p: "p \<in> set ps2" and v: "snapshot V v = snapshot V w"
    obtain ns where "mv_nss V v (Namespace (pod_Meta p)) = Some ns"
      using placed guests p v by (auto simp: pods_placed_def snapshot_def)
    then have "fst (Get_Namespace E (Namespace (pod_Meta p)) v) = Inr ns"
      using live by (simp add: machine_api_live_def)
    then show "\<exists>c' w'. guest_step E p c v = (Ret (Inr c'), w') \<and> snapshot V w' = snapshot V w"
      using preservesD [OF separate_reads(4) [OF sep], of "Namespace (pod_Meta p)" v] v
      by (simp add: guest_step_def act_simps)
  qed
  then obtain c w' where "guest_loop E ps2 (0, 0) (snd ?r2) = (Ret (Inr c), w')" "snapshot V w' = snapshot V w"
    by blast
  then show ?thesis
    using ps laws by (simp add: updateStatus_entry_def act_simps Let_def role_labels_def mergo_laws_def)
qed

lemma status_idle:
  assumes api: "machine_api E V" and live: "machine_api_live E V" and placed: "pods_placed V w"
    and counted: "avail m = counted_all E m (mv_pods V w) (mv_nss V w)"
  shows "\<exists>w'. updateStatus E m w = (Ret (\<lparr>Requeue = False\<rparr>, None), w') \<and> snapshot V w' = snapshot V w"
proof -
  let ?loop = "updateStatus_loop E (machine_group m) (desiredMachineTypeNum m) (withMissingEntries m) [] w"
  have "\<exists>ams w'. ?loop = (Ret (Inr ams), w') \<and> snapshot V w' = snapshot V w"
  proof (rule status_entries.loop_returns [where I = "\<lambda>v. snapshot V v = snapshot V w"])
    fix am written v assume v: "snapshot V v = snapshot V w"
    then have "pods_placed V v" using placed by (simp add: pods_placed_def snapshot_def)
    from entry_answers [OF api live this, of "machine_group m" "desiredMachineTypeNum m" am] v
    show "\<exists>s w'. updateStatus_step E (machine_group m) (desiredMachineTypeNum m) am written v = (Ret (Inr s), w') \<and>
        snapshot V w' = snapshot V w"
      by (auto simp: updateStatus_step_def act_simps)
  qed simp
  then obtain ams w' where loop: "?loop = (Ret (Inr ams), w')" and snap: "snapshot V w' = snapshot V w" by blast
  have "ams = avail m"
    using status_loop_exact [OF machine_apiD(4) [OF api] loop] counted by (simp add: counted_all_def)
  then have "cmp_Diff_avail E (avail m) ams = []"
    using machine_apiD(5) [OF api] by (simp add: machine_store_laws_def)
  with loop snap show ?thesis by (simp add: updateStatus_def act_simps Let_def)
qed

text \<open>Everything is in place for the stored Machine.\<close>

definition settled_machine :: "('w, 'x) mach_env_scheme \<Rightarrow> 'w machine_views \<Rightarrow> Machine \<Rightarrow> 'w \<Rightarrow> bool" where
  "settled_machine E V m w \<longleftrightarrow>
     pool_kept E m (mv_pools V w) \<and>
     (\<forall>mt \<in> set (ms_MachineTypes (m_Spec m)). sts_kept E m (mv_pods V w) (mv_stss V w) mt) \<and>
     (\<forall>mt \<in> set (ms_MachineTypes (m_Spec m)). svc_kept E m (mv_svcs V w) mt) \<and>
     avail m = counted_all E m (mv_pods V w) (mv_nss V w)"

lemma stage_run: "a w = (Ret (Inr m), w') \<Longrightarrow> stage E a k w = k m w'"
  by (simp add: stage_def act_simps)

lemma run_idle:
  assumes api: "machine_api E V" and live: "machine_api_live E V" and placed: "pods_placed V w"
    and m: "mv_machines V w req = Some m" and settled: "settled_machine E V m w"
  shows "\<exists>w'. machine_Reconcile E req w = (Ret (\<lparr>Requeue = False\<rparr>, None), w') \<and> snapshot V w' = snapshot V w"
proof -
  let ?w0 = "snd (Get_Machine E req w)"
  have s0: "snapshot V ?w0 = snapshot V w"
    by (rule preservesD [OF separate_reads(3) [OF machine_apiD(6) [OF api]]])
  have cong: "settled_machine E V m v \<and> pods_placed V v" if "snapshot V v = snapshot V w" for v
    using settled placed that by (simp add: settled_machine_def pods_placed_def snapshot_def)
  obtain w1 where 1: "reconcileMachineNodePool E m ?w0 = (Ret (Inr m), w1)" and s1: "snapshot V w1 = snapshot V w"
    using pool_idle [OF api live, of m ?w0] cong [OF s0] s0 by (auto simp: settled_machine_def)
  obtain w2 where 2: "reconcileStatefulSet E m w1 = (Ret (Inr m), w2)" and s2: "snapshot V w2 = snapshot V w"
    using sts_idle [OF api live, of m w1] cong [OF s1] s1 by (auto simp: settled_machine_def)
  obtain w3 where 3: "reconcileService E m w2 = (Ret (Inr m), w3)" and s3: "snapshot V w3 = snapshot V w"
    using svc_idle [OF api live, of m w2] cong [OF s2] s2 by (auto simp: settled_machine_def)
  obtain w4 where 4: "updateStatus E m w3 = (Ret (\<lparr>Requeue = False\<rparr>, None), w4)" and s4: "snapshot V w4 = snapshot V w"
    using status_idle [OF api live, of w3 m] cong [OF s3] s3 by (auto simp: settled_machine_def)
  have "machine_reconcile E m ?w0 = (Ret (\<lparr>Requeue = False\<rparr>, None), w4)"
    unfolding machine_reconcile_def
      stage_run [where a = "reconcileMachineNodePool E m", OF 1]
      stage_run [where a = "reconcileStatefulSet E m", OF 2]
      stage_run [where a = "reconcileService E m", OF 3] by (rule 4)
  with s4 machine_apiD(9) [OF api m] show ?thesis by (simp add: machine_Reconcile_def act_simps)
qed

subsection \<open>Repeated runs\<close>

definition machine_runs :: "('w, 'x) mach_env_scheme \<Rightarrow> ObjectKey \<Rightarrow> nat \<Rightarrow> 'w \<Rightarrow> 'w" where
  "machine_runs E req k = (\<lambda>w. snd (machine_Reconcile E req w)) ^^ k"

lemma machine_runs_simps [simp]:
  "machine_runs E req 0 w = w"
  "machine_runs E req (Suc k) w = snd (machine_Reconcile E req (machine_runs E req k w))"
  by (simp_all add: machine_runs_def)

lemma machine_runs_add: "machine_runs E req (k + l) w = machine_runs E req k (machine_runs E req l w)"
  by (simp only: machine_runs_def funpow_add comp_apply)

lemma idle_forever:
  assumes api: "machine_api E V" and live: "machine_api_live E V" and placed: "pods_placed V w"
    and m: "mv_machines V w req = Some m" and settled: "settled_machine E V m w"
  shows "snapshot V (machine_runs E req k w) = snapshot V w \<and>
    fst (machine_Reconcile E req (machine_runs E req k w)) = Ret (\<lparr>Requeue = False\<rparr>, None)"
proof (induction k)
  case 0
  show ?case using run_idle [OF assms] by auto
next
  case (Suc k)
  have at: "pods_placed V v \<and> mv_machines V v req = Some m \<and> settled_machine E V m v"
    if "snapshot V v = snapshot V w" for v
    using placed m settled that by (simp add: pods_placed_def settled_machine_def snapshot_def)
  have "snapshot V (machine_runs E req (Suc k) w) = snapshot V w"
    using run_idle [OF api live, of "machine_runs E req k w" req m] at [of "machine_runs E req k w"] Suc by auto
  with run_idle [OF api live, of "machine_runs E req (Suc k) w" req m] at [of "machine_runs E req (Suc k) w"]
  show ?case by auto
qed

text \<open>Counting counted entries changes nothing, and after one run no entry is missing.\<close>

lemma counted_again:
  assumes m': "m_Meta m' = m_Meta m" "m_Spec m' = m_Spec m" and avail: "avail m' = counted_all E m ps ns"
  shows "counted_all E m' ps ns = avail m'"
proof -
  have names: "am_Name (counted E g d ps ns am) = am_Name am" for g d am by (simp add: counted_def Let_def)
  have twice: "counted E g d ps ns (counted E g d ps ns am) = counted E g d ps ns am" for g d am
    by (simp add: counted_def Let_def)
  have covered: "mt_Name ` set (ms_MachineTypes (m_Spec m)) \<subseteq> set (map am_Name (withMissingEntries m))"
    unfolding withMissing_eq by auto
  have ams: "map am_Name (avail m') = map am_Name (withMissingEntries m)"
    by (simp add: avail counted_all_def names comp_def)
  then have "am_Name ` set (avail m') = set (map am_Name (withMissingEntries m))" by (metis set_map)
  with covered have "filter (\<lambda>mt. mt_Name mt \<notin> am_Name ` set (avail m')) (ms_MachineTypes (m_Spec m')) = []"
    by (auto simp: filter_empty_conv m'(2))
  then have "withMissingEntries m' = avail m'"
    by (simp add: withMissingEntries_def appendAvailable_eq availableMap Let_def)
  moreover have "desiredMachineTypeNum m' = desiredMachineTypeNum m"
    by (simp add: desiredMachineTypeNum_def fun_eq_iff m'(2))
  ultimately show ?thesis
    by (simp add: counted_all_def [of E m'] avail m'(1)) (simp add: counted_all_def twice)
qed

text \<open>Two runs bring everything to rest.\<close>

lemma two_machine_runs:
  assumes api: "machine_api E V" and placed: "pods_placed V w"
    and m: "mv_machines V w req = Some m" and key: "ObjectKeyFromMeta (m_Meta m) = req"
    and dist: "distinct (map mt_Name (ms_MachineTypes (m_Spec m)))"
    and ok1: "fst (machine_Reconcile E req w) = Ret (\<lparr>Requeue = False\<rparr>, None)"
    and ok2: "fst (machine_Reconcile E req (machine_runs E req 1 w)) = Ret (\<lparr>Requeue = False\<rparr>, None)"
  obtains m' where "mv_machines V (machine_runs E req 2 w) req = Some m'"
    and "m_Meta m' = m_Meta m" and "m_Spec m' = m_Spec m"
    and "avail m' = counted_all E m (mv_pods V w) (mv_nss V w)"
    and "settled_machine E V m' (machine_runs E req 2 w)" and "pods_placed V (machine_runs E req 2 w)"
    and "mv_pods V (machine_runs E req 2 w) = mv_pods V w"
    and "pool_sound m (mv_pools V w) \<longrightarrow> pool_sound m (mv_pools V (machine_runs E req 2 w))"
proof -
  let ?w1 = "machine_runs E req 1 w" and ?w2 = "machine_runs E req 2 w"
  have run1: "machine_Reconcile E req w = (Ret (\<lparr>Requeue = False\<rparr>, None), ?w1)"
    using ok1 by (simp add: prod_eq_iff)
  have run2: "machine_Reconcile E req ?w1 = (Ret (\<lparr>Requeue = False\<rparr>, None), ?w2)"
    using ok2 by (simp add: prod_eq_iff numeral_2_eq_2)
  obtain m1 where m1: "mv_machines V ?w1 req = Some m1" "m_Meta m1 = m_Meta m" "m_Spec m1 = m_Spec m"
    "avail m1 = counted_all E m (mv_pods V w) (mv_nss V w)"
    and pods1: "mv_pods V ?w1 = mv_pods V w" "mv_nss V ?w1 = mv_nss V w"
    and sound1: "pool_sound m (mv_pools V w) \<longrightarrow> pool_sound m (mv_pools V ?w1)"
    by (rule run_result [OF api dist m key run1])
  have dist1: "distinct (map mt_Name (ms_MachineTypes (m_Spec m1)))" using dist m1(3) by simp
  obtain m2 where m2: "mv_machines V ?w2 req = Some m2" "m_Meta m2 = m_Meta m1" "m_Spec m2 = m_Spec m1"
    "avail m2 = counted_all E m1 (mv_pods V ?w1) (mv_nss V ?w1)"
    and kept: "pool_kept E m1 (mv_pools V ?w2)"
      "\<forall>mt \<in> set (ms_MachineTypes (m_Spec m1)). sts_kept E m1 (mv_pods V ?w1) (mv_stss V ?w2) mt"
      "\<forall>mt \<in> set (ms_MachineTypes (m_Spec m1)). svc_kept E m1 (mv_svcs V ?w2) mt"
    and pods2: "mv_pods V ?w2 = mv_pods V ?w1" "mv_nss V ?w2 = mv_nss V ?w1"
    and sound2: "pool_sound m1 (mv_pools V ?w1) \<longrightarrow> pool_sound m1 (mv_pools V ?w2)"
    by (rule run_result [OF api dist1 m1(1) _ run2]) (use key m1(2) in simp)
  have again: "counted_all E m1 (mv_pods V ?w1) (mv_nss V ?w1) = avail m1"
    unfolding pods1 by (rule counted_again [OF m1(2-4)])
  then have same: "same_machine m1 m2" using m2(2-4) by (simp add: same_machine_def)
  have "counted_all E m2 (mv_pods V ?w2) (mv_nss V ?w2) = avail m2"
    unfolding pods2 by (rule counted_again [OF m2(2-4)])
  then have settled: "settled_machine E V m2 ?w2"
    using kept kept_cong [OF api same] m2(3) pods2 by (simp add: settled_machine_def)
  have pods: "mv_pods V ?w2 = mv_pods V w" using pods1 pods2 by simp
  have placed: "pods_placed V ?w2" using placed pods1 pods2 by (simp add: pods_placed_def)
  have "pool_sound m1 = pool_sound m" by (simp add: pool_sound_def fun_eq_iff m1(2))
  then show thesis
    using m2(1-3) m1(2-4) same settled placed pods sound1 sound2
    by (intro that [of m2]) (simp_all add: same_machine_def)
qed

text \<open>StatefulSets of other names stay as they are.\<close>

lemma runs_keep_stss:
  assumes api: "machine_api E V" and live: "machine_api_live E V" and placed: "pods_placed V w"
    and m: "mv_machines V w req = Some m" and key: "ObjectKeyFromMeta (m_Meta m) = req"
    and dist: "distinct (map mt_Name (ms_MachineTypes (m_Spec m)))"
    and ok1: "fst (machine_Reconcile E req w) = Ret (\<lparr>Requeue = False\<rparr>, None)"
    and ok2: "fst (machine_Reconcile E req (machine_runs E req 1 w)) = Ret (\<lparr>Requeue = False\<rparr>, None)"
    and other: "j \<notin> offered_keys E m"
  shows "mv_stss V (machine_runs E req k w) j = mv_stss V w j"
proof -
  let ?w1 = "machine_runs E req 1 w" and ?w2 = "machine_runs E req 2 w"
  have run1: "machine_Reconcile E req w = (Ret (\<lparr>Requeue = False\<rparr>, None), ?w1)"
    using ok1 by (simp add: prod_eq_iff)
  have run2: "machine_Reconcile E req ?w1 = (Ret (\<lparr>Requeue = False\<rparr>, None), ?w2)"
    using ok2 by (simp add: prod_eq_iff numeral_2_eq_2)
  obtain m1 where m1: "mv_machines V ?w1 req = Some m1" "m_Meta m1 = m_Meta m" "m_Spec m1 = m_Spec m"
    and s1: "mv_stss V ?w1 j = mv_stss V w j"
    by (rule run_result [OF api dist m key run1]) (use other in blast)
  have dist1: "distinct (map mt_Name (ms_MachineTypes (m_Spec m1)))" using dist m1(3) by simp
  have other1: "j \<notin> offered_keys E m1"
    using other m1(2,3) by (simp add: offered_keys_def in_node_pool_def)
  have key1: "ObjectKeyFromMeta (m_Meta m1) = req" using key m1(2) by simp
  have s2: "mv_stss V ?w2 j = mv_stss V ?w1 j"
    by (rule run_result [OF api dist1 m1(1) key1 run2]) (use other1 in blast)
  obtain m2 where "mv_machines V ?w2 req = Some m2" "settled_machine E V m2 ?w2" "pods_placed V ?w2"
    by (rule two_machine_runs [OF api placed m key dist ok1 ok2])
  then have rest: "mv_stss V (machine_runs E req (l + 2) w) = mv_stss V ?w2" for l
    using idle_forever [OF api live, of ?w2 req m2 l] unfolding machine_runs_add snapshot_def by simp
  consider "k = 0" | "k = 1" | l where "k = l + 2"
    by (metis add_2_eq_Suc' not0_implies_Suc One_nat_def)
  then show ?thesis using s1 s2 rest by cases simp_all
qed

lemma generated_replicas: "GenerateStatefulSet mt g n s = s \<Longrightarrow> sts_Replicas s = Some n"
proof -
  assume "GenerateStatefulSet mt g n s = s"
  moreover have "sts_Replicas (GenerateStatefulSet mt g n s) = Some n" by (simp add: GenerateStatefulSet_def Let_def)
  ultimately show ?thesis by metis
qed

end
