(* ===== verification/MachineConvergence.thy ===== *)
theory MachineConvergence
  imports MachineRest MachineProps
begin

text \<open>
  The Machine controller comes to rest: the property, and its witness, for which every run in
  the in-memory cluster is shown to succeed.
\<close>

text \<open>
  C11: the Machine controller comes to rest. In a cluster whose Pods and Namespaces do not change,
  against an API server that answers reads and writes and stores what is sent: once a Machine has been reconciled
  twice without error, its MachineNodePool, its StatefulSets and its Services are as the
  Machine wants them, the replicas computed from the counters that are stored, and the counters
  are those of the Pods. Every later run returns without error and without a requeue and
  changes no Machine, no pool, no StatefulSet and no Service. One run is not enough: it computes
  the replicas from the counters of the run before.
\<close>
theorem machine_comes_to_rest:
  assumes "machine_api E V" and "machine_api_live E V" and "pods_placed V w"
    and "mv_machines V w req = Some m" and "ObjectKeyFromMeta (m_Meta m) = req"
    and "distinct (map mt_Name (ms_MachineTypes (m_Spec m)))"
    and "fst (machine_Reconcile E req w) = Ret (\<lparr>Requeue = False\<rparr>, None)"
    and "fst (machine_Reconcile E req (machine_runs E req 1 w)) = Ret (\<lparr>Requeue = False\<rparr>, None)"
  shows "\<exists>m'. mv_machines V (machine_runs E req 2 w) req = Some m' \<and>
    m_Meta m' = m_Meta m \<and> m_Spec m' = m_Spec m \<and>
    avail m' = counted_all E m (mv_pods V w) (mv_nss V w) \<and>
    settled_machine E V m' (machine_runs E req 2 w) \<and>
    (\<forall>k. snapshot V (machine_runs E req (k + 2) w) = snapshot V (machine_runs E req 2 w) \<and>
         fst (machine_Reconcile E req (machine_runs E req (k + 2) w)) = Ret (\<lparr>Requeue = False\<rparr>, None))"
proof -
  obtain m' where m': "mv_machines V (machine_runs E req 2 w) req = Some m'" "m_Meta m' = m_Meta m" "m_Spec m' = m_Spec m"
      "avail m' = counted_all E m (mv_pods V w) (mv_nss V w)"
    and settled: "settled_machine E V m' (machine_runs E req 2 w)" and placed: "pods_placed V (machine_runs E req 2 w)"
    by (rule two_machine_runs [OF assms(1,3-8)])
  then show ?thesis
    using idle_forever [OF assms(1,2) placed m'(1) settled] unfolding machine_runs_add by blast
qed

subsection \<open>The in-memory cluster\<close>

text \<open>No call of that cluster fails.\<close>

definition mem_views :: "cluster machine_views" where
  "mem_views = \<lparr>mv_machines = (\<lambda>w. map_of (cl_machines w)), mv_pools = mem_pools, mv_stss = cl_sts, mv_svcs = cl_svc,
     mv_pods = cl_pods, mv_nss = cl_namespaces\<rparr>"

lemma mem_views_sel [simp]:
  "mv_machines mem_views = (\<lambda>w. map_of (cl_machines w))" "mv_pools mem_views = mem_pools" "mv_stss mem_views = cl_sts"
  "mv_svcs mem_views = cl_svc" "mv_pods mem_views = cl_pods" "mv_nss mem_views = cl_namespaces"
  by (simp_all add: mem_views_def)

lemma mem_calls_separate: "calls_separate ex_menv mem_views"
proof -
  have cong: "snapshot mem_views w = snapshot mem_views w'"
    if "cl_machines w = cl_machines w'" "cl_pools w = cl_pools w'" "cl_sts w = cl_sts w'" "cl_svc w = cl_svc w'"
      "cl_pods w = cl_pods w'" "cl_namespaces w = cl_namespaces w'" for w w'
    using that by (simp add: snapshot_def)
  have upd: "preserves view (mem_upsert key store put x f)"
    if "\<forall>y. preserves (snapshot mem_views) (f y)" "\<And>w w'. snapshot mem_views w = snapshot mem_views w' \<Longrightarrow> view w = view w'"
      "\<And>k x w. view (put k x w) = view w"
    for view :: "cluster \<Rightarrow> 'v" and key store put x f
    by (rule mem_upsert_preserves, rule that(3))
      (use that(1) in \<open>auto simp: preserves_def intro: that(2)\<close>)
  have parts: "snapshot mem_views w = snapshot mem_views w' \<Longrightarrow>
      but_pools mem_views w = but_pools mem_views w' \<and> but_stss mem_views w = but_stss mem_views w' \<and>
      but_svcs mem_views w = but_svcs mem_views w'" for w w'
    by (simp add: views_defs)
  have "preserves (snapshot mem_views) mem_now" "snapshot mem_views (mem_event s w) = snapshot mem_views w" for s w
    by (auto simp: preserves_def mem_now_def mem_event_def intro: cong)
  moreover have "preserves (snapshot mem_views) (Get_Machine ex_menv k)" for k by (simp add: preserves_def)
  moreover have "preserves (but_machines mem_views) (mem_write_machine m)" for m
    by (simp add: preserves_def mem_write_machine_def but_machines_def)
  moreover have "preserves (but_pools mem_views) (CreateOrUpdate_Pool ex_menv x f)"
    if "\<forall>y. preserves (snapshot mem_views) (f y)" for x f
    unfolding mem_mach_env_sel
    by (rule upd [OF that]) (use parts in blast, simp add: but_pools_def)
  moreover have "preserves (but_stss mem_views) (CreateOrUpdate_Sts ex_menv x f)"
    if "\<forall>y. preserves (snapshot mem_views) (f y)" for x f
    unfolding mem_mach_env_sel
    by (rule upd [OF that]) (use parts in blast, simp add: but_stss_def)
  moreover have "preserves (but_svcs mem_views) (CreateOrUpdate_Svc ex_menv x f)"
    if "\<forall>y. preserves (snapshot mem_views) (f y)" for x f
    unfolding mem_mach_env_sel
    by (rule upd [OF that]) (use parts in blast, simp add: but_svcs_def)
  ultimately show ?thesis
    unfolding calls_separate_def by (simp add: mem_preserves(3,4) del: split_paired_All mem_mach_env_sel(11-13))
qed

lemma mem_machine_api: "machine_api ex_menv mem_views"
  unfolding machine_api_def
  by (intro conjI allI impI)
    (auto simp: mem_pool_stage_laws mem_sts_stage_laws mem_svc_stage_laws mem_status_laws mem_machine_store_laws
      mem_calls_separate mem_write_machine_def mem_set_owner_def mem_get_def Let_def fun_eq_iff)

lemma mem_upserts_answer: "upserts_answer key (mem_upsert key store put) store"
  by (auto simp: upserts_answer_def mem_upsert_def split: prod.split sum.split)

lemma mem_machine_api_live: "machine_api_live ex_menv mem_views"
  by (simp add: machine_api_live_def mem_upserts_answer mem_list_pods_def mem_get_namespace_def)

lemma mem_upsert_stage_runs:
  assumes "\<And>x. \<exists>y. fst (f x w) = Inr y"
  shows "\<exists>m' w'. atry (abind (acall (mem_upsert key store put obj f)) (\<lambda>r. aret (with_machine wrap m r)))
      (\<lambda>res. updateReconcileConditions ex_menv res m) w = (Ret (Inr m'), w')"
proof -
  have "\<exists>y. fst (f (case store w (key obj) of None \<Rightarrow> obj | Some stored \<Rightarrow> stored) w) = Inr y" by (rule assms)
  then obtain res where "fst (mem_upsert key store put obj f w) = Inr res"
    using mem_upserts_answer [unfolded upserts_answer_def, rule_format, where store = store] by blast
  then show ?thesis
    using mem_conditions [of res m] by (simp add: act_simps with_machine_def)
qed

lemma mem_sts_stage_runs: "\<exists>m' w'. reconcileStatefulSet ex_menv m w = (Ret (Inr m'), w')"
proof -
  have mutate: "\<exists>y. fst (mutate_sts ex_menv m g mt u x w) = Inr y" for m g mt u x w
    by (simp add: mutate_sts_def getUnscheduledPodNum_def mem_list_pods_def mem_set_owner_def Let_def)
  have step: "\<exists>m' w'. reconcileStatefulSet_step ex_menv g types mt m w = (Ret (Inr m'), w')" for g types mt m w
    unfolding reconcileStatefulSet_step_def Let_def mem_mach_env_sel
    using mem_upsert_stage_runs [OF mutate] by (auto simp: act_simps split: option.split)
  have "\<exists>m' w'. reconcileStatefulSet_loop ex_menv g types mts m w = (Ret (Inr m'), w') \<and> True" for g types mts
    by (rule sts_loop.loop_returns) (use step in simp_all)
  then show ?thesis by (simp add: reconcileStatefulSet_def)
qed

lemma mem_svc_stage_runs: "\<exists>m' w'. reconcileService ex_menv m w = (Ret (Inr m'), w')"
proof -
  have mutate: "\<exists>y. fst ((\<lambda>s w. (mutate_svc ex_menv m g t s, w)) x w) = Inr y" for m g t x and w :: cluster
    by (simp add: mutate_svc_def mem_set_owner_def Let_def)
  have step: "\<exists>m' w'. reconcileService_step ex_menv g mt m w = (Ret (Inr m'), w')" for g mt m w
    unfolding reconcileService_step_def Let_def mem_mach_env_sel
    using mem_upsert_stage_runs [OF mutate] by (auto simp: act_simps split: option.split)
  have "\<exists>m' w'. reconcileService_loop ex_menv g mts m w = (Ret (Inr m'), w') \<and> True" for g mts
    by (rule svc_loop.loop_returns) (use step in simp_all)
  then show ?thesis by (simp add: reconcileService_def)
qed

lemma mem_status_runs:
  assumes "pods_placed mem_views w"
  shows "fst (updateStatus ex_menv m w) = Ret (\<lparr>Requeue = False\<rparr>, None)"
proof -
  let ?I = "\<lambda>v. pods_placed mem_views v"
  have "\<exists>s w'. updateStatus_step ex_menv g d am written v = (Ret (Inr s), w') \<and> ?I w'" if "?I v" for g d am written v
    using entry_answers [OF mem_machine_api mem_machine_api_live that, of g d am] that
    by (auto simp: updateStatus_step_def act_simps pods_placed_def snapshot_def)
  from status_entries.loop_returns [where I = ?I, OF assms this]
  obtain ams w' where "updateStatus_loop ex_menv (machine_group m) (desiredMachineTypeNum m) (withMissingEntries m) [] w
      = (Ret (Inr ams), w')"
    by blast
  then show ?thesis
    by (simp add: updateStatus_def act_simps Let_def updateReconcileSuccessStatus_def with_machine_def mem_write_machine_def)
qed

text \<open>So every run there succeeds.\<close>

lemma mem_run_succeeds:
  assumes m: "map_of (cl_machines w) req = Some m" and placed: "pods_placed mem_views w"
  shows "fst (machine_Reconcile ex_menv req w) = Ret (\<lparr>Requeue = False\<rparr>, None)"
proof -
  obtain m1 w1 where 1: "reconcileMachineNodePool ex_menv m w = (Ret (Inr m1), w1)" using mem_pool_stage_runs by blast
  obtain m2 w2 where 2: "reconcileStatefulSet ex_menv m1 w1 = (Ret (Inr m2), w2)" using mem_sts_stage_runs by blast
  obtain m3 w3 where 3: "reconcileService ex_menv m2 w2 = (Ret (Inr m3), w3)" using mem_svc_stage_runs by blast
  note frames = stage_frames [OF mem_machine_api]
  have "(cl_pods w3, cl_namespaces w3) = (cl_pods w, cl_namespaces w)"
    using preservesD [OF frames(1), of m w] preservesD [OF frames(2), of m1 w1] preservesD [OF frames(3), of m2 w2] 1 2 3
    by simp
  then have "pods_placed mem_views w3" using placed by (simp add: pods_placed_def)
  from mem_status_runs [OF this, of m3]
  have "fst (machine_reconcile ex_menv m w) = Ret (\<lparr>Requeue = False\<rparr>, None)"
    unfolding machine_reconcile_def
      stage_run [where a = "reconcileMachineNodePool ex_menv m", OF 1]
      stage_run [where a = "reconcileStatefulSet ex_menv m1", OF 2]
      stage_run [where a = "reconcileService ex_menv m2", OF 3] .
  then show ?thesis
    using m by (simp add: machine_Reconcile_def act_simps mem_get_def)
qed

text \<open>Two runs in the example cluster.\<close>

lemma ex_replica: "stsReplica \<lparr>Maximum = 3, Reserved = 0, Used = 1, Waiting = 0\<rparr> 0 = 2"
  by (simp add: stsReplica_def lt0_def Let_def)

lemma mem_run_keeps:
  assumes m: "map_of (cl_machines w) req = Some m" and placed: "pods_placed mem_views w"
    and dist: "distinct (map mt_Name (ms_MachineTypes (m_Spec m)))" and key: "ObjectKeyFromMeta (m_Meta m) = req"
  shows "\<exists>m'. map_of (cl_machines (machine_runs ex_menv req 1 w)) req = Some m' \<and>
    m_Meta m' = m_Meta m \<and> m_Spec m' = m_Spec m \<and>
    pods_placed mem_views (machine_runs ex_menv req 1 w) \<and> cl_pods (machine_runs ex_menv req 1 w) = cl_pods w"
proof -
  have run: "machine_Reconcile ex_menv req w = (Ret (\<lparr>Requeue = False\<rparr>, None), machine_runs ex_menv req 1 w)"
    using mem_run_succeeds [OF m placed] by (simp add: prod_eq_iff)
  have stored: "mv_machines mem_views w req = Some m" using m by simp
  show ?thesis
    by (rule run_result [OF mem_machine_api dist stored key run])
      (use placed in \<open>simp add: pods_placed_def\<close>)
qed

text \<open>What the properties about two runs ask for.\<close>

lemma mem_two_runs:
  assumes m: "map_of (cl_machines w) req = Some m" and placed: "pods_placed mem_views w"
    and dist: "distinct (map mt_Name (ms_MachineTypes (m_Spec m)))" and key: "ObjectKeyFromMeta (m_Meta m) = req"
  shows "fst (machine_Reconcile ex_menv req w) = Ret (\<lparr>Requeue = False\<rparr>, None)"
    and "fst (machine_Reconcile ex_menv req (machine_runs ex_menv req 1 w)) = Ret (\<lparr>Requeue = False\<rparr>, None)"
    and "cl_pods (machine_runs ex_menv req 2 w) = cl_pods w"
proof -
  let ?w1 = "machine_runs ex_menv req 1 w"
  obtain m1 where m1: "map_of (cl_machines ?w1) req = Some m1" "m_Meta m1 = m_Meta m" "m_Spec m1 = m_Spec m"
    and placed1: "pods_placed mem_views ?w1" and pods1: "cl_pods ?w1 = cl_pods w"
    using mem_run_keeps [OF m placed dist key] by blast
  have w2: "machine_runs ex_menv req 2 w = machine_runs ex_menv req 1 ?w1" by (simp add: numeral_2_eq_2)
  show "cl_pods (machine_runs ex_menv req 2 w) = cl_pods w"
    unfolding w2 using mem_run_keeps [OF m1(1) placed1] dist key m1(2,3) pods1 by metis
  show "fst (machine_Reconcile ex_menv req w) = Ret (\<lparr>Requeue = False\<rparr>, None)"
    by (rule mem_run_succeeds [OF m placed])
  show "fst (machine_Reconcile ex_menv req ?w1) = Ret (\<lparr>Requeue = False\<rparr>, None)"
    by (rule mem_run_succeeds [OF m1(1) placed1])
qed

lemma ex_start:
  "pods_placed mem_views ex_world" "mv_machines mem_views ex_world ([], ''m'') = Some ex_machine"
  "ObjectKeyFromMeta (m_Meta ex_machine) = ([], ''m'')" "distinct (map mt_Name (ms_MachineTypes (m_Spec ex_machine)))"
  by (simp_all add: pods_placed_def) (simp add: ex_world_def guest_pod_def)

lemmas ex_two_runs = ex_start mem_two_runs [OF ex_start(2) [unfolded mem_views_sel] ex_start(1,4,3)]

lemma ex_unscheduled: "filter (unscheduled_at ex_menv) (reservation_pods ex_menv ''team'' ''a100'' (cl_pods ex_world)) = []"
  by (simp add: reservation_pods_def ex_world_def guest_pod_def unscheduled_at_def)

theorem machine_comes_to_rest_witness:
  "\<exists>s. sts_Replicas s = Some 2 \<and>
     (\<forall>k. cl_sts (machine_runs ex_menv ([], ''m'') (k + 2) ex_world) (''imperator-system'', ''team-a100'') = Some s)"
proof -
  let ?req = "([], ''m'') :: ObjectKey"
  let ?w2 = "machine_runs ex_menv ?req 2 ex_world"
  let ?ams = "[\<lparr>am_Name = ''a100'', am_Usage = \<lparr>Maximum = 3, Reserved = 0, Used = 1, Waiting = 0\<rparr>\<rparr>]"
  have counted: "counted_all ex_menv ex_machine (mv_pods mem_views ex_world) (mv_nss mem_views ex_world) = ?ams"
    unfolding counted_all_def mem_views_sel ex_machine_sel(1) by (rule ex_counted)
  obtain m' where m': "m_Meta m' = m_Meta ex_machine" "m_Spec m' = m_Spec ex_machine" "avail m' = ?ams"
    and settled: "settled_machine ex_menv mem_views m' ?w2"
    and rest: "\<And>k. snapshot mem_views (machine_runs ex_menv ?req (k + 2) ex_world) = snapshot mem_views ?w2"
    using machine_comes_to_rest [OF mem_machine_api mem_machine_api_live ex_two_runs(1-6)] unfolding counted by blast
  have "sts_kept ex_menv m' (cl_pods ?w2) (cl_sts ?w2) ex_type"
    using settled m'(2) by (simp add: settled_machine_def)
  moreover have "in_node_pool m' ''a100''" "machine_group m' = ''team''"
    using m'(1,2) ex_machine_sel(1) ex_machine_sel(5) [of "''a100''"] by (simp_all add: in_node_pool_def)
  moreover have "unscheduled_num ex_menv ''team'' ''a100'' (cl_pods ?w2) = 0"
    unfolding ex_two_runs(7) unscheduled_num_def ex_unscheduled by simp
  ultimately obtain s where s: "cl_sts ?w2 (''imperator-system'', ''team-a100'') = Some s"
    and gen: "GenerateStatefulSet ex_type ''team'' (stsReplica \<lparr>Maximum = 3, Reserved = 0, Used = 1, Waiting = 0\<rparr> 0) s = s"
    using m'(3) by (auto simp: sts_kept_def reservation_key_def ImperatorCoreNamespace_def
        getEnvVarOrDefault_def GenerateReservationResourceName_def)
  have "sts_Replicas s = Some 2" using generated_replicas [OF gen] by (simp add: ex_replica)
  moreover have "cl_sts (machine_runs ex_menv ?req (k + 2) ex_world) = cl_sts ?w2" for k
    using rest [of k] by (simp only: snapshot_def mem_views_sel prod.inject)
  ultimately show ?thesis using s by auto
qed

end
