(* ===== verification/SystemConvergence.thy ===== *)
theory SystemConvergence
  imports Admission Scheduling MachineConvergence
begin

text \<open>
  The two controllers on one Machine: both write the group's MachineNodePool. Each brings its own
  part to rest, and together they stay there, in whatever order their runs come.
\<close>

subsection \<open>One API server for both controllers\<close>

text \<open>
  \<open>SetControllerReference\<close> does not look at finalizers. The Machine controller's calls change no
  Node; the pool controller's calls change nothing but pools and Nodes.
\<close>

definition owner_ignores_finalizers :: "('w, 'x) mach_env_scheme \<Rightarrow> bool" where
  "owner_ignores_finalizers E \<longleftrightarrow>
     (\<forall>m meta meta' fs. SetControllerReference E m meta = Inr meta' \<longrightarrow>
        SetControllerReference E m (meta\<lparr>Finalizers := fs\<rparr>) = Inr (meta'\<lparr>Finalizers := fs\<rparr>))"

definition cluster_api ::
    "('w, 'x) mach_env_scheme \<Rightarrow> ('w, 'y) pool_env_scheme \<Rightarrow> 'w machine_views \<Rightarrow> ('w \<Rightarrow> string \<rightharpoonup> Node) \<Rightarrow> bool" where
  "cluster_api E P V nodes \<longleftrightarrow>
     machine_api E V \<and> machine_api_live E V \<and> owner_ignores_finalizers E \<and> mach_keeps E nodes \<and>
     pool_store_api P (mv_pools V) nodes \<and> node_api_total P nodes \<and> cmp_laws P \<and> finalizer_laws P \<and>
     pool_keeps P (but_pools V)"

lemma cluster_apiD:
  assumes "cluster_api E P V nodes"
  shows "machine_api E V" "machine_api_live E V" "owner_ignores_finalizers E" "mach_keeps E nodes"
    "pool_store_api P (mv_pools V) nodes" "node_api_total P nodes" "cmp_laws P" "finalizer_laws P"
    "pool_keeps P (but_pools V)"
  using assms unfolding cluster_api_def by blast+

lemma machine_runs_keep: "mach_keeps E view \<Longrightarrow> view (machine_runs E req k w) = view w"
  by (induction k) (simp_all add: preservesD [OF keeps_machine_Reconcile])

lemma pool_runs_keep: "pool_keeps P view \<Longrightarrow> view (pool_runs P key k w) = view w"
proof (induction k)
  case 0
  show ?case by (simp add: pool_runs_def)
next
  case (Suc k)
  then show ?case by (simp add: pool_runs_Suc preservesD [OF keeps_pool_Reconcile])
qed

subsection \<open>The pool between the controllers\<close>

text \<open>What the pool controller writes to a pool leaves it as the Machine wants it.\<close>

lemma edit_pool_fixed_cong:
  assumes "edit_pool m g p = p" and "p_Spec q = p_Spec p" and "Labels (p_Meta q) = Labels (p_Meta p)"
  shows "edit_pool m g q = q"
proof -
  have spec: "p_Spec (edit_pool m g p) = p_Spec p" and labels: "Labels (p_Meta (edit_pool m g p)) = Labels (p_Meta p)"
    using assms(1) by simp_all
  have "p_Spec (edit_pool m g q) = p_Spec q"
    using spec by (simp add: edit_pool_def Let_def assms(2))
  moreover have "Labels (p_Meta (edit_pool m g q)) = Labels (p_Meta q)"
    using labels unfolding edit_pool_sel(4) assms(3) .
  ultimately show ?thesis
    by (intro MachineNodePool.equality ObjectMeta.equality) (simp_all add: edit_pool_def Let_def)
qed

lemma settled_machine_pools:
  assumes law: "owner_ignores_finalizers E" and settled: "settled_machine E V m w"
    and same: "but_pools V w' = but_pools V w"
    and q: "mv_pools V w (group_pool_key (machine_group m)) = Some q"
    and q': "mv_pools V w' (group_pool_key (machine_group m)) = Some q'"
    and upd: "p_Spec q' = p_Spec q" "p_Meta q' = (p_Meta q)\<lparr>Finalizers := fs\<rparr>"
  shows "settled_machine E V m w'"
proof -
  have edit: "edit_pool m (machine_group m) q = q" and own: "SetControllerReference E m (p_Meta q) = Inr (p_Meta q)"
    using settled q by (auto simp: settled_machine_def pool_kept_def)
  have "edit_pool m (machine_group m) q' = q'"
    by (rule edit_pool_fixed_cong [OF edit]) (use upd in simp_all)
  moreover have "SetControllerReference E m (p_Meta q') = Inr (p_Meta q')"
    using law own unfolding owner_ignores_finalizers_def upd(2) by blast
  ultimately show ?thesis
    using settled same q' by (simp add: settled_machine_def pool_kept_def but_pools_def)
qed

text \<open>
  The pool of an admitted Machine is one the pool controller can bring to rest: the webhook's
  checks, and what it does not check.
\<close>

definition calm_machine :: "Machine \<Rightarrow> (string \<rightharpoonup> Node) \<Rightarrow> bool" where
  "calm_machine m ns \<longleftrightarrow>
     distinct (map np_Name (ms_NodePool (m_Spec m))) \<and>
     ''node-pool'' \<notin> mt_Name ` set (ms_MachineTypes (m_Spec m)) \<and>
     (\<forall>p \<in> set (ms_NodePool (m_Spec m)). \<not> np_Taint p \<and> ns (np_Name p) \<noteq> None)"

lemma admitted_pool_live:
  assumes admitted: "fst (ValidateAllOperation W m v) = Ret (Inr ())" and calm: "calm_machine m ns"
    and spec: "m_Spec m' = m_Spec m" and q: "edit_pool m' g q = q" and deleted: "DeletionTimestamp (p_Meta q) = None"
  shows "live_pool (p_Spec q) ns q"
proof -
  have edit: "edit_pool m g q = q"
    using q spec by (simp add: edit_pool_def)
  have entries: "entries q = ms_NodePool (m_Spec m)"
    using arg_cong [OF edit, of "\<lambda>p. mnp_NodePool (p_Spec p)"] by (simp add: edit_pool_sel(2))
  have "pool_wf (edit_pool m g q)"
    by (rule edit_pool_wf [OF admitted]) (use calm in \<open>simp_all add: calm_machine_def\<close>)
  then show ?thesis
    using calm deleted entries unfolding edit by (simp add: live_pool_def calm_machine_def)
qed

subsection \<open>Any order of runs\<close>

inductive controller_step ::
    "('w, 'x) mach_env_scheme \<Rightarrow> ('w, 'y) pool_env_scheme \<Rightarrow> ObjectKey \<Rightarrow> ObjectKey \<Rightarrow> 'w \<Rightarrow> 'w \<Rightarrow> bool"
  for E P req key where
  machine_turn: "controller_step E P req key w (snd (machine_Reconcile E req w))"
| pool_turn: "controller_step E P req key w (snd (pool_Reconcile P key w))"

text \<open>Both at rest: each controller finds nothing to do.\<close>

definition both_settled where
  "both_settled E P V nodes req m q w \<longleftrightarrow>
     mv_machines V w req = Some m \<and> settled_machine E V m w \<and> pods_placed V w \<and>
     mv_pools V w (group_pool_key (machine_group m)) = Some q \<and>
     ObjectKeyFromMeta (p_Meta q) = group_pool_key (machine_group m) \<and>
     settled_pool P (p_Spec q) (nodes w) q"

lemma both_settled_cong:
  assumes "snapshot V w' = snapshot V w" and "nodes w' = nodes w"
  shows "both_settled E P V nodes req m q w' \<longleftrightarrow> both_settled E P V nodes req m q w"
  using assms by (simp add: both_settled_def snapshot_def settled_machine_def pods_placed_def)

lemma both_idle:
  assumes api: "cluster_api E P V nodes" and rest: "both_settled E P V nodes req m q w"
  shows "\<exists>w'. machine_Reconcile E req w = (Ret (\<lparr>Requeue = False\<rparr>, None), w') \<and>
      snapshot V w' = snapshot V w \<and> nodes w' = nodes w"
    and "\<exists>w'. pool_Reconcile P (group_pool_key (machine_group m)) w = (Ret (\<lparr>Requeue = False\<rparr>, None), w') \<and>
      snapshot V w' = snapshot V w \<and> nodes w' = nodes w"
proof -
  note laws = cluster_apiD [OF api]
  have m: "mv_machines V w req = Some m" "settled_machine E V m w" "pods_placed V w"
    and q: "mv_pools V w (group_pool_key (machine_group m)) = Some q" "settled_pool P (p_Spec q) (nodes w) q"
      "ObjectKeyFromMeta (p_Meta q) = group_pool_key (machine_group m)"
    using rest by (simp_all add: both_settled_def)
  show "\<exists>w'. machine_Reconcile E req w = (Ret (\<lparr>Requeue = False\<rparr>, None), w') \<and>
      snapshot V w' = snapshot V w \<and> nodes w' = nodes w"
    using run_idle [OF laws(1,2) m(3,1,2)] preservesD [OF keeps_machine_Reconcile [OF laws(4)], of req w] by auto
  have "but_pools V (snd (pool_Reconcile P (group_pool_key (machine_group m)) w)) = but_pools V w"
    by (rule preservesD [OF keeps_pool_Reconcile [OF laws(9)]])
  with settled_stays [OF laws(5-8) q]
  show "\<exists>w'. pool_Reconcile P (group_pool_key (machine_group m)) w = (Ret (\<lparr>Requeue = False\<rparr>, None), w') \<and>
      snapshot V w' = snapshot V w \<and> nodes w' = nodes w"
    by (auto simp: views_defs)
qed

lemma both_stay:
  assumes api: "cluster_api E P V nodes" and rest: "both_settled E P V nodes req m q w"
    and steps: "(controller_step E P req (group_pool_key (machine_group m)))\<^sup>*\<^sup>* w w'"
  shows "snapshot V w' = snapshot V w \<and> nodes w' = nodes w"
  using steps
proof (induction rule: rtranclp_induct)
  case (step v v')
  have v: "both_settled E P V nodes req m q v"
    by (rule both_settled_cong [THEN iffD2, OF _ _ rest]) (use step.IH in simp_all)
  from step.hyps(2) have "snapshot V v' = snapshot V v \<and> nodes v' = nodes v"
  proof cases
    case machine_turn
    with both_idle(1) [OF api v] show ?thesis by auto
  next
    case pool_turn
    with both_idle(2) [OF api v] show ?thesis by auto
  qed
  with step.IH show ?case by simp
qed simp

subsection \<open>Coming to rest together\<close>

lemma both_come_to_rest:
  assumes api: "cluster_api E P V nodes" and admitted: "fst (ValidateAllOperation W m v) = Ret (Inr ())"
    and calm: "calm_machine m (nodes w)" and placed: "pods_placed V w"
    and m: "mv_machines V w req = Some m" and own_key: "ObjectKeyFromMeta (m_Meta m) = req"
    and sound: "pool_sound m (mv_pools V w)"
    and ok: "fst (machine_Reconcile E req w) = Ret (\<lparr>Requeue = False\<rparr>, None)"
      "fst (machine_Reconcile E req (machine_runs E req 1 w)) = Ret (\<lparr>Requeue = False\<rparr>, None)"
  shows "\<exists>m' q. m_Meta m' = m_Meta m \<and> m_Spec m' = m_Spec m \<and>
    both_settled E P V nodes req m' q
      (pool_runs P (group_pool_key (machine_group m)) 2 (machine_runs E req 2 w))"
proof -
  note laws = cluster_apiD [OF api]
  let ?k = "group_pool_key (machine_group m)"
  let ?w2 = "machine_runs E req 2 w" and ?w4 = "pool_runs P ?k 2 (machine_runs E req 2 w)"
  have "spec_valid (Quantity_Value W) (m_Spec m)" by (rule validate_specD [OF admitted])
  then have dist: "distinct (map mt_Name (ms_MachineTypes (m_Spec m)))" by (simp add: spec_valid_def)
  obtain m' where m': "mv_machines V ?w2 req = Some m'" "m_Meta m' = m_Meta m" "m_Spec m' = m_Spec m"
    and settled: "settled_machine E V m' ?w2" and placed2: "pods_placed V ?w2"
    and sound2: "pool_sound m (mv_pools V w) \<longrightarrow> pool_sound m (mv_pools V ?w2)"
    by (rule two_machine_runs [OF laws(1) placed m own_key dist ok])
  have g: "machine_group m' = machine_group m" using m'(2) by simp
  obtain q where q: "mv_pools V ?w2 ?k = Some q" "edit_pool m' (machine_group m) q = q"
    using settled by (auto simp: settled_machine_def pool_kept_def g)
  have qkey: "ObjectKeyFromMeta (p_Meta q) = ?k" and alive: "DeletionTimestamp (p_Meta q) = None"
    using sound2 sound q(1) by (simp_all add: pool_sound_def)
  have nodes2: "nodes ?w2 = nodes w" by (rule machine_runs_keep [OF laws(4)])
  have live: "live_pool (p_Spec q) (nodes ?w2) q"
    unfolding nodes2 by (rule admitted_pool_live [OF admitted calm m'(3) q(2) alive])
  obtain q' where q': "mv_pools V ?w4 = (mv_pools V ?w2)(?k \<mapsto> q')"
    and spool: "settled_pool P (p_Spec q) (nodes ?w4) q'"
    and meta: "p_Meta q' = (p_Meta q)\<lparr>Finalizers := Finalizers (p_Meta q')\<rparr>"
    using two_runs_settle [OF laws(5-8) q(1) live qkey] by blast
  have spec: "p_Spec q' = p_Spec q"
    using spool by (simp add: settled_pool_def guarded_pool_def live_pool_def)
  have but: "but_pools V ?w4 = but_pools V ?w2" by (rule pool_runs_keep [OF laws(9)])
  have "settled_machine E V m' ?w4"
    by (rule settled_machine_pools [OF laws(3) settled but _ _ spec meta]) (use q(1) q' in \<open>simp_all add: g\<close>)
  moreover have "ObjectKeyFromMeta (p_Meta q') = ?k"
    by (subst meta) (use qkey in \<open>simp add: ObjectKeyFromMeta_def\<close>)
  moreover have "mv_machines V ?w4 req = Some m'" "pods_placed V ?w4"
    using but m'(1) placed2 by (simp_all add: but_pools_def pods_placed_def)
  ultimately have "both_settled E P V nodes req m' q' ?w4"
    using q' spool spec by (simp add: both_settled_def g)
  with m'(2,3) show ?thesis by blast
qed

text \<open>
  C10: the controllers come to rest together. An admitted Machine (no Node listed twice, no
  machine type called "node-pool", no entry tainted, its Nodes present), in a cluster
  whose Pods and Namespaces do not change and whose API server does not fail: after two
  successful runs of the Machine controller and two runs of the pool controller on the group's
  pool, both controllers may run in any order and any number of times, and no Machine, pool,
  StatefulSet, Service or Node changes any more; every run returns without error and without a
  requeue. So the two writers of the pool never undo each other's work.
\<close>
theorem controllers_come_to_rest:
  assumes "cluster_api E P V nodes" and "fst (ValidateAllOperation W m v) = Ret (Inr ())"
    and "calm_machine m (nodes w)" and "pods_placed V w"
    and "mv_machines V w req = Some m" and "ObjectKeyFromMeta (m_Meta m) = req"
    and "pool_sound m (mv_pools V w)"
    and "fst (machine_Reconcile E req w) = Ret (\<lparr>Requeue = False\<rparr>, None)"
    and "fst (machine_Reconcile E req (machine_runs E req 1 w)) = Ret (\<lparr>Requeue = False\<rparr>, None)"
    and "key = group_pool_key (machine_group m)"
    and "w4 = pool_runs P key 2 (machine_runs E req 2 w)" and "(controller_step E P req key)\<^sup>*\<^sup>* w4 w'"
  shows "snapshot V w' = snapshot V w4 \<and> nodes w' = nodes w4 \<and>
    fst (machine_Reconcile E req w') = Ret (\<lparr>Requeue = False\<rparr>, None) \<and>
    fst (pool_Reconcile P key w') = Ret (\<lparr>Requeue = False\<rparr>, None) \<and>
    (\<exists>m' q. m_Spec m' = m_Spec m \<and> both_settled E P V nodes req m' q w')"
proof -
  obtain m' q where m': "m_Meta m' = m_Meta m" "m_Spec m' = m_Spec m"
    and rest: "both_settled E P V nodes req m' q w4"
    using both_come_to_rest [OF assms(1-9)] unfolding assms(10,11) by blast
  have key: "key = group_pool_key (machine_group m')" using assms(10) m'(1) by simp
  have same: "snapshot V w' = snapshot V w4 \<and> nodes w' = nodes w4"
    by (rule both_stay [OF assms(1) rest assms(12) [unfolded key]])
  have rest': "both_settled E P V nodes req m' q w'"
    by (rule both_settled_cong [THEN iffD2, OF _ _ rest]) (use same in simp_all)
  from both_idle [OF assms(1) rest'] same m'(2) rest' show ?thesis
    unfolding key by (metis fst_conv)
qed

subsection \<open>The in-memory cluster\<close>

definition ex_calm :: Machine where
  "ex_calm = ex_machine\<lparr>m_Spec := (m_Spec ex_machine)\<lparr>ms_NodePool := [\<lparr>np_Name = ''n1'', np_Mode = NodeModeReady,
     np_Taint = False, np_MachineType = [\<lparr>npmt_Name = ''a100''\<rparr>]\<rparr>]\<rparr>\<rparr>"

definition ex_calm_world :: cluster where
  "ex_calm_world = ex_full_world\<lparr>cl_machines := [(([], ''m''), ex_calm)]\<rparr>"

lemma mem_cluster_api: "cluster_api ex_menv ex_env mem_views mem_nodes"
proof -
  have "owner_ignores_finalizers ex_menv"
    by (simp add: owner_ignores_finalizers_def mem_set_owner_def Let_def)
  moreover have "mach_keeps ex_menv mem_nodes"
  proof -
    have "mach_keeps (ex_menv\<lparr>StatusUpdate_Machine := mem_write_machine\<rparr>) mem_nodes"
      by (rule mem_mach_keeps_view)
        (simp_all add: mem_nodes_pools preserves_def mem_write_machine_def, simp_all add: mem_nodes_def fun_eq_iff)
    moreover have "ex_menv\<lparr>StatusUpdate_Machine := mem_write_machine\<rparr> = ex_menv"
      by (rule mach_env.equality) simp_all
    ultimately show ?thesis by simp
  qed
  moreover have "pool_keeps ex_env (but_pools mem_views)"
    by (auto simp: pool_keeps_def preserves_def but_pools_def mem_now_def mem_event_def mem_update_pool_def
        mem_status_pool_def mem_get_node_def mem_update_node_def Let_def split: option.split)
  moreover have "pool_store_api ex_env (mv_pools mem_views) mem_nodes"
    using mem_pool_store_api by simp
  ultimately show ?thesis
    unfolding cluster_api_def
    using mem_machine_api mem_machine_api_live mem_node_api mem_cmp_laws mem_finalizer_laws by blast
qed

lemma ex_calm_sel [simp]:
  "m_Meta ex_calm = m_Meta ex_machine" "ms_MachineTypes (m_Spec ex_calm) = [ex_type]"
  "ms_NodePool (m_Spec ex_calm) = [\<lparr>np_Name = ''n1'', np_Mode = NodeModeReady, np_Taint = False,
     np_MachineType = [\<lparr>npmt_Name = ''a100''\<rparr>]\<rparr>]"
  by (simp_all add: ex_calm_def)

lemma ex_calm_admitted: "fst (ValidateAllOperation race_env ex_calm race_world) = Ret (Inr ())"
proof (rule validate_specI)
  show "Labels (m_Meta ex_calm) MachineGroupKey = Some ''team''" by (simp add: ex_machine_def)
  show "wh_List_Machines race_env [MachineGroupKey \<mapsto> ''team''] race_world = (Inr [], race_world)"
    by (simp add: mem_list_machines_def race_world_def empty_cluster_def)
  show "wh_List_Nodes race_env race_world = (Inr [node_of ''n1'' Map.empty []], race_world)" by simp
qed (simp_all add: spec_valid_def ex_type_def gpu_valid_def)

theorem controllers_come_to_rest_witness:
  "\<exists>w4. \<forall>w'. (controller_step ex_menv ex_env ([], ''m'') ([], ''team-node-pool''))\<^sup>*\<^sup>* w4 w' \<longrightarrow>
     mem_nodes w' = mem_nodes w4 \<and> cl_sts w' = cl_sts w4 \<and>
     fst (pool_Reconcile ex_env ([], ''team-node-pool'') w') = Ret (\<lparr>Requeue = False\<rparr>, None)"
proof -
  let ?req = "([], ''m'') :: ObjectKey" and ?w = ex_calm_world
  have nodes: "mem_nodes ?w ''n1'' \<noteq> None"
    by (simp add: ex_calm_world_def ex_full_world_def mem_nodes_def)
  have calm: "calm_machine ex_calm (mem_nodes ?w)"
    using nodes by (simp add: calm_machine_def)
  have placed: "pods_placed mem_views ?w"
    by (simp add: pods_placed_def ex_calm_world_def ex_full_world_def ex_world_def guest_pod_def)
  have m: "map_of (cl_machines ?w) ?req = Some ex_calm" by (simp add: ex_calm_world_def)
  then have stored: "mv_machines mem_views ?w ?req = Some ex_calm" by simp
  have key: "ObjectKeyFromMeta (m_Meta ex_calm) = ?req" by simp
  have sound: "pool_sound ex_calm (mv_pools mem_views ?w)"
    by (simp add: pool_sound_def ex_calm_world_def ex_full_world_def ex_world_def empty_cluster_def)
  have dist: "distinct (map mt_Name (ms_MachineTypes (m_Spec ex_calm)))" by simp
  obtain m1 where m1: "map_of (cl_machines (machine_runs ex_menv ?req 1 ?w)) ?req = Some m1"
    and placed1: "pods_placed mem_views (machine_runs ex_menv ?req 1 ?w)"
    using mem_run_keeps [OF m placed dist key] by blast
  have pool: "([], ''team-node-pool'') = group_pool_key (machine_group ex_calm)"
    by (simp add: group_pool_key_def GenerateMachineNodePoolName_def)
  let ?w4 = "pool_runs ex_env ([], ''team-node-pool'') 2 (machine_runs ex_menv ?req 2 ?w)"
  have "mem_nodes w' = mem_nodes ?w4 \<and> cl_sts w' = cl_sts ?w4 \<and>
      fst (pool_Reconcile ex_env ([], ''team-node-pool'') w') = Ret (\<lparr>Requeue = False\<rparr>, None)"
    if steps: "(controller_step ex_menv ex_env ?req ([], ''team-node-pool''))\<^sup>*\<^sup>* ?w4 w'" for w'
  proof -
    note rest = controllers_come_to_rest [OF mem_cluster_api ex_calm_admitted calm placed stored key sound
      mem_run_succeeds [OF m placed] mem_run_succeeds [OF m1 placed1] pool refl steps]
    from rest have "snapshot mem_views w' = snapshot mem_views ?w4" by blast
    then have "cl_sts w' = cl_sts ?w4" by (simp only: snapshot_def mem_views_sel prod.inject)
    with rest show ?thesis by blast
  qed
  then show ?thesis by blast
qed

end
