(* ===== verification/Capacity.thy ===== *)
theory Capacity
  imports MachineConvergence InjectorProps
begin

text \<open>
  The capacity of a machine type once the Machine controller is at rest: reservations and guests
  together fill the maximum, at the width of the counters; and a machine type that is removed
  from its Machine keeps its reservations, which no guest can take.
\<close>

subsection \<open>The Pods that take machines\<close>

text \<open>
  Guests that run, are being created or wait for a Node, and reservations no Node has room for.
\<close>

definition taken ::
    "('w, 'x) mach_env_scheme \<Rightarrow> string \<Rightarrow> string \<Rightarrow> (string \<rightharpoonup> ObjectMeta) \<Rightarrow> Pod list \<Rightarrow> nat" where
  "taken E grp t ns ps =
     length (filter (\<lambda>p. occupies_at E p \<or> unscheduled_at E p) (guest_pods grp t ns ps)) +
     length (filter (unscheduled_at E) (reservation_pods E grp t ps))"

lemma length_filter_split:
  assumes "\<And>x. \<not> (P x \<and> Q x)"
  shows "length (filter P xs) + length (filter Q xs) = length (filter (\<lambda>x. P x \<or> Q x) xs)"
  using assms by (induction xs) auto

lemma taken_split:
  "taken E grp t ns ps = length (filter (occupies_at E) (guest_pods grp t ns ps)) +
     length (filter (unscheduled_at E) (guest_pods grp t ns ps)) +
     length (filter (unscheduled_at E) (reservation_pods E grp t ps))"
  unfolding taken_def
  by (subst length_filter_split [symmetric]) (auto simp: occupies_at_def unscheduled_at_def)

text \<open>The role label tells guests and reservations apart, so no Pod is counted twice.\<close>

lemma roles_apart:
  assumes "selects (role_labels PodRoleGuest grp t) ls"
  shows "\<not> selects (GenerateReservationResourceLabel grp t) ls"
proof
  assume "selects (GenerateReservationResourceLabel grp t) ls"
  then have "ls PodRoleKey = Some PodRoleReservation"
    by (auto simp: selects_def map_le_def GenerateReservationResourceLabel_def dest: bspec [where x = PodRoleKey])
  moreover have "ls PodRoleKey = Some PodRoleGuest"
    using assms by (auto simp: selects_def map_le_def role_labels_def key_defs dest: bspec [where x = PodRoleKey])
  ultimately show False by simp
qed

lemma taken_bound: "taken E grp t ns ps \<le> length ps"
proof -
  let ?G = "\<lambda>p. (occupies_at E p \<or> unscheduled_at E p) \<and>
    (\<exists>m. ns (Namespace (pod_Meta p)) = Some m \<and> injectionEnabled m) \<and>
    selects (role_labels PodRoleGuest grp t) (Labels (pod_Meta p))"
  let ?R = "\<lambda>p. unscheduled_at E p \<and>
    (ImperatorCoreNamespace (os_environ E) = [] \<or> Namespace (pod_Meta p) = ImperatorCoreNamespace (os_environ E)) \<and>
    selects (GenerateReservationResourceLabel grp t) (Labels (pod_Meta p))"
  have "taken E grp t ns ps = length (filter ?G ps) + length (filter ?R ps)"
    by (simp add: taken_def guest_pods_def role_pods_def reservation_pods_def conj_ac)
  also have "\<dots> = length (filter (\<lambda>p. ?G p \<or> ?R p) ps)"
    by (rule length_filter_split) (use roles_apart in blast)
  finally show ?thesis by simp
qed

subsection \<open>The counters at rest\<close>

lemma counted_usage:
  assumes "am \<in> set ams"
  shows "GetMachineTypeUsage (map (counted E grp d ps ns) ams) (am_Name am) = Some (am_Usage (counted E grp d ps ns am))"
  using assms by (induction ams) (auto simp: counted_def Let_def)

lemma counted_replica:
  assumes "length ps < 2 ^ 31" and "0 \<le> sint (d (am_Name am))"
  shows "sint (stsReplica (am_Usage (counted E grp d ps ns am)) (unscheduled_num E grp (am_Name am) ps)) +
      int (taken E grp (am_Name am) ns ps) =
    max (sint (d (am_Name am))) (int (taken E grp (am_Name am) ns ps))"
proof -
  let ?u = "am_Usage (counted E grp d ps ns am)" and ?n = "unscheduled_num E grp (am_Name am) ps"
  let ?g = "guest_pods grp (am_Name am) ns ps"
  have bound: "taken E grp (am_Name am) ns ps < 2 ^ 31"
    using taken_bound [of E grp "am_Name am" ns ps] assms(1) by simp
  then have small: "length (filter (occupies_at E) ?g) < 2 ^ 31" "length (filter (unscheduled_at E) ?g) < 2 ^ 31"
    "length (filter (unscheduled_at E) (reservation_pods E grp (am_Name am) ps)) < 2 ^ 31"
    by (simp_all add: taken_split)
  have sum: "usage_sum ?u ?n = int (taken E grp (am_Name am) ns ps)"
    by (simp add: usage_sum_def counted_def Let_def unscheduled_num_def taken_split sint_of_nat_small [OF small(1)]
        sint_of_nat_small [OF small(2)] sint_of_nat_small [OF small(3)])
  have "usage_ok ?u ?n"
    using assms(2) bound
    by (simp add: usage_ok_def sum)
      (simp add: counted_def Let_def unscheduled_num_def sint_of_nat_small [OF small(1)]
        sint_of_nat_small [OF small(2)] sint_of_nat_small [OF small(3)])
  moreover have "Maximum ?u = d (am_Name am)" by (simp add: counted_def Let_def)
  ultimately show ?thesis using stsReplica_exact [of ?u ?n] unfolding sum by simp
qed

text \<open>
  C12: capacity is conserved. Once a Machine has been reconciled twice without error, in a cluster
  whose Pods and Namespaces do not change, the StatefulSet of every machine type its node pool
  offers has a replica count that never changes again, and with it the counters neither lose
  nor double a machine: replicas, guests (running, being created or waiting) and reservations
  no Node has room for add up to the available number of the specification, and exceed it only
  by what the Pods that are there exceed it themselves. No counter overflows as long as there
  are fewer than 2^31 Pods.
\<close>
theorem capacity_conserved:
  assumes "machine_api E V" and "machine_api_live E V" and "pods_placed V w"
    and "mv_machines V w req = Some m" and "ObjectKeyFromMeta (m_Meta m) = req"
    and "distinct (map mt_Name (ms_MachineTypes (m_Spec m)))"
    and "fst (machine_Reconcile E req w) = Ret (\<lparr>Requeue = False\<rparr>, None)"
    and "fst (machine_Reconcile E req (machine_runs E req 1 w)) = Ret (\<lparr>Requeue = False\<rparr>, None)"
    and "mt \<in> set (ms_MachineTypes (m_Spec m))" and "in_node_pool m (mt_Name mt)"
    and "0 \<le> sint (mt_Available mt)" and "length (mv_pods V w) < 2 ^ 31"
  shows "\<exists>s n. sts_Replicas s = Some n \<and>
    (\<forall>k. mv_stss V (machine_runs E req (k + 2) w) (reservation_key E (machine_group m) (mt_Name mt)) = Some s) \<and>
    sint n + int (taken E (machine_group m) (mt_Name mt) (mv_nss V w) (mv_pods V w)) =
      max (sint (mt_Available mt)) (int (taken E (machine_group m) (mt_Name mt) (mv_nss V w) (mv_pods V w)))"
proof -
  let ?g = "machine_group m" and ?w2 = "machine_runs E req 2 w"
  obtain m' where m': "mv_machines V ?w2 req = Some m'" "m_Meta m' = m_Meta m" "m_Spec m' = m_Spec m"
      "avail m' = counted_all E m (mv_pods V w) (mv_nss V w)"
    and settled: "settled_machine E V m' ?w2" and placed: "pods_placed V ?w2"
    and pods: "mv_pods V ?w2 = mv_pods V w"
    by (rule two_machine_runs [OF assms(1,3-8)])
  obtain am where am: "am \<in> set (withMissingEntries m)" "am_Name am = mt_Name mt"
  proof -
    have "mt_Name mt \<in> set (map am_Name (withMissingEntries m))"
      unfolding withMissing_eq using assms(9) by auto
    then show thesis using that by auto
  qed
  let ?u = "am_Usage (counted E ?g (desiredMachineTypeNum m) (mv_pods V w) (mv_nss V w) am)"
  let ?n = "stsReplica ?u (unscheduled_num E ?g (mt_Name mt) (mv_pods V w))"
  have usage: "GetMachineTypeUsage (avail m') (mt_Name mt) = Some ?u"
    unfolding m'(4) counted_all_def am(2) [symmetric] by (rule counted_usage [OF am(1)])
  have "in_node_pool m' (mt_Name mt)" "machine_group m' = ?g" using assms(10) m'(2,3) by (simp_all add: in_node_pool_def)
  moreover have "sts_kept E m' (mv_pods V w) (mv_stss V ?w2) mt"
    using settled assms(9) m'(3) pods by (simp add: settled_machine_def)
  ultimately obtain s where s: "mv_stss V ?w2 (reservation_key E ?g (mt_Name mt)) = Some s"
      "GenerateStatefulSet mt ?g ?n s = s"
    using usage by (auto simp: sts_kept_def)
  have "mv_stss V (machine_runs E req (k + 2) w) = mv_stss V ?w2" for k
    using idle_forever [OF assms(1,2) placed m'(1) settled, of k] unfolding machine_runs_add snapshot_def by simp
  moreover have "desiredMachineTypeNum m (mt_Name mt) = mt_Available mt" by (rule desired_present [OF assms(6,9)])
  ultimately show ?thesis
    using s(1) generated_replicas [OF s(2)] assms(11)
      counted_replica [OF assms(12), where d = "desiredMachineTypeNum m" and am = am and E = E and grp = ?g and ns = "mv_nss V w"]
    by (intro exI [of _ s] exI [of _ ?n]) (simp add: am(2))
qed

lemma ex_taken: "taken ex_menv ''team'' ''a100'' (cl_namespaces ex_world) (cl_pods ex_world) = 1"
proof -
  have "guest_pods ''team'' ''a100'' (cl_namespaces ex_world) (cl_pods ex_world) = [guest_pod PodRunning]"
    unfolding guest_pods_def role_pods_def ex_role_pods by (simp add: guest_pod_def injectionEnabled_def zero_meta_def)
  moreover have "occupies_at ex_menv (guest_pod PodRunning)"
    by (simp add: occupies_at_def guest_pod_def zero_meta_def has_condition_def)
  ultimately show ?thesis unfolding taken_def ex_unscheduled by simp
qed

theorem capacity_conserved_witness:
  "\<exists>s. sts_Replicas s = Some 2 \<and>
     (\<forall>k. cl_sts (machine_runs ex_menv ([], ''m'') (k + 2) ex_world) (''imperator-system'', ''team-a100'') = Some s)"
proof -
  have available: "mt_Available ex_type = 3" by (simp add: ex_type_def)
  have "ex_type \<in> set (ms_MachineTypes (m_Spec ex_machine))" "in_node_pool ex_machine (mt_Name ex_type)"
    "0 \<le> sint (mt_Available ex_type)" "length (mv_pods mem_views ex_world) < 2 ^ 31"
    by (simp_all add: available) (simp add: ex_world_def)
  from capacity_conserved [OF mem_machine_api mem_machine_api_live ex_two_runs(1-6) this]
  obtain s n where s: "sts_Replicas s = Some n"
      "\<forall>k. cl_sts (machine_runs ex_menv ([], ''m'') (k + 2) ex_world) (reservation_key ex_menv ''team'' ''a100'') = Some s"
    and n: "sint n + 1 = 3"
    unfolding ex_machine_sel(1,4) mem_views_sel ex_taken available by auto
  have "sint n = sint (2 :: int32)" using n by simp
  then have "n = 2" by (rule signed_word_eqI)
  with s show ?thesis
    by (auto simp: reservation_key_def ImperatorCoreNamespace_def getEnvVarOrDefault_def
        GenerateReservationResourceName_def)
qed

subsection \<open>Machine types that are gone\<close>

text \<open>
  C21: a machine type that is removed leaks its reservations. However often the Machine is
  reconciled, the StatefulSet of a type that no entry of the node pool names any more stays as
  it was, replicas included, and the status keeps the entry of the type with the reservations
  that still run counted as reserved. When the type has left the specification too, the
  maximum of that entry is zero, and every guest of the type is refused, whatever the counters
  say, as long as the Machine is the first of its group.
\<close>
theorem removed_type_leaks:
  assumes "machine_api E V" and "machine_api_live E V" and "pods_placed V w"
    and "mv_machines V w req = Some m" and "ObjectKeyFromMeta (m_Meta m) = req"
    and "distinct (map mt_Name (ms_MachineTypes (m_Spec m)))"
    and "fst (machine_Reconcile E req w) = Ret (\<lparr>Requeue = False\<rparr>, None)"
    and "fst (machine_Reconcile E req (machine_runs E req 1 w)) = Ret (\<lparr>Requeue = False\<rparr>, None)"
    and "\<not> in_node_pool m t" and "t \<in> am_Name ` set (avail m)"
  shows "(\<forall>k. mv_stss V (machine_runs E req k w) (reservation_key E (machine_group m) t) =
      mv_stss V w (reservation_key E (machine_group m) t)) \<and>
    (\<exists>m' u. mv_machines V (machine_runs E req 2 w) req = Some m' \<and>
      GetMachineTypeUsage (avail m') t = Some u \<and>
      Reserved u = of_nat (length (filter occupies (role_pods PodRoleReservation (machine_group m) t (mv_pods V w)))) \<and>
      (t \<notin> mt_Name ` set (ms_MachineTypes (m_Spec m)) \<longrightarrow> Maximum u = 0 \<and>
        (\<forall>I pod v ms. fst (inj_List_Machines I [MachineGroupKey \<mapsto> pod_group pod] v) = Inr (m' # ms) \<longrightarrow>
          pod_type pod = t \<longrightarrow> (\<exists>e. fst (injectToPod (I :: 'v injector_env) pod v) = Ret (Inl e)))))"
proof -
  let ?g = "machine_group m"
  have "reservation_key E ?g t \<notin> offered_keys E m"
    using assms(9) by (auto simp: offered_keys_def reservation_key_def GenerateReservationResourceName_def)
  note kept = runs_keep_stss [OF assms(1-8) this]
  obtain m' where m': "mv_machines V (machine_runs E req 2 w) req = Some m'" "m_Meta m' = m_Meta m" "m_Spec m' = m_Spec m"
      "avail m' = counted_all E m (mv_pods V w) (mv_nss V w)"
    by (rule two_machine_runs [OF assms(1,3-8)])
  obtain am where am: "am \<in> set (withMissingEntries m)" "am_Name am = t"
    using assms(10) by (auto simp: withMissingEntries_def appendAvailable_eq availableMap Let_def)
  let ?u = "am_Usage (counted E ?g (desiredMachineTypeNum m) (mv_pods V w) (mv_nss V w) am)"
  have "GetMachineTypeUsage (avail m') t = Some ?u"
    unfolding m'(4) counted_all_def am(2) [symmetric] by (rule counted_usage [OF am(1)])
  moreover have "Reserved ?u = of_nat (length (filter occupies (role_pods PodRoleReservation ?g t (mv_pods V w))))"
    by (simp add: counted_def Let_def am(2))
  moreover have "Maximum ?u = 0" if "t \<notin> mt_Name ` set (ms_MachineTypes (m_Spec m))"
    by (simp add: counted_def Let_def am(2) desired_absent [OF that])
  moreover have "\<exists>e. fst (injectToPod I pod v) = Ret (Inl e)"
    if gone: "t \<notin> mt_Name ` set (ms_MachineTypes (m_Spec m))"
      and list: "fst (inj_List_Machines I [MachineGroupKey \<mapsto> pod_group pod] v) = Inr (m' # ms)" "pod_type pod = t"
    for I :: "'v injector_env" and pod v ms
  proof -
    have "offered I pod v = None" using gone list m'(3) by (simp add: offered_def)
    then show ?thesis using injectToPod_offered [of I pod v] by simp
  qed
  ultimately show ?thesis using kept m'(1) by blast
qed

text \<open>A Machine that had the machine type v100, and the StatefulSet left of it.\<close>

definition ex_shrunk :: Machine where
  "ex_shrunk = ex_machine\<lparr>m_Status := \<lparr>mst_Conditions = [], mst_AvailableMachines =
     [\<lparr>am_Name = ''v100'', am_Usage = \<lparr>Maximum = 2, Reserved = 2, Used = 0, Waiting = 0\<rparr>\<rparr>]\<rparr>\<rparr>"

definition ex_left :: StatefulSet where
  "ex_left = (new_sts ''imperator-system'' ''team-v100'')\<lparr>sts_Replicas := Some 2\<rparr>"

definition ex_shrunk_world :: cluster where
  "ex_shrunk_world = ex_world\<lparr>cl_machines := [(([], ''m''), ex_shrunk)],
     cl_sts := [(''imperator-system'', ''team-v100'') \<mapsto> ex_left]\<rparr>"

theorem removed_type_leaks_witness:
  "sts_Replicas ex_left = Some 2 \<and>
   (\<forall>k. cl_sts (machine_runs ex_menv ([], ''m'') k ex_shrunk_world) (''imperator-system'', ''team-v100'') = Some ex_left)"
proof -
  let ?w = ex_shrunk_world and ?req = "([], ''m'') :: ObjectKey"
  have stored: "mv_machines mem_views ?w ?req = Some ex_shrunk" by (simp add: ex_shrunk_world_def)
  have placed: "pods_placed mem_views ?w"
    using ex_start(1) by (simp add: pods_placed_def ex_shrunk_world_def)
  have key: "ObjectKeyFromMeta (m_Meta ex_shrunk) = ?req" and grp: "machine_group ex_shrunk = ''team''"
    using ex_machine_key ex_machine_sel(1) by (simp_all add: ex_shrunk_def)
  have types: "ms_MachineTypes (m_Spec ex_shrunk) = [ex_type]" using ex_machine_sel(2) by (simp add: ex_shrunk_def)
  have dist: "distinct (map mt_Name (ms_MachineTypes (m_Spec ex_shrunk)))" by (simp add: types)
  have "\<not> in_node_pool ex_shrunk ''v100''"
    using ex_machine_sel(5) [of "''v100''"] by (simp add: ex_shrunk_def in_node_pool_def)
  moreover have "''v100'' \<in> am_Name ` set (avail ex_shrunk)" by (simp add: ex_shrunk_def)
  ultimately have "\<not> in_node_pool ex_shrunk ''v100''" "''v100'' \<in> am_Name ` set (avail ex_shrunk)" .
  from removed_type_leaks [OF mem_machine_api mem_machine_api_live placed stored key dist
      mem_two_runs(1,2) [OF stored [unfolded mem_views_sel] placed dist key] this]
  have "\<forall>k. cl_sts (machine_runs ex_menv ?req k ?w) (reservation_key ex_menv ''team'' ''v100'') =
      cl_sts ?w (reservation_key ex_menv ''team'' ''v100'')"
    unfolding grp mem_views_sel by (rule conjunct1)
  moreover have "reservation_key ex_menv ''team'' ''v100'' = (''imperator-system'', ''team-v100'')"
    by (simp add: reservation_key_def ImperatorCoreNamespace_def getEnvVarOrDefault_def GenerateReservationResourceName_def)
  ultimately show ?thesis by (simp add: ex_shrunk_world_def) (simp add: ex_left_def)
qed

end
