(* ===== verification/Reinjection.thy ===== *)
theory Reinjection
  imports Scheduling
begin

text \<open>
  Injecting a Pod that was injected before, as when a Pod is created again from the manifest of an
  injected one. The loop that removes repeated expressions meets the term the first injection
  added, and deletes from it while ranging over it.
\<close>

text \<open>On its own term the loop deletes the first expression, the one that names the group.\<close>

lemma asked_keys_distinct:
  assumes "mt_Name mt \<noteq> ''node-pool''"
  shows "distinct (map fst (asked_labels mt grp))"
  using assms by (cases "GPU (mt_Spec mt)") (simp_all add: asked_labels_def)

lemma asked_repeated:
  assumes "mt_Name mt \<noteq> ''node-pool''" and "e \<in> set (MatchExpressions (asked_term mt grp))"
  shows "taken_for_repeated mt grp e"
proof -
  obtain k v where kv: "(k, v) \<in> set (asked_labels mt grp)"
    and e: "e = \<lparr>nsr_Key = k, nsr_Operator = ''In'', nsr_Values = [v]\<rparr>"
    using assms(2) by (auto simp: asked_term_def)
  have "distinct (map fst (rev (asked_labels mt grp)))"
    using asked_keys_distinct [OF assms(1)] by (simp add: rev_map [symmetric])
  with kv have "map_of (rev (asked_labels mt grp)) k = Some v" by simp
  then show ?thesis by (simp add: taken_for_repeated_def e)
qed

lemma thinned_all:
  assumes "length xs = 2 \<or> length xs = 3" and "\<forall>x \<in> set xs. d x"
  shows "thinned d xs = tl xs"
  using assms by (auto simp: thinned_def numeral_2_eq_2 numeral_3_eq_3 length_Suc_conv)

lemma thinned_asked:
  assumes "mt_Name mt \<noteq> ''node-pool''"
  shows "thinned (taken_for_repeated mt grp) (MatchExpressions (asked_term mt grp)) =
    tl (MatchExpressions (asked_term mt grp))"
proof (rule thinned_all)
  show "length (MatchExpressions (asked_term mt grp)) = 2 \<or> length (MatchExpressions (asked_term mt grp)) = 3"
    by (simp add: asked_term_def asked_labels_def split: option.split)
qed (use asked_repeated [OF assms] in blast)

text \<open>The terms of a Pod that was injected twice.\<close>

lemma injected_values:
  assumes "requiredTerms pod \<noteq> Panic" and "terms_have_values pod"
  shows "terms_have_values (injected_pod mt grp name pod)"
proof -
  obtain ts where ts: "requiredTerms pod = Ret ts" using assms(1) by (cases "requiredTerms pod") auto
  have "has_values (thinned d es)" if "has_values es" for d es
    using that thinned_subset [of d es] by (auto simp: has_values_def)
  then show ?thesis
    using assms(2) ts type_expressions_values [of mt grp]
    by (auto simp: terms_have_values_def injected_pod_sel own_terms_eq asked_term_eq)
qed

lemma injected_twice:
  assumes one: "fst (injectToPod E pod w) = Ret (Inr pod1)" and vals: "terms_have_values pod"
    and two: "fst (injectToPod E pod1 w') = Ret (Inr pod2)"
    and list: "fst (inj_List_Machines E [MachineGroupKey \<mapsto> pod_group pod] w) = Inr (m # ms)"
      "fst (inj_List_Machines E [MachineGroupKey \<mapsto> pod_group pod] w') = Inr (m' # ms')" "m_Spec m' = m_Spec m"
    and new: "pod_type pod \<noteq> ''node-pool''"
  shows "\<exists>mt ts. mt \<in> set (ms_MachineTypes (m_Spec m)) \<and> mt_Name mt = pod_type pod \<and>
    requiredTerms pod2 = Ret (ts @
      [\<lparr>MatchExpressions = tl (type_expressions mt (pod_group pod)), MatchFields = []\<rparr>,
       \<lparr>MatchExpressions = type_expressions mt (pod_group pod), MatchFields = []\<rparr>])"
proof -
  let ?g = "pod_group pod" and ?t = "pod_type pod"
  obtain mt where find: "find (\<lambda>mt. mt_Name mt = ?t) (ms_MachineTypes (m_Spec m)) = Some mt"
    and ok: "requiredTerms pod \<noteq> Panic" and pod1: "pod1 = injected_pod mt ?g ?t pod"
    using injectToPod_ok [OF one vals] list(1) by (metis Inr_inject list.inject)
  have same: "pod_group pod1 = ?g" "pod_type pod1 = ?t"
    by (simp_all add: pod1 pod_group_def pod_type_def injected_pod_sel)
  have vals1: "terms_have_values pod1" unfolding pod1 by (rule injected_values [OF ok vals])
  have pod2: "pod2 = injected_pod mt ?g ?t pod1"
    using injectToPod_ok [OF two vals1, unfolded same] list(2,3) find by (metis Inr_inject list.inject option.inject)
  have mt: "mt_Name mt = ?t" "mt \<in> set (ms_MachineTypes (m_Spec m))"
    using find by (auto dest: find_SomeD)
  then have "thinned (taken_for_repeated mt ?g) (type_expressions mt ?g) = tl (type_expressions mt ?g)"
    using thinned_asked [of mt ?g] new by (simp add: asked_term_eq)
  moreover obtain ts1 where "own_terms pod1 = ts1 @ [\<lparr>MatchExpressions = type_expressions mt ?g, MatchFields = []\<rparr>]"
    using own_terms_eq [OF injected_pod_sel(3)] by (auto simp: pod1 asked_term_eq)
  ultimately show ?thesis
    using mt by (auto simp: pod2 injected_pod_sel asked_term_eq)
qed

lemma tl_expressions_match:
  assumes "sched_laws S"
  shows "list_all (\<lambda>e. sched_matches S e ls) (tl (type_expressions mt grp)) \<longleftrightarrow>
    ls MachineStatusKey = Some NodeModeReady \<and> gpu_labelled mt ls"
proof -
  have two: "length (getGPUSelector g) = 2 \<Longrightarrow> \<exists>k v. getGPUSelector g = [k, v]" for g
    by (cases "getGPUSelector g" rule: remdups_adj.cases) auto
  show ?thesis
    using sched_lawsD(1) [OF assms] two gpu_selector_length
    by (auto simp: GenerateAffinityMatchExpression_def gpu_labelled_def mode_Value_def Let_def
        split: option.split list.splits)
qed

text \<open>
  C18: an injection is not idempotent, and the second one lets the Pod leave its group. When a Pod
  that was injected once is injected again for the same machine type (not called "node-pool"),
  the loop that should drop what the first injection added drops only the first expression of
  that term, the one with the group. What stays is a node selector term of its own, which the
  scheduler takes as an alternative: every ready Node, of whatever group and machine type, with
  the GPU label of the type, satisfies it.
\<close>
theorem reinjection_leaves_group:
  assumes "fst (injectToPod E pod w) = Ret (Inr pod1)" and "terms_have_values pod"
    and "fst (injectToPod E pod1 w') = Ret (Inr pod2)"
    and "fst (inj_List_Machines E [MachineGroupKey \<mapsto> pod_group pod] w) = Inr (m # ms)"
    and "fst (inj_List_Machines E [MachineGroupKey \<mapsto> pod_group pod] w') = Inr (m' # ms')"
    and "m_Spec m' = m_Spec m" and "pod_type pod \<noteq> ''node-pool''" and "sched_laws S"
  shows "\<exists>mt ts t. mt \<in> set (ms_MachineTypes (m_Spec m)) \<and> mt_Name mt = pod_type pod \<and>
    requiredTerms pod2 = Ret ts \<and> t \<in> set ts \<and> MatchFields t = [] \<and>
    (\<forall>ls. list_all (\<lambda>e. sched_matches S e ls) (MatchExpressions t) \<longleftrightarrow>
       ls MachineStatusKey = Some NodeModeReady \<and> gpu_labelled mt ls)"
proof -
  obtain mt ts where mt: "mt \<in> set (ms_MachineTypes (m_Spec m))" "mt_Name mt = pod_type pod"
    and terms: "requiredTerms pod2 = Ret (ts @
      [\<lparr>MatchExpressions = tl (type_expressions mt (pod_group pod)), MatchFields = []\<rparr>,
       \<lparr>MatchExpressions = type_expressions mt (pod_group pod), MatchFields = []\<rparr>])"
    using injected_twice [OF assms(1-7)] by blast
  let ?t = "\<lparr>MatchExpressions = tl (type_expressions mt (pod_group pod)), MatchFields = []\<rparr>"
  have "list_all (\<lambda>e. sched_matches S e ls) (MatchExpressions ?t) \<longleftrightarrow>
      ls MachineStatusKey = Some NodeModeReady \<and> gpu_labelled mt ls" for ls
    using tl_expressions_match [OF assms(8)] by simp
  moreover have "?t \<in> set (ts @ [?t, \<lparr>MatchExpressions = type_expressions mt (pod_group pod), MatchFields = []\<rparr>])"
    by simp
  moreover have "MatchFields ?t = []" by simp
  ultimately show ?thesis using mt terms by blast
qed

theorem reinjection_leaves_group_witness:
  "\<exists>pod1 pod2 ts t. fst (injectToPod (mem_injector_env ex_pod) ex_pod (ex_iworld ex_reserved)) = Ret (Inr pod1) \<and>
     fst (injectToPod (mem_injector_env ex_pod) pod1 (ex_iworld ex_reserved)) = Ret (Inr pod2) \<and>
     requiredTerms pod2 = Ret ts \<and> t \<in> set ts \<and>
     list_all (\<lambda>e. sched_matches mem_scheduler e
       [MachineStatusKey \<mapsto> NodeModeReady, NvidiaGPUFamilyKey \<mapsto> ''ampere'']) (MatchExpressions t)"
proof -
  let ?E = "mem_injector_env ex_pod" and ?w = "ex_iworld ex_reserved"
  have list: "fst (inj_List_Machines ?E [MachineGroupKey \<mapsto> ''team''] ?w) = Inr [ex_reserved]"
    by (simp add: ex_list)
  let ?pod1 = "injected_pod ex_type ''team'' ''a100'' ex_pod"
  have run: "fst (injectToPod ?E p ?w) = Ret (Inr (injected_pod ex_type ''team'' ''a100'' p))"
    if p: "pod_group p = ''team''" "pod_type p = ''a100''" "ps_Containers (pod_Spec p) \<noteq> []"
      "requiredTerms p = Ret ts" "terms_have_values p" for p ts
    using inject_edit_exact [OF p(3-5), of ex_type "''team''" "''a100''"] p(1,2)
    by (simp add: injectToPod_run Let_def ex_list)
  have 1: "fst (injectToPod ?E ex_pod ?w) = Ret (Inr ?pod1)"
    using run [OF ex_pod_sel(1,2) _ ex_pod_sel(5,6)] by simp
  have "pod_group ?pod1 = pod_group ex_pod" "pod_type ?pod1 = pod_type ex_pod"
    by (simp_all add: pod_group_def pod_type_def injected_pod_sel del: ex_pod_sel)
  then have same: "pod_group ?pod1 = ''team''" "pod_type ?pod1 = ''a100''" by simp_all
  have "length (ps_Containers (pod_Spec ?pod1)) = length (ps_Containers (pod_Spec ex_pod))"
    by (rule injected_pod_sel)
  then have "ps_Containers (pod_Spec ?pod1) \<noteq> []" by auto
  moreover have "requiredTerms ex_pod \<noteq> Panic" by simp
  ultimately have 2: "fst (injectToPod ?E ?pod1 ?w) = Ret (Inr (injected_pod ex_type ''team'' ''a100'' ?pod1))"
    by (intro run [OF same _ injected_pod_sel(3)] injected_values ex_pod_sel(6))
  have "pod_type ex_pod \<noteq> ''node-pool''" by simp
  from reinjection_leaves_group [OF 1 ex_pod_sel(6) 2 list [folded ex_pod_sel(1)] list [folded ex_pod_sel(1)] refl this mem_sched_laws]
  obtain mt ts t where "mt \<in> set (ms_MachineTypes (m_Spec ex_reserved))" and t: "requiredTerms (injected_pod ex_type ''team'' ''a100'' ?pod1) = Ret ts" "t \<in> set ts"
    and match: "\<And>ls. list_all (\<lambda>e. sched_matches mem_scheduler e ls) (MatchExpressions t) \<longleftrightarrow>
       ls MachineStatusKey = Some NodeModeReady \<and> gpu_labelled mt ls"
    by blast
  then have "mt = ex_type" by simp
  have "gpu_labelled ex_type [MachineStatusKey \<mapsto> NodeModeReady, NvidiaGPUFamilyKey \<mapsto> ''ampere'']"
    by (simp add: gpu_labelled_def ex_type_def getGPUSelector_def NvidiaGPUFamilyKey_def MachineStatusKey_def GroupVersion_Group_def)
  moreover have "[MachineStatusKey \<mapsto> NodeModeReady, NvidiaGPUFamilyKey \<mapsto> ''ampere''] MachineStatusKey = Some NodeModeReady"
    by (simp add: NvidiaGPUFamilyKey_def MachineStatusKey_def GroupVersion_Group_def)
  ultimately show ?thesis using 1 2 t match \<open>mt = ex_type\<close> by blast
qed

end
