(* ===== verification/Overbooking.thy ===== *)
theory Overbooking
  imports InjectorProps
begin

text \<open>
  Guests that arrive between two status updates of the Machine controller. The webhook tests the
  number of reservations the status counted when it was written last; admitting a guest does not
  lower it.
\<close>

subsection \<open>Arriving guests\<close>

text \<open>
  The API server sends the raw object to the webhook and, when the answer is a patch, stores the
  patched Pod. The value tells whether the Pod was admitted.
\<close>

definition arrive ::
    "('w, 'x) injector_env_scheme \<Rightarrow> (string \<Rightarrow> string \<Rightarrow> 'w \<Rightarrow> 'w) \<Rightarrow> string \<Rightarrow> 'w \<Rightarrow> bool \<times> 'w" where
  "arrive I put raw w =
     (case injector_Handle I raw w of
        (Ret (PatchResponseFromRaw _ s), w') \<Rightarrow> (True, put raw s w')
      | (_, w') \<Rightarrow> (False, w'))"

fun arrivals ::
    "('w, 'x) injector_env_scheme \<Rightarrow> (string \<Rightarrow> string \<Rightarrow> 'w \<Rightarrow> 'w) \<Rightarrow> string list \<Rightarrow> 'w \<Rightarrow> nat \<times> 'w" where
  "arrivals I put [] w = (0, w)"
| "arrivals I put (raw # raws) w =
     (let a = arrive I put raw w; rest = arrivals I put raws (snd a)
      in ((if fst a then Suc (fst rest) else fst rest), snd rest))"

text \<open>
  Machines are listed by label and Pods are found by key; reading changes neither, and storing
  a Pod adds its key and leaves the Machines alone. Pods can be marshalled.
\<close>

definition admission_api ::
    "('w, 'x) injector_env_scheme \<Rightarrow> (string \<Rightarrow> string \<Rightarrow> 'w \<Rightarrow> 'w) \<Rightarrow> ('w \<Rightarrow> Machine list) \<Rightarrow>
     ('w \<Rightarrow> ObjectKey set) \<Rightarrow> bool" where
  "admission_api I put machines known \<longleftrightarrow>
     (\<forall>sel w. fst (inj_List_Machines I sel w) = Inr (filter (\<lambda>m. selects sel (Labels (m_Meta m))) (machines w))) \<and>
     (\<forall>sel. preserves (\<lambda>w. (machines w, known w)) (inj_List_Machines I sel)) \<and>
     (\<forall>k w. not_found_answer (fst (inj_Get_Pod I k w)) \<longleftrightarrow> k \<notin> known w) \<and>
     (\<forall>k. preserves (\<lambda>w. (machines w, known w)) (inj_Get_Pod I k)) \<and>
     (\<forall>p. \<exists>s. inj_Marshal I p = Inr s) \<and>
     (\<forall>raw s w pod. inj_Decode I raw = Inr pod \<longrightarrow> machines (put raw s w) = machines w \<and>
        known (put raw s w) = insert (ObjectKeyFromMeta (pod_Meta pod)) (known w))"

text \<open>A guest Pod of a group and a machine type that nothing but the reservations can keep out.\<close>

definition guest_request :: "('w, 'x) injector_env_scheme \<Rightarrow> string \<Rightarrow> string \<Rightarrow> string \<Rightarrow> Pod \<Rightarrow> bool" where
  "guest_request I grp t raw pod \<longleftrightarrow>
     inj_Decode I raw = Inr pod \<and> requiredInjection pod \<and> pod_group pod = grp \<and> pod_type pod = t \<and>
     ps_Containers (pod_Spec pod) \<noteq> [] \<and> requiredTerms pod \<noteq> Panic \<and> terms_have_values pod"

lemma injectToPod_world:
  "snd (injectToPod I pod w) = snd (inj_List_Machines I [MachineGroupKey \<mapsto> pod_group pod] w)"
  by (simp add: injectToPod_run Let_def split: sum.split list.split option.split gores.split)

lemma arrive_guest:
  assumes api: "admission_api I put machines known" and guest: "guest_request I grp t raw pod"
    and first: "filter (\<lambda>m. selects [MachineGroupKey \<mapsto> grp] (Labels (m_Meta m))) (machines w) = m # ms"
    and type: "t \<in> mt_Name ` set (ms_MachineTypes (m_Spec m))" and usage: "GetMachineTypeUsage (avail m) t = Some u"
    and new: "ObjectKeyFromMeta (pod_Meta pod) \<notin> known w"
  shows "fst (arrive I put raw w) \<longleftrightarrow> Reserved u \<noteq> 0"
    and "machines (snd (arrive I put raw w)) = machines w"
    and "known (snd (arrive I put raw w)) \<subseteq> insert (ObjectKeyFromMeta (pod_Meta pod)) (known w)"
proof -
  note api' = api [unfolded admission_api_def]
  have decode: "inj_Decode I raw = Inr pod" "requiredInjection pod" using guest by (simp_all add: guest_request_def)
  let ?r = "inj_Get_Pod I (ObjectKeyFromMeta (pod_Meta pod)) w"
  let ?i = "injectToPod I pod (snd ?r)"
  have nf: "not_found_answer (fst ?r)" using api' new by blast
  have same: "machines (snd ?r) = machines w" "known (snd ?r) = known w"
    using preservesD [of "\<lambda>w. (machines w, known w)" "inj_Get_Pod I (ObjectKeyFromMeta (pod_Meta pod))" w] api' by auto
  have same_i: "machines (snd ?i) = machines w" "known (snd ?i) = known w"
    using preservesD [of "\<lambda>w. (machines w, known w)" "inj_List_Machines I [MachineGroupKey \<mapsto> pod_group pod]" "snd ?r"]
      api' same by (auto simp: injectToPod_world)
  have "fst (inj_List_Machines I [MachineGroupKey \<mapsto> grp] (snd ?r)) =
      Inr (filter (\<lambda>m. selects [MachineGroupKey \<mapsto> grp] (Labels (m_Meta m))) (machines (snd ?r)))"
    using api' by blast
  then have offered: "offered I pod (snd ?r) = Some (Some u)"
    using guest type usage first same(1) by (simp add: offered_def guest_request_def)
  have "(\<exists>pod'. fst ?i = Ret (Inr pod')) \<longleftrightarrow> Reserved u \<noteq> 0" "fst ?i \<noteq> Panic"
    using injectToPod_verdict [of pod I "snd ?r"] guest offered by (auto simp: guest_request_def)
  then consider e where "Reserved u = 0" "fst ?i = Ret (Inl e)" | pod' where "Reserved u \<noteq> 0" "fst ?i = Ret (Inr pod')"
    by (cases "fst ?i") (auto, metis sum.exhaust)
  then have *: "(fst (arrive I put raw w) \<longleftrightarrow> Reserved u \<noteq> 0) \<and> (snd (arrive I put raw w) = snd ?i \<or>
      (\<exists>s. snd (arrive I put raw w) = put raw s (snd ?i)))"
  proof cases
    case 1
    then show ?thesis using nf by (simp add: arrive_def handle_guest [OF decode] Let_def)
  next
    case 2
    obtain s where "inj_Marshal I pod' = Inr s" using api' by blast
    with 2 nf show ?thesis by (auto simp: arrive_def handle_guest [OF decode] Let_def)
  qed
  then show "fst (arrive I put raw w) \<longleftrightarrow> Reserved u \<noteq> 0" by blast
  have "machines (put raw s v) = machines v \<and> known (put raw s v) = insert (ObjectKeyFromMeta (pod_Meta pod)) (known v)"
    for s v using api' decode(1) by blast
  with * same_i show "machines (snd (arrive I put raw w)) = machines w"
    and "known (snd (arrive I put raw w)) \<subseteq> insert (ObjectKeyFromMeta (pod_Meta pod)) (known w)"
    by fastforce+
qed

text \<open>
  C16: the reservations of a machine type do not bound the guests that are admitted. Take any number
  of guest Pods of a group and a machine type, new to the API server and with different
  names, that arrive one after the other before the Machine controller writes the status again.
  If the status counts one reservation, or any other number but zero, all of them are admitted;
  if it counts none, none is.
\<close>
theorem status_lag_overbooks:
  assumes "admission_api I put machines known"
    and "filter (\<lambda>m. selects [MachineGroupKey \<mapsto> grp] (Labels (m_Meta m))) (machines w) = m # ms"
    and "t \<in> mt_Name ` set (ms_MachineTypes (m_Spec m))" and "GetMachineTypeUsage (avail m) t = Some u"
    and "list_all2 (guest_request I grp t) raws pods"
    and "distinct (map (\<lambda>p. ObjectKeyFromMeta (pod_Meta p)) pods)"
    and "(\<lambda>p. ObjectKeyFromMeta (pod_Meta p)) ` set pods \<inter> known w = {}"
  shows "fst (arrivals I put raws w) = (if Reserved u = 0 then 0 else length raws)"
  using assms(5,2,6,7)
proof (induction raws pods arbitrary: w rule: list_all2_induct)
  case Nil
  then show ?case by simp
next
  case (Cons raw raws pod pods)
  have "ObjectKeyFromMeta (pod_Meta pod) \<notin> known w" using Cons.prems by auto
  note step = arrive_guest [OF assms(1) Cons.hyps(1) Cons.prems(1) assms(3,4) this]
  let ?w = "snd (arrive I put raw w)"
  let ?keys = "(\<lambda>p. ObjectKeyFromMeta (pod_Meta p)) ` set pods"
  have "ObjectKeyFromMeta (pod_Meta pod) \<notin> ?keys" "?keys \<inter> known w = {}" using Cons.prems by simp_all
  then have "?keys \<inter> insert (ObjectKeyFromMeta (pod_Meta pod)) (known w) = {}"
    by (simp only: Int_insert_right if_False)
  then have keys: "?keys \<inter> known ?w = {}"
    using Int_mono [OF subset_refl step(3), of ?keys] by (simp only: subset_empty)
  have "fst (arrivals I put raws ?w) = (if Reserved u = 0 then 0 else length raws)"
  proof (rule Cons.IH)
    show "filter (\<lambda>m. selects [MachineGroupKey \<mapsto> grp] (Labels (m_Meta m))) (machines ?w) = m # ms"
      unfolding step(2) by (rule Cons.prems(1))
    show "distinct (map (\<lambda>p. ObjectKeyFromMeta (pod_Meta p)) pods)" using Cons.prems(2) by simp
    show "?keys \<inter> known ?w = {}" by (rule keys)
  qed
  with step(1) show ?case by (simp add: Let_def)
qed

text \<open>Three guests and two reservations.\<close>

definition named_pod :: "string \<Rightarrow> Pod" where
  "named_pod name = ex_pod\<lparr>pod_Meta := (pod_Meta ex_pod)\<lparr>Name := name\<rparr>\<rparr>"

definition ex_guests_env :: "cluster injector_env" where
  "ex_guests_env = (mem_injector_env ex_pod)\<lparr>inj_Decode := \<lambda>raw. Inr (named_pod raw)\<rparr>"

definition mem_put_guest :: "string \<Rightarrow> string \<Rightarrow> cluster \<Rightarrow> cluster" where
  "mem_put_guest raw s w = w\<lparr>cl_pods := named_pod raw # cl_pods w\<rparr>"

definition pod_keys :: "cluster \<Rightarrow> ObjectKey set" where
  "pod_keys w = (\<lambda>p. ObjectKeyFromMeta (pod_Meta p)) ` set (cl_pods w)"

lemma mem_admission_api:
  "admission_api ex_guests_env mem_put_guest (\<lambda>w. map snd (cl_machines w)) pod_keys"
proof -
  have "not_found_answer (fst (inj_Get_Pod ex_guests_env k w)) \<longleftrightarrow> k \<notin> pod_keys w" for k w
  proof (cases "find (\<lambda>p. ObjectKeyFromMeta (pod_Meta p) = k) (cl_pods w)")
    case None
    then have "k \<notin> pod_keys w" by (auto simp: find_None_iff pod_keys_def)
    with None show ?thesis by (simp add: ex_guests_env_def not_found_answer_def)
  next
    case (Some p)
    then have "k \<in> pod_keys w" using find_SomeD [OF Some] by (auto simp: pod_keys_def)
    with Some show ?thesis by (simp add: ex_guests_env_def not_found_answer_def)
  qed
  moreover have "preserves (\<lambda>w. (map snd (cl_machines w), pod_keys w)) (inj_Get_Pod ex_guests_env k)" for k
    by (simp add: ex_guests_env_def preserves_def)
  moreover have "preserves (\<lambda>w. (map snd (cl_machines w), pod_keys w)) (inj_List_Machines ex_guests_env sel)" for sel
    by (simp add: ex_guests_env_def preserves_def mem_list_machines_def)
  moreover have "fst (inj_List_Machines ex_guests_env sel w) =
      Inr (filter (\<lambda>m. selects sel (Labels (m_Meta m))) (map snd (cl_machines w)))" for sel w
    by (simp add: ex_guests_env_def mem_list_machines_def)
  moreover have "inj_Marshal ex_guests_env p = Inr ''{}''" for p by (simp add: ex_guests_env_def)
  ultimately show ?thesis
    by (auto simp: admission_api_def ex_guests_env_def mem_put_guest_def pod_keys_def)
qed

theorem status_lag_overbooks_witness:
  "fst (arrivals ex_guests_env mem_put_guest [''a'', ''b'', ''c''] (ex_iworld ex_reserved)) = 3 \<and>
   map (\<lambda>am. Reserved (am_Usage am)) (avail ex_reserved) = [2]"
proof -
  have "filter (\<lambda>m. selects [MachineGroupKey \<mapsto> ''team''] (Labels (m_Meta m)))
      (map snd (cl_machines (ex_iworld ex_reserved))) = [ex_reserved]"
    by (simp add: ex_iworld_def selects_def)
  moreover have "''a100'' \<in> mt_Name ` set (ms_MachineTypes (m_Spec ex_reserved))"
    "GetMachineTypeUsage (avail ex_reserved) ''a100'' = Some \<lparr>Maximum = 3, Reserved = 2, Used = 1, Waiting = 0\<rparr>"
    by simp_all
  moreover have "guest_request ex_guests_env ''team'' ''a100'' raw (named_pod raw)" for raw
    using ex_pod_sel
    by (simp add: guest_request_def ex_guests_env_def named_pod_def requiredInjection_def pod_group_def pod_type_def
        requiredTerms_def terms_have_values_def)
  then have "list_all2 (guest_request ex_guests_env ''team'' ''a100'') [''a'', ''b'', ''c'']
      (map named_pod [''a'', ''b'', ''c''])" by simp
  moreover have "distinct (map (\<lambda>p. ObjectKeyFromMeta (pod_Meta p)) (map named_pod [''a'', ''b'', ''c'']))"
    by (simp add: named_pod_def ObjectKeyFromMeta_def)
  moreover have "(\<lambda>p. ObjectKeyFromMeta (pod_Meta p)) ` set (map named_pod [''a'', ''b'', ''c'']) \<inter>
      pod_keys (ex_iworld ex_reserved) = {}"
    by (simp add: pod_keys_def ex_iworld_def empty_cluster_def)
  ultimately have "fst (arrivals ex_guests_env mem_put_guest [''a'', ''b'', ''c''] (ex_iworld ex_reserved)) =
      (if Reserved \<lparr>Maximum = 3, Reserved = 2, Used = 1, Waiting = 0\<rparr> = 0 then 0 else length [''a'', ''b'', ''c''])"
    by (rule status_lag_overbooks [OF mem_admission_api])
  then show ?thesis by simp
qed

end
