(* ===== verification/Startup.thy ===== *)
theory Startup
  imports Client
begin

text \<open>
  \<open>cmd/imperator-controller/main.go\<close>, the \<open>SetupWithManager\<close> functions of the controllers and
  webhooks, the scheme registration and the package \<open>version\<close>: how the components are put
  together. An action ends with \<open>Inl code\<close> when the process exits; \<open>pflag\<close>, the manager, the
  builders and the scheme are libraries and therefore fields of the environment.
\<close>

subsection \<open>pkg/version\<close>

record version_vars =
  gitMajor :: string
  gitMinor :: string
  gitVersion :: string
  gitCommit :: string
  gitTreeState :: string
  buildDate :: string

definition version_base :: version_vars where
  "version_base = \<lparr>gitMajor = [], gitMinor = [], gitVersion = ''v0.0.0-master+$Format:%H$'',
     gitCommit = ''$Format:%H$'', gitTreeState = [], buildDate = ''1970-01-01T00:00:00Z''\<rparr>"

record go_runtime =
  runtime_Version :: string
  runtime_Compiler :: string
  runtime_GOOS :: string
  runtime_GOARCH :: string

record version_Info =
  Major :: string
  Minor :: string
  GitVersion :: string
  GitCommit :: string
  GitTreeState :: string
  BuildDate :: string
  GoVersion :: string
  Compiler :: string
  Platform :: string

definition version_Get :: "go_runtime \<Rightarrow> version_vars \<Rightarrow> version_Info" where
  "version_Get rt v =
     \<lparr>Major = gitMajor v, Minor = gitMinor v, GitVersion = gitVersion v, GitCommit = gitCommit v,
      GitTreeState = gitTreeState v, BuildDate = buildDate v, GoVersion = runtime_Version rt,
      Compiler = runtime_Compiler rt, Platform = runtime_GOOS rt @ ''/'' @ runtime_GOARCH rt\<rparr>"

subsection \<open>What is registered\<close>

datatype kind = KMachine | KMachineList | KMachineNodePool | KMachineNodePoolList | KStatefulSet | KPod | KNode

datatype event_handler = PodHandler | NodeHandler

datatype event_predicates = NoPredicates | NodePredicates

text \<open>The client with the cache of the manager, and the reader that asks the API server each time.\<close>

datatype client_source = ManagerClient | APIReader

text \<open>
  \<open>MachineReconciler\<close> and \<open>MachineNodePoolReconciler\<close>: the client and the event recorder of the given
  name. (The scheme is the manager's, of which there is one.)
\<close>

record reconciler =
  rec_Client :: client_source
  rec_Recorder :: string

text \<open>\<open>resourceInjector\<close>; the library calls \<open>InjectDecoder\<close> on a registered handler.\<close>

datatype decoder = AdmissionDecoder

record resourceInjector =
  ri_Client :: client_source
  ri_decoder :: "decoder option"

definition NewResourceInjector :: "client_source \<Rightarrow> resourceInjector" where
  "NewResourceInjector c = \<lparr>ri_Client = c, ri_decoder = None\<rparr>"

definition InjectDecoder :: "decoder \<Rightarrow> resourceInjector \<Rightarrow> (goerr + unit) \<times> resourceInjector" where
  "InjectDecoder d r = (Inr (), r\<lparr>ri_decoder := Some d\<rparr>)"

text \<open>The chain of calls on \<open>ctrl.NewControllerManagedBy(mgr)\<close>, in order; \<open>Complete\<close> ends it.\<close>

datatype builder_call = For kind | Owns kind | Watches kind event_handler event_predicates | Complete reconciler

definition machine_SetupWithManager :: "reconciler \<Rightarrow> builder_call list" where
  "machine_SetupWithManager r =
     [For KMachine, Owns KMachineNodePool, Owns KStatefulSet, Watches KPod PodHandler NoPredicates, Complete r]"

definition pool_SetupWithManager :: "reconciler \<Rightarrow> builder_call list" where
  "pool_SetupWithManager r = [For KMachineNodePool, Watches KNode NodeHandler NodePredicates, Complete r]"

definition PodResourceInjectorPath :: string where
  "PodResourceInjectorPath = ''/mutate-core-v1-pod''"

text \<open>The \<open>init\<close> functions of the two type files register with the scheme builder of the package.\<close>

definition machine_types_init :: "kind list \<Rightarrow> kind list" where
  "machine_types_init builder = builder @ [KMachine, KMachineList]"

definition machinenodepool_types_init :: "kind list \<Rightarrow> kind list" where
  "machinenodepool_types_init builder = builder @ [KMachineNodePool, KMachineNodePoolList]"

definition SchemeBuilder_registered :: "kind list" where
  "SchemeBuilder_registered = machinenodepool_types_init (machine_types_init [])"

subsection \<open>The environment of main\<close>

type_synonym duration = int

definition Minute :: duration where
  "Minute = 60 * 1000000000"

record manager_options =
  MetricsBindAddress :: string
  Port :: int
  CertDir :: string
  HealthProbeBindAddress :: string
  LeaderElection :: bool
  LeaderElectionID :: string
  SyncPeriod :: duration

text \<open>
  Each \<open>pflag\<close> function defines a flag and assigns the variable; \<open>ctrl.GetConfigOrDie\<close> may end
  the process. \<open>set_kubeReader\<close> assigns the package variable the Machine webhook reads through, and
  \<open>builder_run\<close> is the chain of builder calls.
\<close>

record 'w start_env =
  clientgo_AddToScheme :: "'w \<Rightarrow> (goerr + unit) \<times> 'w"
  imperator_AddToScheme :: "kind list \<Rightarrow> 'w \<Rightarrow> (goerr + unit) \<times> 'w"
  pflag_StringVar :: "string \<Rightarrow> string \<Rightarrow> 'w \<Rightarrow> string \<times> 'w"
  pflag_BoolVar :: "string \<Rightarrow> bool \<Rightarrow> 'w \<Rightarrow> bool \<times> 'w"
  pflag_DurationVar :: "string \<Rightarrow> duration \<Rightarrow> 'w \<Rightarrow> duration \<times> 'w"
  pflag_IntVar :: "string \<Rightarrow> int \<Rightarrow> 'w \<Rightarrow> int \<times> 'w"
  ctrl_GetConfigOrDie :: "'w \<Rightarrow> (int + unit) \<times> 'w"
  ctrl_NewManager :: "manager_options \<Rightarrow> 'w \<Rightarrow> (goerr + unit) \<times> 'w"
  ctrl_SetupSignalHandler :: "'w \<Rightarrow> 'w"
  set_kubeReader :: "client_source \<Rightarrow> 'w \<Rightarrow> 'w"
  builder_run :: "builder_call list \<Rightarrow> 'w \<Rightarrow> (goerr + unit) \<times> 'w"
  webhook_Complete :: "kind \<Rightarrow> 'w \<Rightarrow> (goerr + unit) \<times> 'w"
  webhook_Register :: "string \<Rightarrow> resourceInjector \<Rightarrow> 'w \<Rightarrow> 'w"
  mgr_AddHealthzCheck :: "string \<Rightarrow> 'w \<Rightarrow> (goerr + unit) \<times> 'w"
  mgr_AddReadyzCheck :: "string \<Rightarrow> 'w \<Rightarrow> (goerr + unit) \<times> 'w"
  mgr_Start :: "'w \<Rightarrow> (goerr + unit) \<times> 'w"
  setupLog_Error :: "string \<Rightarrow> goerr \<Rightarrow> 'w \<Rightarrow> 'w"
  setupLog_Info :: "version_Info \<Rightarrow> 'w \<Rightarrow> 'w"

type_synonym ('w, 'a) process = "('w, int + 'a) act"

text \<open>\<open>if err := call; err != nil { setupLog.Error(err, msg); os.Exit(1) }\<close>.\<close>

definition or_exit :: "('w, 'x) start_env_scheme \<Rightarrow> string \<Rightarrow> ('w \<Rightarrow> (goerr + unit) \<times> 'w) \<Rightarrow> ('w, unit) process" where
  "or_exit E msg call =
     abind (acall call) (\<lambda>r. case r of
       Inl err \<Rightarrow> abind (ado (setupLog_Error E msg err)) (\<lambda>_. aret (Inl 1))
     | Inr _ \<Rightarrow> aret (Inr ()))"

text \<open>\<open>utilruntime.Must\<close> panics on an error.\<close>

definition must :: "('w \<Rightarrow> (goerr + unit) \<times> 'w) \<Rightarrow> ('w, unit) process" where
  "must call = abind (acall call) (\<lambda>r. case r of Inl _ \<Rightarrow> alift Panic | Inr _ \<Rightarrow> aret (Inr ()))"

subsection \<open>The Machine webhook\<close>

definition SetupWebhookWithManager :: "('w, 'x) start_env_scheme \<Rightarrow> 'w \<Rightarrow> (goerr + unit) \<times> 'w" where
  "SetupWebhookWithManager E w = webhook_Complete E KMachine (set_kubeReader E APIReader w)"

subsection \<open>main.go\<close>

definition main_init :: "('w, 'x) start_env_scheme \<Rightarrow> ('w, unit) process" where
  "main_init E =
     atry (must (clientgo_AddToScheme E)) (\<lambda>_.
     must (imperator_AddToScheme E SchemeBuilder_registered))"

definition initFlags :: "('w, 'x) start_env_scheme \<Rightarrow> ('w, manager_options) act" where
  "initFlags E =
     abind (acall (pflag_StringVar E ''metrics-bind-address'' ''127.0.0.1:8080'')) (\<lambda>metricsAddr.
     abind (acall (pflag_StringVar E ''health-probe-bind-address'' '':8081'')) (\<lambda>probeAddr.
     abind (acall (pflag_BoolVar E ''leader-elect'' True)) (\<lambda>enableLeaderElection.
     abind (acall (pflag_StringVar E ''leader-election-id'' ''c402a1f6.imperator.tenzen-y.io'')) (\<lambda>leaderElectionID.
     abind (acall (pflag_DurationVar E ''sync-period'' (10 * Minute))) (\<lambda>syncPeriod.
     abind (acall (pflag_IntVar E ''webhook-port'' 9443)) (\<lambda>webhookPort.
     abind (acall (pflag_StringVar E ''webhook-cert-dir'' ''/tmp/k8s-webhook-server/serving-certs'')) (\<lambda>webhookCertDir.
     aret \<lparr>MetricsBindAddress = metricsAddr, Port = webhookPort, CertDir = webhookCertDir,
           HealthProbeBindAddress = probeAddr, LeaderElection = enableLeaderElection,
           LeaderElectionID = leaderElectionID, SyncPeriod = syncPeriod\<rparr>)))))))"

definition setupReconcilers :: "('w, 'x) start_env_scheme \<Rightarrow> ('w, unit) process" where
  "setupReconcilers E =
     (let r = \<lparr>rec_Client = ManagerClient, rec_Recorder = ''imperator''\<rparr>
      in atry (or_exit E ''unable to create controller'' (builder_run E (machine_SetupWithManager r))) (\<lambda>_.
         or_exit E ''unable to create controller'' (builder_run E (pool_SetupWithManager r))))"

definition setupWebhooks :: "('w, 'x) start_env_scheme \<Rightarrow> ('w, unit) process" where
  "setupWebhooks E =
     atry (or_exit E ''unable to create webhook'' (SetupWebhookWithManager E)) (\<lambda>_.
     abind (ado (webhook_Register E PodResourceInjectorPath (NewResourceInjector ManagerClient))) (\<lambda>_. aret (Inr ())))"

definition setupHealthzCheck :: "('w, 'x) start_env_scheme \<Rightarrow> ('w, unit) process" where
  "setupHealthzCheck E =
     atry (or_exit E ''unable to set up health check'' (mgr_AddHealthzCheck E ''healthz'')) (\<lambda>_.
     or_exit E ''unable to set up ready check'' (mgr_AddReadyzCheck E ''readyz''))"

definition main_setup :: "('w, 'x) start_env_scheme \<Rightarrow> ('w, unit) process" where
  "main_setup E =
     abind (initFlags E) (\<lambda>options.
     atry (acall (ctrl_GetConfigOrDie E)) (\<lambda>_.
     atry (or_exit E ''unable to start imperator'' (ctrl_NewManager E options)) (\<lambda>_.
     abind (ado (ctrl_SetupSignalHandler E)) (\<lambda>_.
     atry (setupReconcilers E) (\<lambda>_.
     atry (setupWebhooks E) (\<lambda>_.
     setupHealthzCheck E))))))"

definition main_main :: "('w, 'x) start_env_scheme \<Rightarrow> go_runtime \<Rightarrow> version_vars \<Rightarrow> ('w, unit) process" where
  "main_main E rt vars =
     atry (main_setup E) (\<lambda>_.
     abind (ado (setupLog_Info E (version_Get rt vars))) (\<lambda>_.
     or_exit E ''problem running imperator'' (mgr_Start E)))"

text \<open>The process: \<open>init\<close>, then \<open>main\<close>; returning from \<open>main\<close> is exit code 0.\<close>

definition run_process :: "('w, 'x) start_env_scheme \<Rightarrow> go_runtime \<Rightarrow> version_vars \<Rightarrow> ('w, int) act" where
  "run_process E rt vars =
     abind (atry (main_init E) (\<lambda>_. main_main E rt vars)) (\<lambda>r.
       aret (case r of Inl code \<Rightarrow> code | Inr _ \<Rightarrow> 0))"

end
