(* ===== verification/StartupProps.thy ===== *)
theory StartupProps
  imports Startup Cluster
begin

text \<open>
  The properties of the start-up: what is registered before the manager runs, how the process
  exits, and the options it runs with.
\<close>

subsection \<open>Nothing runs before everything is registered\<close>

datatype registration =
    RScheme "kind list" | RManager | RController "builder_call list" | RWebhook kind | RReader client_source
  | RHandler string resourceInjector
  | RHealthz string | RReadyz string

text \<open>
  \<open>reg\<close> shows what has been registered in a world: a successful call adds its registration and
  no call of the start-up removes one.
\<close>

definition adds :: "('w \<Rightarrow> registration set) \<Rightarrow> registration \<Rightarrow> ('w \<Rightarrow> (goerr + unit) \<times> 'w) \<Rightarrow> bool" where
  "adds reg x call \<longleftrightarrow> (\<forall>w r w'. call w = (r, w') \<longrightarrow> reg w \<subseteq> reg w' \<and> (r = Inr () \<longrightarrow> x \<in> reg w'))"

definition grows :: "('w \<Rightarrow> registration set) \<Rightarrow> ('w \<Rightarrow> 'a \<times> 'w) \<Rightarrow> bool" where
  "grows reg call \<longleftrightarrow> (\<forall>w. reg w \<subseteq> reg (snd (call w)))"

definition start_laws :: "('w, 'x) start_env_scheme \<Rightarrow> ('w \<Rightarrow> registration set) \<Rightarrow> bool" where
  "start_laws E reg \<longleftrightarrow>
     (\<forall>ks. adds reg (RScheme ks) (imperator_AddToScheme E ks)) \<and>
     (\<forall>os. adds reg RManager (ctrl_NewManager E os)) \<and>
     (\<forall>b. adds reg (RController b) (builder_run E b)) \<and>
     (\<forall>k. adds reg (RWebhook k) (webhook_Complete E k)) \<and>
     (\<forall>s. adds reg (RHealthz s) (mgr_AddHealthzCheck E s)) \<and>
     (\<forall>s. adds reg (RReadyz s) (mgr_AddReadyzCheck E s)) \<and>
     (\<forall>s h w. insert (RHandler s h) (reg w) \<subseteq> reg (webhook_Register E s h w)) \<and>
     (\<forall>c w. insert (RReader c) (reg w) \<subseteq> reg (set_kubeReader E c w)) \<and>
     grows reg (clientgo_AddToScheme E) \<and> grows reg (ctrl_GetConfigOrDie E) \<and>
     (\<forall>s v. grows reg (pflag_StringVar E s v)) \<and> (\<forall>s v. grows reg (pflag_BoolVar E s v)) \<and>
     (\<forall>s v. grows reg (pflag_DurationVar E s v)) \<and> (\<forall>s v. grows reg (pflag_IntVar E s v)) \<and>
     (\<forall>w. reg w \<subseteq> reg (ctrl_SetupSignalHandler E w))"

text \<open>A process step that, when it goes on, has made the registrations \<open>xs\<close> and kept the others.\<close>

definition makes :: "('w \<Rightarrow> registration set) \<Rightarrow> registration set \<Rightarrow> ('w, int + 'a) act \<Rightarrow> bool" where
  "makes reg xs m \<longleftrightarrow> (\<forall>w x w'. m w = (Ret (Inr x), w') \<longrightarrow> reg w \<union> xs \<subseteq> reg w')"

named_theorems makes_intros \<open>rules for what a step has registered\<close>

lemma makes_aret [makes_intros]: "makes reg {} (aret r)"
  by (simp add: makes_def act_simps)

lemma makes_call [makes_intros]: "grows reg f \<Longrightarrow> makes reg {} (acall f)"
  by (auto simp: makes_def act_simps grows_def)

lemma makes_atry [makes_intros]:
  assumes "makes reg xs m" and "\<And>x. makes reg ys (f x)"
  shows "makes reg (xs \<union> ys) (atry m f)"
  unfolding makes_def
proof (intro allI impI)
  fix w y w' assume run: "atry m f w = (Ret (Inr y), w')"
  then obtain x w1 where "m w = (Ret (Inr x), w1)" "f x w1 = (Ret (Inr y), w')"
    by (cases "m w") (auto simp: act_simps split: gores.splits sum.splits)
  with assms show "reg w \<union> (xs \<union> ys) \<subseteq> reg w'" unfolding makes_def by blast
qed

lemma makes_or_exit [makes_intros]: "adds reg x call \<Longrightarrow> makes reg {x} (or_exit E msg call)"
  unfolding makes_def
proof (intro allI impI)
  fix w y w' assume "adds reg x call" and "or_exit E msg call w = (Ret (Inr y), w')"
  then show "reg w \<union> {x} \<subseteq> reg w'"
    by (cases "call w") (auto simp: or_exit_def act_simps adds_def split: sum.splits)
qed

lemma makes_must [makes_intros]: "adds reg x call \<Longrightarrow> makes reg {x} (must call)"
  unfolding makes_def
proof (intro allI impI)
  fix w y w' assume "adds reg x call" and "must call w = (Ret (Inr y), w')"
  then show "reg w \<union> {x} \<subseteq> reg w'"
    by (cases "call w") (auto simp: must_def act_simps adds_def split: sum.splits)
qed

lemma makes_must_other: "grows reg call \<Longrightarrow> makes reg {} (must call)"
  by (auto simp: makes_def must_def act_simps grows_def split: sum.splits)

lemma makes_abind_call: 
  assumes "grows reg f" and "\<And>x. makes reg xs (g x)"
  shows "makes reg xs (abind (acall f) g)"
  using assms unfolding makes_def grows_def by (simp add: act_simps) blast

lemma makes_abind_ado:
  assumes "\<And>w. reg w \<union> ys \<subseteq> reg (f w)" and "\<And>x. makes reg xs (g x)"
  shows "makes reg (ys \<union> xs) (abind (ado f) g)"
  unfolding makes_def
proof (intro allI impI)
  fix w x w' assume "abind (ado f) g w = (Ret (Inr x), w')"
  then have "g () (f w) = (Ret (Inr x), w')" by (simp add: act_simps)
  with assms(2) have "reg (f w) \<union> xs \<subseteq> reg w'" unfolding makes_def by blast
  with assms(1) [of w] show "reg w \<union> (ys \<union> xs) \<subseteq> reg w'" by blast
qed

lemma makes_mono: "makes reg xs m \<Longrightarrow> ys \<subseteq> xs \<Longrightarrow> makes reg ys m"
  unfolding makes_def by blast

definition manager_reconciler :: reconciler where
  "manager_reconciler = \<lparr>rec_Client = ManagerClient, rec_Recorder = ''imperator''\<rparr>"

definition all_registrations :: "registration set" where
  "all_registrations =
     {RScheme [KMachine, KMachineList, KMachineNodePool, KMachineNodePoolList], RManager,
      RController [For KMachine, Owns KMachineNodePool, Owns KStatefulSet, Watches KPod PodHandler NoPredicates,
        Complete manager_reconciler],
      RController [For KMachineNodePool, Watches KNode NodeHandler NodePredicates, Complete manager_reconciler],
      RReader APIReader, RWebhook KMachine, RHandler ''/mutate-core-v1-pod'' \<lparr>ri_Client = ManagerClient, ri_decoder = None\<rparr>,
      RHealthz ''healthz'', RReadyz ''readyz''}"

lemma start_lawsD:
  assumes "start_laws E reg"
  shows "adds reg (RScheme ks) (imperator_AddToScheme E ks)" "adds reg RManager (ctrl_NewManager E os)"
    "adds reg (RController b) (builder_run E b)" "adds reg (RWebhook k) (webhook_Complete E k)"
    "adds reg (RHealthz h) (mgr_AddHealthzCheck E h)" "adds reg (RReadyz r) (mgr_AddReadyzCheck E r)"
    "insert (RHandler p h') (reg w) \<subseteq> reg (webhook_Register E p h' w)" "grows reg (clientgo_AddToScheme E)"
    "grows reg (ctrl_GetConfigOrDie E)" "grows reg (pflag_StringVar E n s)" "grows reg (pflag_BoolVar E n b')"
    "grows reg (pflag_DurationVar E n d)" "grows reg (pflag_IntVar E n i)"
    "reg w \<subseteq> reg (ctrl_SetupSignalHandler E w)" "insert (RReader c) (reg w) \<subseteq> reg (set_kubeReader E c w)"
  using assms by (simp_all add: start_laws_def)

lemma or_exit_start: "or_exit (E\<lparr>mgr_Start := S\<rparr>) = or_exit E"
  by (simp add: or_exit_def fun_eq_iff cong: sum.case_cong)

lemma SetupWebhook_start: "SetupWebhookWithManager (E\<lparr>mgr_Start := S\<rparr>) = SetupWebhookWithManager E"
  by (simp add: SetupWebhookWithManager_def fun_eq_iff)

lemma SetupWebhook_manager: "SetupWebhookWithManager (E\<lparr>ctrl_NewManager := M\<rparr>) = SetupWebhookWithManager E"
  by (simp add: SetupWebhookWithManager_def fun_eq_iff)

lemma or_exit_manager: "or_exit (E\<lparr>ctrl_NewManager := M\<rparr>) = or_exit E"
  by (simp add: or_exit_def fun_eq_iff cong: sum.case_cong)

lemma makes_webhook:
  assumes "start_laws E reg"
  shows "makes reg {RReader APIReader, RWebhook KMachine} (or_exit E msg (SetupWebhookWithManager E))"
  unfolding makes_def
proof (intro allI impI)
  fix w y w' assume run: "or_exit E msg (SetupWebhookWithManager E) w = (Ret (Inr y), w')"
  let ?w = "set_kubeReader E APIReader w"
  have "webhook_Complete E KMachine ?w = (Inr (), w')"
    using run by (cases "webhook_Complete E KMachine ?w")
      (auto simp: SetupWebhookWithManager_def or_exit_def act_simps split: sum.splits)
  with start_lawsD(4) [OF assms, of KMachine] have "insert (RWebhook KMachine) (reg ?w) \<subseteq> reg w'"
    unfolding adds_def by blast
  with start_lawsD(15) [OF assms, of APIReader w]
  show "reg w \<union> {RReader APIReader, RWebhook KMachine} \<subseteq> reg w'" by blast
qed

lemma setup_makes:
  assumes "start_laws E reg"
  shows "makes reg all_registrations (atry (main_init E) (\<lambda>_. main_setup E))"
proof -
  note law = start_lawsD [OF assms]
  have flags: "makes reg xs (abind (initFlags E) f)" if "\<And>x. makes reg xs (f x)" for xs and f :: "_ \<Rightarrow> (_, int + unit) act"
    unfolding initFlags_def abind_assoc abind_aret by (intro makes_abind_call law that)
  let ?h = "NewResourceInjector ManagerClient"
  have handler: "makes reg ({RHandler PodResourceInjectorPath ?h} \<union> {})
      (abind (ado (webhook_Register E PodResourceInjectorPath ?h)) (\<lambda>_. aret (Inr ())))"
    by (intro makes_abind_ado makes_aret) (use law(7) in auto)
  have signal: "makes reg ({} \<union> xs) (abind (ado (ctrl_SetupSignalHandler E)) g)" if "\<And>x. makes reg xs (g x)" for xs and g :: "_ \<Rightarrow> (_, int + unit) act"
    by (intro makes_abind_ado that) (use law(14) in auto)
  have "makes reg (({} \<union> {RScheme SchemeBuilder_registered}) \<union> ({} \<union> ({RManager} \<union> ({} \<union>
      (({RController (machine_SetupWithManager manager_reconciler)} \<union> {RController (pool_SetupWithManager manager_reconciler)}) \<union>
       (({RReader APIReader, RWebhook KMachine} \<union> ({RHandler PodResourceInjectorPath ?h} \<union> {})) \<union>
        ({RHealthz ''healthz''} \<union> {RReadyz ''readyz''})))))))
    (atry (main_init E) (\<lambda>_. main_setup E))"
    unfolding main_init_def main_setup_def setupReconcilers_def setupWebhooks_def setupHealthzCheck_def Let_def
      manager_reconciler_def
    by (intro makes_webhook [OF assms] makes_atry makes_or_exit makes_must makes_must_other makes_call flags handler signal law)
  then show ?thesis
    by (rule makes_mono) (simp add: all_registrations_def machine_SetupWithManager_def pool_SetupWithManager_def SchemeBuilder_registered_def machine_types_init_def machinenodepool_types_init_def
        NewResourceInjector_def PodResourceInjectorPath_def)
qed

text \<open>
  C27: the manager only runs when everything is registered. If scheme, manager, controllers,
  webhooks or probes cannot be set up, the process ends (with a panic or an exit code, and with
  code 1 unless the client configuration itself ended it) without ever starting the manager:
  it behaves alike whatever starting would do. Otherwise the manager is started in a world in
  which both controllers with their event sources (Machines, the pools and StatefulSets they own
  and Pods; pools and, filtered, Nodes), the Machine webhook with its uncached reader, the Pod handler and both probes are registered, and the exit code is 0 exactly when it stops without an error.
\<close>
theorem manager_runs_set_up:
  fixes E :: "('w, 'x) start_env_scheme"
  assumes "start_laws E reg"
  shows "case atry (main_init E) (\<lambda>_. main_setup E) w of
      (Ret (Inr _), w') \<Rightarrow> all_registrations \<subseteq> reg w' \<and>
        fst (run_process E rt v w) = Ret (case fst (mgr_Start E (setupLog_Info E (version_Get rt v) w')) of Inr _ \<Rightarrow> 0 | Inl _ \<Rightarrow> 1)
    | (Ret (Inl code), w') \<Rightarrow> run_process E rt v w = (Ret code, w') \<and>
        run_process (E\<lparr>mgr_Start := S\<rparr>) rt v w = run_process E rt v w
    | (Panic, w') \<Rightarrow> run_process E rt v w = (Panic, w') \<and>
        run_process (E\<lparr>mgr_Start := S\<rparr>) rt v w = run_process E rt v w"
proof -
  have run: "run_process E rt v w = (case atry (main_init E) (\<lambda>_. main_setup E) w of
      (Ret (Inr _), w') \<Rightarrow> abind (abind (ado (setupLog_Info E (version_Get rt v))) (\<lambda>_.
         or_exit E ''problem running imperator'' (mgr_Start E))) (\<lambda>r. aret (case r of Inl code \<Rightarrow> code | Inr _ \<Rightarrow> 0)) w'
    | (Ret (Inl code), w') \<Rightarrow> (Ret code, w') | (Panic, w') \<Rightarrow> (Panic, w'))" for E :: "('w, 'x) start_env_scheme" and w
    by (simp add: run_process_def main_main_def act_simps split: gores.split sum.split prod.split)
  have same: "atry (main_init (E\<lparr>mgr_Start := S\<rparr>)) (\<lambda>_. main_setup (E\<lparr>mgr_Start := S\<rparr>)) = atry (main_init E) (\<lambda>_. main_setup E)"
    by (simp add: main_init_def main_setup_def initFlags_def setupReconcilers_def setupWebhooks_def
        setupHealthzCheck_def or_exit_start SetupWebhook_start)
  show ?thesis
  proof (cases "atry (main_init E) (\<lambda>_. main_setup E) w")
    case (Pair r w')
    show ?thesis
    proof (cases r)
      case Panic
      with Pair show ?thesis by (simp add: run same)
    next
      case (Ret x)
      show ?thesis
      proof (cases x)
        case (Inl code)
        with Pair Ret show ?thesis by (simp add: run same)
      next
        case (Inr u)
        have "all_registrations \<subseteq> reg w'"
          using setup_makes [OF assms] Pair Ret Inr unfolding makes_def by blast
        with Pair Ret Inr show ?thesis
          by (simp add: run or_exit_def act_simps split: sum.split)
      qed
    qed
  qed
qed

text \<open>A machine on which the start-up can be run; its world is the set of registrations.\<close>

definition mem_start_env :: "registration set start_env" where
  "mem_start_env =
     \<lparr>clientgo_AddToScheme = (\<lambda>w. (Inr (), w)),
      imperator_AddToScheme = (\<lambda>ks w. (Inr (), insert (RScheme ks) w)),
      pflag_StringVar = (\<lambda>_ v w. (v, w)), pflag_BoolVar = (\<lambda>_ v w. (v, w)),
      pflag_DurationVar = (\<lambda>_ v w. (v, w)), pflag_IntVar = (\<lambda>_ v w. (v, w)),
      ctrl_GetConfigOrDie = (\<lambda>w. (Inr (), w)),
      ctrl_NewManager = (\<lambda>_ w. (Inr (), insert RManager w)), ctrl_SetupSignalHandler = (\<lambda>w. w),
      set_kubeReader = (\<lambda>c w. insert (RReader c) w),
      builder_run = (\<lambda>b w. (Inr (), insert (RController b) w)),
      webhook_Complete = (\<lambda>k w. (Inr (), insert (RWebhook k) w)),
      webhook_Register = (\<lambda>s h w. insert (RHandler s h) w),
      mgr_AddHealthzCheck = (\<lambda>s w. (Inr (), insert (RHealthz s) w)),
      mgr_AddReadyzCheck = (\<lambda>s w. (Inr (), insert (RReadyz s) w)),
      mgr_Start = (\<lambda>w. (Inr (), w)), setupLog_Error = (\<lambda>_ _ w. w), setupLog_Info = (\<lambda>_ w. w)\<rparr>"

lemma mem_start_laws: "start_laws mem_start_env (\<lambda>w. w)"
  by (auto simp: start_laws_def adds_def grows_def mem_start_env_def)

definition ex_runtime :: go_runtime where
  "ex_runtime = \<lparr>runtime_Version = ''go1.17'', runtime_Compiler = ''gc'', runtime_GOOS = ''linux'',
     runtime_GOARCH = ''amd64''\<rparr>"

theorem manager_runs_set_up_witness:
  "fst (run_process mem_start_env ex_runtime version_base {}) = Ret 0"
proof -
  have "\<exists>w'. atry (main_init mem_start_env) (\<lambda>_. main_setup mem_start_env) {} = (Ret (Inr ()), w')"
    by (simp add: main_init_def main_setup_def initFlags_def setupReconcilers_def setupWebhooks_def
        setupHealthzCheck_def or_exit_def must_def act_simps mem_start_env_def SetupWebhookWithManager_def Let_def)
  then obtain w' where "atry (main_init mem_start_env) (\<lambda>_. main_setup mem_start_env) {} = (Ret (Inr ()), w')" ..
  with manager_runs_set_up [OF mem_start_laws, where w = "{}" and rt = ex_runtime and v = version_base]
  show ?thesis by (simp add: mem_start_env_def)
qed

subsection \<open>The command line\<close>

text \<open>Defining a flag gives its variable the default value.\<close>

definition flag_laws :: "('w, 'x) start_env_scheme \<Rightarrow> bool" where
  "flag_laws E \<longleftrightarrow>
     (\<forall>n v w. fst (pflag_StringVar E n v w) = v) \<and> (\<forall>n v w. fst (pflag_BoolVar E n v w) = v) \<and>
     (\<forall>n v w. fst (pflag_DurationVar E n v w) = v) \<and> (\<forall>n v w. fst (pflag_IntVar E n v w) = v)"

definition default_options :: manager_options where
  "default_options =
     \<lparr>MetricsBindAddress = ''127.0.0.1:8080'', Port = 9443,
      CertDir = ''/tmp/k8s-webhook-server/serving-certs'', HealthProbeBindAddress = '':8081'',
      LeaderElection = True, LeaderElectionID = ''c402a1f6.imperator.tenzen-y.io'',
      SyncPeriod = 10 * 60 * 1000000000\<rparr>"

text \<open>
  C28: the flags have no effect. The manager is always created with the default options: in
  every world, hence for every command line, the process behaves as if the options were
  constants. \<open>pflag.Parse\<close> is called nowhere (\<open>main.go:67\<close>), although the flags are defined and
  the deployment passes one.
\<close>
theorem flags_have_no_effect:
  assumes "flag_laws E"
  shows "fst (initFlags E w) = Ret default_options \<and>
    run_process (E\<lparr>ctrl_NewManager := \<lambda>_. ctrl_NewManager E default_options\<rparr>) rt v w = run_process E rt v w"
proof -
  let ?E = "E\<lparr>ctrl_NewManager := \<lambda>_. ctrl_NewManager E default_options\<rparr>"
  have flags: "fst (initFlags E w) = Ret default_options" for w
    using assms by (simp add: initFlags_def act_simps flag_laws_def default_options_def Minute_def)
  have same: "initFlags ?E = initFlags E" "setupReconcilers ?E = setupReconcilers E"
    "setupWebhooks ?E = setupWebhooks E" "setupHealthzCheck ?E = setupHealthzCheck E" "main_init ?E = main_init E"
    by (simp_all add: initFlags_def setupReconcilers_def setupWebhooks_def setupHealthzCheck_def main_init_def or_exit_manager
        SetupWebhook_manager)
  have "main_setup ?E w = main_setup E w" for w
    using flags [of w]
    by (cases "initFlags E w") (auto simp: main_setup_def abind_run same or_exit_manager)
  then have set_up: "main_setup ?E = main_setup E" by (rule ext)
  have "run_process ?E = run_process E"
    by (intro ext) (simp add: run_process_def main_main_def same or_exit_manager set_up)
  with flags show ?thesis by simp
qed

theorem flags_have_no_effect_witness:
  "fst (initFlags mem_start_env {}) = Ret default_options"
proof -
  have "flag_laws mem_start_env" by (simp add: flag_laws_def mem_start_env_def)
  from flags_have_no_effect [OF this, of "{}" ex_runtime version_base] show ?thesis by simp
qed

end
