(* ===== verification/DeepCopy.thy ===== *)
theory DeepCopy
  imports ApiTypes
begin

text \<open>
  \<open>pkg/api/v1alpha1/zz_generated.deepcopy.go\<close>: the deep copies, on a memory in which slices and
  pointers are addresses. This is the one component whose subject is sharing; all others use
  the values of \<open>ApiTypes\<close>, and the theory \<open>DeepCopyProofs\<close> shows that a deep copy is that value,
  at addresses of its own. \<open>Quantity\<close>, \<open>ObjectMeta\<close>, \<open>ListMeta\<close> and \<open>Condition\<close> are types of
  libraries: their maps, slices and pointers are addresses too, and their copy functions, which
  read and write the memory, are fields of the environment.
\<close>

subsection \<open>Memory\<close>

type_synonym addr = nat

text \<open>A slice: nil, or the address of its array, an offset and a length. A pointer: nil or an address.\<close>

datatype slice_ref = NilSlice | Slice addr nat nat

text \<open>
  The library types with references, by their documented fields. A \<open>Quantity\<close> has its number in
  place or, when that does not fit, behind the pointer \<open>d.Dec\<close>. A map is nil or the address of its
  table. An owner reference is its serialised form, as in \<open>ApiTypes\<close>.
\<close>

record go_Quantity =
  gq_i :: quantity
  gq_Dec :: "addr option"

record go_ObjectMeta =
  gom_Name :: string
  gom_Namespace :: string
  gom_Labels :: "addr option"
  gom_Annotations :: "addr option"
  gom_DeletionTimestamp :: "addr option"
  gom_Finalizers :: slice_ref
  gom_OwnerReferences :: slice_ref

record go_ListMeta =
  glm_ResourceVersion :: string
  glm_Continue :: string
  glm_RemainingItemCount :: "addr option"

record go_NodePool =
  gnp_Name :: string
  gnp_Mode :: NodePoolMode
  gnp_Taint :: bool
  gnp_MachineType :: slice_ref

record go_GPUSpec =
  ggs_Type :: string
  ggs_Num :: go_Quantity
  ggs_Family :: string
  ggs_Product :: string
  ggs_Machine :: string

record go_MachineDetailSpec =
  gds_CPU :: go_Quantity
  gds_Memory :: go_Quantity
  gds_GPU :: "addr option"

record go_MachineType =
  gmt_Name :: string
  gmt_Spec :: go_MachineDetailSpec
  gmt_Available :: int32

record go_MachineSpec =
  gms_NodePool :: slice_ref
  gms_MachineTypes :: slice_ref

record go_MachineStatus =
  gmst_Conditions :: slice_ref
  gmst_AvailableMachines :: slice_ref

record go_Machine =
  gm_Meta :: go_ObjectMeta
  gm_Spec :: go_MachineSpec
  gm_Status :: go_MachineStatus

record go_MachineNodePoolSpec =
  gps_MachineGroupName :: string
  gps_NodePool :: slice_ref
  gps_MachineTypeStock :: slice_ref

record go_MachineNodePoolStatus =
  gpst_Conditions :: slice_ref
  gpst_NodePoolCondition :: slice_ref

record go_MachineNodePool =
  gp_Meta :: go_ObjectMeta
  gp_Spec :: go_MachineNodePoolSpec
  gp_Status :: go_MachineNodePoolStatus

record go_MachineList =
  gml_ListMeta :: go_ListMeta
  gml_Items :: slice_ref

record go_MachineNodePoolList =
  gpl_ListMeta :: go_ListMeta
  gpl_Items :: slice_ref

text \<open>What an address holds: an array of one element type. The target of a pointer, and the table of a map, is an array of one.\<close>

datatype cell =
    NodePools "go_NodePool list" | NodePoolMachineTypes "NodePoolMachineType list"
  | MachineTypes "go_MachineType list" | GPUSpecs "go_GPUSpec list" | Conditions "Condition list"
  | AvailableMachines "AvailableMachineCondition list" | Stocks "NodePoolMachineTypeStock list"
  | NodePoolConditions "NodePoolCondition list" | Machines "go_Machine list"
  | MachineNodePools "go_MachineNodePool list" | Decs "quantity list" | Tables "smap list"
  | Times "time list" | Counts "int list" | Strings "string list"

text \<open>Addresses from \<open>next_addr\<close> on are free.\<close>

record memory =
  cells :: "addr \<Rightarrow> cell option"
  next_addr :: addr

definition new_cell :: "cell \<Rightarrow> memory \<Rightarrow> addr \<times> memory" where
  "new_cell c m = (next_addr m, \<lparr>cells = (cells m)(next_addr m \<mapsto> c), next_addr = Suc (next_addr m)\<rparr>)"

definition write_cell :: "addr \<Rightarrow> cell \<Rightarrow> memory \<Rightarrow> memory" where
  "write_cell a c m = m\<lparr>cells := (cells m)(a \<mapsto> c)\<rparr>"

text \<open>How the arrays of one element type are stored, and the zero value of that type.\<close>

record 'a array_kind =
  wrap :: "'a list \<Rightarrow> cell"
  unwrap :: "cell \<Rightarrow> 'a list option"
  zero :: 'a

definition array_at :: "'a array_kind \<Rightarrow> memory \<Rightarrow> addr \<Rightarrow> 'a list" where
  "array_at K m a = (case cells m a of
     None \<Rightarrow> [] | Some c \<Rightarrow> (case unwrap K c of None \<Rightarrow> [] | Some xs \<Rightarrow> xs))"

text \<open>
  \<open>*out = make([]T, len(*in)); copy(*out, *in)\<close>, and the same with the loop
  \<open>for i := range *in { (*in)[i].DeepCopyInto(&(*out)[i]) }\<close>; a nil slice stays nil.
\<close>

definition copy_slice :: "'a array_kind \<Rightarrow> slice_ref \<Rightarrow> memory \<Rightarrow> slice_ref \<times> memory" where
  "copy_slice K s m = (case s of
     NilSlice \<Rightarrow> (NilSlice, m)
   | Slice a off n \<Rightarrow>
       (let (d, m) = new_cell (wrap K (take n (drop off (array_at K m a)))) m in (Slice d 0 n, m)))"

fun copy_loop :: "'a array_kind \<Rightarrow> ('a \<Rightarrow> memory \<Rightarrow> 'a \<times> memory) \<Rightarrow> addr \<Rightarrow> nat \<Rightarrow> addr \<Rightarrow>
    nat \<Rightarrow> nat \<Rightarrow> memory \<Rightarrow> memory" where
  "copy_loop K into a off d i 0 m = m"
| "copy_loop K into a off d i (Suc k) m =
     (let (y, m) = into (array_at K m a ! (off + i)) m
      in copy_loop K into a off d (Suc i) k (write_cell d (wrap K ((array_at K m d)[i := y])) m))"

definition deep_copy_slice :: "'a array_kind \<Rightarrow> ('a \<Rightarrow> memory \<Rightarrow> 'a \<times> memory) \<Rightarrow> slice_ref \<Rightarrow>
    memory \<Rightarrow> slice_ref \<times> memory" where
  "deep_copy_slice K into s m = (case s of
     NilSlice \<Rightarrow> (NilSlice, m)
   | Slice a off n \<Rightarrow>
       (let (d, m) = new_cell (wrap K (replicate n (zero K))) m
        in (Slice d 0 n, copy_loop K into a off d 0 n m)))"

text \<open>
  \<open>*out = new(T); ( *in).DeepCopyInto( *out)\<close>; a nil pointer stays nil.
\<close>

definition deep_copy_pointer :: "'a array_kind \<Rightarrow> ('a \<Rightarrow> memory \<Rightarrow> 'a \<times> memory) \<Rightarrow> addr option \<Rightarrow>
    memory \<Rightarrow> addr option \<times> memory" where
  "deep_copy_pointer K into p m = (case p of
     None \<Rightarrow> (None, m)
   | Some a \<Rightarrow>
       (let (d, m) = new_cell (wrap K [zero K]) m;
            (y, m) = into (array_at K m a ! 0) m
        in (Some d, write_cell d (wrap K ((array_at K m d)[0 := y])) m)))"

text \<open>\<open>if in == nil { return nil }; out := new(T); in.DeepCopyInto(out); return out\<close>.\<close>

definition deep_copy :: "('a \<Rightarrow> memory \<Rightarrow> 'a \<times> memory) \<Rightarrow> 'a option \<Rightarrow> memory \<Rightarrow> 'a option \<times> memory" where
  "deep_copy into x m = (case x of
     None \<Rightarrow> (None, m)
   | Some x \<Rightarrow> (let (y, m) = into x m in (Some y, m)))"

subsection \<open>The element types of the arrays\<close>

fun un_NodePools :: "cell \<Rightarrow> go_NodePool list option" where
  "un_NodePools (NodePools xs) = Some xs" | "un_NodePools _ = None"

fun un_NodePoolMachineTypes :: "cell \<Rightarrow> NodePoolMachineType list option" where
  "un_NodePoolMachineTypes (NodePoolMachineTypes xs) = Some xs" | "un_NodePoolMachineTypes _ = None"

fun un_MachineTypes :: "cell \<Rightarrow> go_MachineType list option" where
  "un_MachineTypes (MachineTypes xs) = Some xs" | "un_MachineTypes _ = None"

fun un_GPUSpecs :: "cell \<Rightarrow> go_GPUSpec list option" where
  "un_GPUSpecs (GPUSpecs xs) = Some xs" | "un_GPUSpecs _ = None"

fun un_Conditions :: "cell \<Rightarrow> Condition list option" where
  "un_Conditions (Conditions xs) = Some xs" | "un_Conditions _ = None"

fun un_AvailableMachines :: "cell \<Rightarrow> AvailableMachineCondition list option" where
  "un_AvailableMachines (AvailableMachines xs) = Some xs" | "un_AvailableMachines _ = None"

fun un_Stocks :: "cell \<Rightarrow> NodePoolMachineTypeStock list option" where
  "un_Stocks (Stocks xs) = Some xs" | "un_Stocks _ = None"

fun un_NodePoolConditions :: "cell \<Rightarrow> NodePoolCondition list option" where
  "un_NodePoolConditions (NodePoolConditions xs) = Some xs" | "un_NodePoolConditions _ = None"

fun un_Machines :: "cell \<Rightarrow> go_Machine list option" where
  "un_Machines (Machines xs) = Some xs" | "un_Machines _ = None"

fun un_MachineNodePools :: "cell \<Rightarrow> go_MachineNodePool list option" where
  "un_MachineNodePools (MachineNodePools xs) = Some xs" | "un_MachineNodePools _ = None"

fun un_Decs :: "cell \<Rightarrow> quantity list option" where
  "un_Decs (Decs xs) = Some xs" | "un_Decs _ = None"

fun un_Tables :: "cell \<Rightarrow> smap list option" where
  "un_Tables (Tables xs) = Some xs" | "un_Tables _ = None"

fun un_Times :: "cell \<Rightarrow> time list option" where
  "un_Times (Times xs) = Some xs" | "un_Times _ = None"

fun un_Counts :: "cell \<Rightarrow> int list option" where
  "un_Counts (Counts xs) = Some xs" | "un_Counts _ = None"

fun un_Strings :: "cell \<Rightarrow> string list option" where
  "un_Strings (Strings xs) = Some xs" | "un_Strings _ = None"

definition zero_Quantity :: go_Quantity where
  "zero_Quantity = \<lparr>gq_i = Quantity [], gq_Dec = None\<rparr>"

definition zero_ObjectMeta :: go_ObjectMeta where
  "zero_ObjectMeta = \<lparr>gom_Name = [], gom_Namespace = [], gom_Labels = None, gom_Annotations = None,
     gom_DeletionTimestamp = None, gom_Finalizers = NilSlice, gom_OwnerReferences = NilSlice\<rparr>"

definition zero_GPUSpec :: go_GPUSpec where
  "zero_GPUSpec = \<lparr>ggs_Type = [], ggs_Num = zero_Quantity, ggs_Family = [], ggs_Product = [], ggs_Machine = []\<rparr>"

definition zero_NodePool :: go_NodePool where
  "zero_NodePool = \<lparr>gnp_Name = [], gnp_Mode = [], gnp_Taint = False, gnp_MachineType = NilSlice\<rparr>"

definition zero_MachineType :: go_MachineType where
  "zero_MachineType = \<lparr>gmt_Name = [], gmt_Spec = \<lparr>gds_CPU = zero_Quantity, gds_Memory = zero_Quantity, gds_GPU = None\<rparr>,
     gmt_Available = 0\<rparr>"

definition zero_Condition :: Condition where
  "zero_Condition = \<lparr>cond_Type = [], cond_Status = [], cond_LastTransitionTime = 0, cond_Reason = [], cond_Message = []\<rparr>"

definition zero_Machine :: go_Machine where
  "zero_Machine = \<lparr>gm_Meta = zero_ObjectMeta, gm_Spec = \<lparr>gms_NodePool = NilSlice, gms_MachineTypes = NilSlice\<rparr>,
     gm_Status = \<lparr>gmst_Conditions = NilSlice, gmst_AvailableMachines = NilSlice\<rparr>\<rparr>"

definition zero_MachineNodePool :: go_MachineNodePool where
  "zero_MachineNodePool = \<lparr>gp_Meta = zero_ObjectMeta,
     gp_Spec = \<lparr>gps_MachineGroupName = [], gps_NodePool = NilSlice, gps_MachineTypeStock = NilSlice\<rparr>,
     gp_Status = \<lparr>gpst_Conditions = NilSlice, gpst_NodePoolCondition = NilSlice\<rparr>\<rparr>"

definition NodePool_array :: "go_NodePool array_kind" where
  "NodePool_array = \<lparr>wrap = NodePools, unwrap = un_NodePools, zero = zero_NodePool\<rparr>"

definition NodePoolMachineType_array :: "NodePoolMachineType array_kind" where
  "NodePoolMachineType_array = \<lparr>wrap = NodePoolMachineTypes, unwrap = un_NodePoolMachineTypes,
     zero = \<lparr>npmt_Name = []\<rparr>\<rparr>"

definition MachineType_array :: "go_MachineType array_kind" where
  "MachineType_array = \<lparr>wrap = MachineTypes, unwrap = un_MachineTypes, zero = zero_MachineType\<rparr>"

definition GPUSpec_array :: "go_GPUSpec array_kind" where
  "GPUSpec_array = \<lparr>wrap = GPUSpecs, unwrap = un_GPUSpecs, zero = zero_GPUSpec\<rparr>"

definition Condition_array :: "Condition array_kind" where
  "Condition_array = \<lparr>wrap = Conditions, unwrap = un_Conditions, zero = zero_Condition\<rparr>"

definition AvailableMachine_array :: "AvailableMachineCondition array_kind" where
  "AvailableMachine_array = \<lparr>wrap = AvailableMachines, unwrap = un_AvailableMachines,
     zero = \<lparr>am_Name = [], am_Usage = \<lparr>Maximum = 0, Reserved = 0, Used = 0, Waiting = 0\<rparr>\<rparr>\<rparr>"

definition Stock_array :: "NodePoolMachineTypeStock array_kind" where
  "Stock_array = \<lparr>wrap = Stocks, unwrap = un_Stocks, zero = \<lparr>stock_Name = []\<rparr>\<rparr>"

definition NodePoolCondition_array :: "NodePoolCondition array_kind" where
  "NodePoolCondition_array = \<lparr>wrap = NodePoolConditions, unwrap = un_NodePoolConditions,
     zero = \<lparr>npc_Name = [], npc_NodeCondition = []\<rparr>\<rparr>"

definition Machine_array :: "go_Machine array_kind" where
  "Machine_array = \<lparr>wrap = Machines, unwrap = un_Machines, zero = zero_Machine\<rparr>"

definition MachineNodePool_array :: "go_MachineNodePool array_kind" where
  "MachineNodePool_array = \<lparr>wrap = MachineNodePools, unwrap = un_MachineNodePools, zero = zero_MachineNodePool\<rparr>"

text \<open>The arrays of the libraries.\<close>

definition Dec_array :: "quantity array_kind" where
  "Dec_array = \<lparr>wrap = Decs, unwrap = un_Decs, zero = Quantity []\<rparr>"

definition Table_array :: "smap array_kind" where
  "Table_array = \<lparr>wrap = Tables, unwrap = un_Tables, zero = Map.empty\<rparr>"

definition Time_array :: "time array_kind" where
  "Time_array = \<lparr>wrap = Times, unwrap = un_Times, zero = 0\<rparr>"

definition Count_array :: "int array_kind" where
  "Count_array = \<lparr>wrap = Counts, unwrap = un_Counts, zero = 0\<rparr>"

definition String_array :: "string array_kind" where
  "String_array = \<lparr>wrap = Strings, unwrap = un_Strings, zero = []\<rparr>"

subsection \<open>DeepCopyInto\<close>

text \<open>The copy functions of the libraries.\<close>

record copy_env =
  Quantity_DeepCopy :: "go_Quantity \<Rightarrow> memory \<Rightarrow> go_Quantity \<times> memory"
  ObjectMeta_DeepCopyInto :: "go_ObjectMeta \<Rightarrow> memory \<Rightarrow> go_ObjectMeta \<times> memory"
  ListMeta_DeepCopyInto :: "go_ListMeta \<Rightarrow> memory \<Rightarrow> go_ListMeta \<times> memory"
  Condition_DeepCopyInto :: "Condition \<Rightarrow> memory \<Rightarrow> Condition \<times> memory"

definition UsageCondition_DeepCopyInto :: "UsageCondition \<Rightarrow> memory \<Rightarrow> UsageCondition \<times> memory" where
  "UsageCondition_DeepCopyInto x m = (x, m)"

definition AvailableMachineCondition_DeepCopyInto ::
    "AvailableMachineCondition \<Rightarrow> memory \<Rightarrow> AvailableMachineCondition \<times> memory" where
  "AvailableMachineCondition_DeepCopyInto x m = (let out = x in (out\<lparr>am_Usage := am_Usage x\<rparr>, m))"

definition NodePoolCondition_DeepCopyInto :: "NodePoolCondition \<Rightarrow> memory \<Rightarrow> NodePoolCondition \<times> memory" where
  "NodePoolCondition_DeepCopyInto x m = (x, m)"

definition NodePoolMachineType_DeepCopyInto :: "NodePoolMachineType \<Rightarrow> memory \<Rightarrow> NodePoolMachineType \<times> memory" where
  "NodePoolMachineType_DeepCopyInto x m = (x, m)"

definition NodePoolMachineTypeStock_DeepCopyInto ::
    "NodePoolMachineTypeStock \<Rightarrow> memory \<Rightarrow> NodePoolMachineTypeStock \<times> memory" where
  "NodePoolMachineTypeStock_DeepCopyInto x m = (x, m)"

definition GPUSpec_DeepCopyInto :: "copy_env \<Rightarrow> go_GPUSpec \<Rightarrow> memory \<Rightarrow> go_GPUSpec \<times> memory" where
  "GPUSpec_DeepCopyInto L x m = (let (n, m) = Quantity_DeepCopy L (ggs_Num x) m in (x\<lparr>ggs_Num := n\<rparr>, m))"

definition MachineDetailSpec_DeepCopyInto ::
    "copy_env \<Rightarrow> go_MachineDetailSpec \<Rightarrow> memory \<Rightarrow> go_MachineDetailSpec \<times> memory" where
  "MachineDetailSpec_DeepCopyInto L x m =
     (let (cpu, m) = Quantity_DeepCopy L (gds_CPU x) m;
          (mem, m) = Quantity_DeepCopy L (gds_Memory x) m;
          (gpu, m) = deep_copy_pointer GPUSpec_array (GPUSpec_DeepCopyInto L) (gds_GPU x) m
      in (x\<lparr>gds_CPU := cpu, gds_Memory := mem, gds_GPU := gpu\<rparr>, m))"

definition MachineType_DeepCopyInto :: "copy_env \<Rightarrow> go_MachineType \<Rightarrow> memory \<Rightarrow> go_MachineType \<times> memory" where
  "MachineType_DeepCopyInto L x m =
     (let (spec, m) = MachineDetailSpec_DeepCopyInto L (gmt_Spec x) m in (x\<lparr>gmt_Spec := spec\<rparr>, m))"

definition NodePool_DeepCopyInto :: "go_NodePool \<Rightarrow> memory \<Rightarrow> go_NodePool \<times> memory" where
  "NodePool_DeepCopyInto x m =
     (let (s, m) = copy_slice NodePoolMachineType_array (gnp_MachineType x) m in (x\<lparr>gnp_MachineType := s\<rparr>, m))"

definition MachineSpec_DeepCopyInto :: "copy_env \<Rightarrow> go_MachineSpec \<Rightarrow> memory \<Rightarrow> go_MachineSpec \<times> memory" where
  "MachineSpec_DeepCopyInto L x m =
     (let (ps, m) = deep_copy_slice NodePool_array NodePool_DeepCopyInto (gms_NodePool x) m;
          (ts, m) = deep_copy_slice MachineType_array (MachineType_DeepCopyInto L) (gms_MachineTypes x) m
      in (x\<lparr>gms_NodePool := ps, gms_MachineTypes := ts\<rparr>, m))"

definition MachineStatus_DeepCopyInto ::
    "copy_env \<Rightarrow> go_MachineStatus \<Rightarrow> memory \<Rightarrow> go_MachineStatus \<times> memory" where
  "MachineStatus_DeepCopyInto L x m =
     (let (cs, m) = deep_copy_slice Condition_array (Condition_DeepCopyInto L) (gmst_Conditions x) m;
          (ams, m) = copy_slice AvailableMachine_array (gmst_AvailableMachines x) m
      in (x\<lparr>gmst_Conditions := cs, gmst_AvailableMachines := ams\<rparr>, m))"

definition Machine_DeepCopyInto :: "copy_env \<Rightarrow> go_Machine \<Rightarrow> memory \<Rightarrow> go_Machine \<times> memory" where
  "Machine_DeepCopyInto L x m =
     (let (meta, m) = ObjectMeta_DeepCopyInto L (gm_Meta x) m;
          (spec, m) = MachineSpec_DeepCopyInto L (gm_Spec x) m;
          (status, m) = MachineStatus_DeepCopyInto L (gm_Status x) m
      in (x\<lparr>gm_Meta := meta, gm_Spec := spec, gm_Status := status\<rparr>, m))"

definition MachineList_DeepCopyInto ::
    "copy_env \<Rightarrow> go_MachineList \<Rightarrow> memory \<Rightarrow> go_MachineList \<times> memory" where
  "MachineList_DeepCopyInto L x m =
     (let (meta, m) = ListMeta_DeepCopyInto L (gml_ListMeta x) m;
          (items, m) = deep_copy_slice Machine_array (Machine_DeepCopyInto L) (gml_Items x) m
      in (x\<lparr>gml_ListMeta := meta, gml_Items := items\<rparr>, m))"

definition MachineNodePoolSpec_DeepCopyInto ::
    "go_MachineNodePoolSpec \<Rightarrow> memory \<Rightarrow> go_MachineNodePoolSpec \<times> memory" where
  "MachineNodePoolSpec_DeepCopyInto x m =
     (let (ps, m) = deep_copy_slice NodePool_array NodePool_DeepCopyInto (gps_NodePool x) m;
          (ss, m) = copy_slice Stock_array (gps_MachineTypeStock x) m
      in (x\<lparr>gps_NodePool := ps, gps_MachineTypeStock := ss\<rparr>, m))"

definition MachineNodePoolStatus_DeepCopyInto ::
    "copy_env \<Rightarrow> go_MachineNodePoolStatus \<Rightarrow> memory \<Rightarrow> go_MachineNodePoolStatus \<times> memory" where
  "MachineNodePoolStatus_DeepCopyInto L x m =
     (let (cs, m) = deep_copy_slice Condition_array (Condition_DeepCopyInto L) (gpst_Conditions x) m;
          (ncs, m) = copy_slice NodePoolCondition_array (gpst_NodePoolCondition x) m
      in (x\<lparr>gpst_Conditions := cs, gpst_NodePoolCondition := ncs\<rparr>, m))"

definition MachineNodePool_DeepCopyInto ::
    "copy_env \<Rightarrow> go_MachineNodePool \<Rightarrow> memory \<Rightarrow> go_MachineNodePool \<times> memory" where
  "MachineNodePool_DeepCopyInto L x m =
     (let (meta, m) = ObjectMeta_DeepCopyInto L (gp_Meta x) m;
          (spec, m) = MachineNodePoolSpec_DeepCopyInto (gp_Spec x) m;
          (status, m) = MachineNodePoolStatus_DeepCopyInto L (gp_Status x) m
      in (x\<lparr>gp_Meta := meta, gp_Spec := spec, gp_Status := status\<rparr>, m))"

definition MachineNodePoolList_DeepCopyInto ::
    "copy_env \<Rightarrow> go_MachineNodePoolList \<Rightarrow> memory \<Rightarrow> go_MachineNodePoolList \<times> memory" where
  "MachineNodePoolList_DeepCopyInto L x m =
     (let (meta, m) = ListMeta_DeepCopyInto L (gpl_ListMeta x) m;
          (items, m) = deep_copy_slice MachineNodePool_array (MachineNodePool_DeepCopyInto L) (gpl_Items x) m
      in (x\<lparr>gpl_ListMeta := meta, gpl_Items := items\<rparr>, m))"

subsection \<open>DeepCopy and DeepCopyObject\<close>

definition AvailableMachineCondition_DeepCopy :: "AvailableMachineCondition option \<Rightarrow> memory \<Rightarrow> AvailableMachineCondition option \<times> memory" where
  "AvailableMachineCondition_DeepCopy = deep_copy AvailableMachineCondition_DeepCopyInto"

definition GPUSpec_DeepCopy :: "copy_env \<Rightarrow> go_GPUSpec option \<Rightarrow> memory \<Rightarrow> go_GPUSpec option \<times> memory" where
  "GPUSpec_DeepCopy L = deep_copy (GPUSpec_DeepCopyInto L)"

definition Machine_DeepCopy :: "copy_env \<Rightarrow> go_Machine option \<Rightarrow> memory \<Rightarrow> go_Machine option \<times> memory" where
  "Machine_DeepCopy L = deep_copy (Machine_DeepCopyInto L)"

definition MachineDetailSpec_DeepCopy :: "copy_env \<Rightarrow> go_MachineDetailSpec option \<Rightarrow> memory \<Rightarrow> go_MachineDetailSpec option \<times> memory" where
  "MachineDetailSpec_DeepCopy L = deep_copy (MachineDetailSpec_DeepCopyInto L)"

definition MachineList_DeepCopy :: "copy_env \<Rightarrow> go_MachineList option \<Rightarrow> memory \<Rightarrow> go_MachineList option \<times> memory" where
  "MachineList_DeepCopy L = deep_copy (MachineList_DeepCopyInto L)"

definition MachineNodePool_DeepCopy :: "copy_env \<Rightarrow> go_MachineNodePool option \<Rightarrow> memory \<Rightarrow> go_MachineNodePool option \<times> memory" where
  "MachineNodePool_DeepCopy L = deep_copy (MachineNodePool_DeepCopyInto L)"

definition MachineNodePoolList_DeepCopy :: "copy_env \<Rightarrow> go_MachineNodePoolList option \<Rightarrow> memory \<Rightarrow> go_MachineNodePoolList option \<times> memory" where
  "MachineNodePoolList_DeepCopy L = deep_copy (MachineNodePoolList_DeepCopyInto L)"

definition MachineNodePoolSpec_DeepCopy :: "go_MachineNodePoolSpec option \<Rightarrow> memory \<Rightarrow> go_MachineNodePoolSpec option \<times> memory" where
  "MachineNodePoolSpec_DeepCopy = deep_copy MachineNodePoolSpec_DeepCopyInto"

definition MachineNodePoolStatus_DeepCopy :: "copy_env \<Rightarrow> go_MachineNodePoolStatus option \<Rightarrow> memory \<Rightarrow> go_MachineNodePoolStatus option \<times> memory" where
  "MachineNodePoolStatus_DeepCopy L = deep_copy (MachineNodePoolStatus_DeepCopyInto L)"

definition MachineSpec_DeepCopy :: "copy_env \<Rightarrow> go_MachineSpec option \<Rightarrow> memory \<Rightarrow> go_MachineSpec option \<times> memory" where
  "MachineSpec_DeepCopy L = deep_copy (MachineSpec_DeepCopyInto L)"

definition MachineStatus_DeepCopy :: "copy_env \<Rightarrow> go_MachineStatus option \<Rightarrow> memory \<Rightarrow> go_MachineStatus option \<times> memory" where
  "MachineStatus_DeepCopy L = deep_copy (MachineStatus_DeepCopyInto L)"

definition MachineType_DeepCopy :: "copy_env \<Rightarrow> go_MachineType option \<Rightarrow> memory \<Rightarrow> go_MachineType option \<times> memory" where
  "MachineType_DeepCopy L = deep_copy (MachineType_DeepCopyInto L)"

definition NodePool_DeepCopy :: "go_NodePool option \<Rightarrow> memory \<Rightarrow> go_NodePool option \<times> memory" where
  "NodePool_DeepCopy = deep_copy NodePool_DeepCopyInto"

definition NodePoolCondition_DeepCopy :: "NodePoolCondition option \<Rightarrow> memory \<Rightarrow> NodePoolCondition option \<times> memory" where
  "NodePoolCondition_DeepCopy = deep_copy NodePoolCondition_DeepCopyInto"

definition NodePoolMachineType_DeepCopy :: "NodePoolMachineType option \<Rightarrow> memory \<Rightarrow> NodePoolMachineType option \<times> memory" where
  "NodePoolMachineType_DeepCopy = deep_copy NodePoolMachineType_DeepCopyInto"

definition NodePoolMachineTypeStock_DeepCopy :: "NodePoolMachineTypeStock option \<Rightarrow> memory \<Rightarrow> NodePoolMachineTypeStock option \<times> memory" where
  "NodePoolMachineTypeStock_DeepCopy = deep_copy NodePoolMachineTypeStock_DeepCopyInto"

definition UsageCondition_DeepCopy :: "UsageCondition option \<Rightarrow> memory \<Rightarrow> UsageCondition option \<times> memory" where
  "UsageCondition_DeepCopy = deep_copy UsageCondition_DeepCopyInto"

text \<open>
  \<open>DeepCopyObject\<close> returns the copy as a \<open>runtime.Object\<close>, the interface of the objects that the
  scheme knows, and a nil interface where the copy is nil.
\<close>

datatype runtime_Object =
    Obj_Machine go_Machine | Obj_MachineList go_MachineList
  | Obj_MachineNodePool go_MachineNodePool | Obj_MachineNodePoolList go_MachineNodePoolList

definition copy_object :: "('a \<Rightarrow> 'o) \<Rightarrow> 'a option \<times> memory \<Rightarrow> 'o option \<times> memory" where
  "copy_object C r = (case r of (Some c, m) \<Rightarrow> (Some (C c), m) | (None, m) \<Rightarrow> (None, m))"

definition Machine_DeepCopyObject ::
    "copy_env \<Rightarrow> go_Machine option \<Rightarrow> memory \<Rightarrow> runtime_Object option \<times> memory" where
  "Machine_DeepCopyObject L x m = copy_object Obj_Machine (Machine_DeepCopy L x m)"

definition MachineList_DeepCopyObject ::
    "copy_env \<Rightarrow> go_MachineList option \<Rightarrow> memory \<Rightarrow> runtime_Object option \<times> memory" where
  "MachineList_DeepCopyObject L x m = copy_object Obj_MachineList (MachineList_DeepCopy L x m)"

definition MachineNodePool_DeepCopyObject ::
    "copy_env \<Rightarrow> go_MachineNodePool option \<Rightarrow> memory \<Rightarrow> runtime_Object option \<times> memory" where
  "MachineNodePool_DeepCopyObject L x m = copy_object Obj_MachineNodePool (MachineNodePool_DeepCopy L x m)"

definition MachineNodePoolList_DeepCopyObject ::
    "copy_env \<Rightarrow> go_MachineNodePoolList option \<Rightarrow> memory \<Rightarrow> runtime_Object option \<times> memory" where
  "MachineNodePoolList_DeepCopyObject L x m = copy_object Obj_MachineNodePoolList (MachineNodePoolList_DeepCopy L x m)"

end
