(* ===== verification/CopyLaws.thy ===== *)
theory CopyLaws
  imports DeepCopy
begin

text \<open>
  What a deep copy promises, as a locale over memory: a representation \<open>x\<close> stands for a value and
  owns addresses; the copy stands for the same value and owns new addresses only. The contract is
  closed under the constructions of the generated code: a struct of two parts, a slice of plain
  values, a slice copied element by element.
\<close>

subsection \<open>Memories\<close>

definition wf_memory :: "memory \<Rightarrow> bool" where
  "wf_memory m \<longleftrightarrow> (\<forall>a\<ge>next_addr m. cells m a = None)"

definition same_on :: "addr set \<Rightarrow> memory \<Rightarrow> memory \<Rightarrow> bool" where
  "same_on A m m' \<longleftrightarrow> (\<forall>a\<in>A. cells m' a = cells m a)"

definition extends :: "memory \<Rightarrow> memory \<Rightarrow> bool" where
  "extends m m' \<longleftrightarrow> wf_memory m' \<and> next_addr m \<le> next_addr m' \<and> same_on {..<next_addr m} m m'"

named_theorems memory_rules

lemma wf_dom: "wf_memory m \<Longrightarrow> cells m a = Some c \<Longrightarrow> a < next_addr m"
  by (metis leI option.distinct(1) wf_memory_def)

lemma extends_refl: "wf_memory m \<Longrightarrow> extends m m"
  by (simp add: extends_def same_on_def)

lemma extends_trans: "extends m m' \<Longrightarrow> extends m' m'' \<Longrightarrow> extends m m''"
  by (auto simp: extends_def same_on_def)

lemma extends_wf [memory_rules]: "extends m m' \<Longrightarrow> wf_memory m'"
  by (simp add: extends_def)

lemma extends_next: "extends m m' \<Longrightarrow> next_addr m \<le> next_addr m'"
  by (simp add: extends_def)

lemma extends_cells: "extends m m' \<Longrightarrow> a < next_addr m \<Longrightarrow> cells m' a = cells m a"
  by (simp add: extends_def same_on_def)

lemma same_on_mono: "same_on A m m' \<Longrightarrow> B \<subseteq> A \<Longrightarrow> same_on B m m'"
  by (auto simp: same_on_def)

lemma same_on_Un [simp]: "same_on (A \<union> B) m m' \<longleftrightarrow> same_on A m m' \<and> same_on B m m'"
  by (auto simp: same_on_def)

lemma same_on_empty [simp]: "same_on {} m m'"
  by (simp add: same_on_def)

lemma same_on_write [simp]: "a \<notin> A \<Longrightarrow> same_on A m (write_cell a c m)"
  by (auto simp: same_on_def write_cell_def)

lemma new_cell_extends:
  "wf_memory m \<Longrightarrow> new_cell c m = (d, m') \<Longrightarrow> extends m m' \<and> d = next_addr m \<and> next_addr m' = Suc d \<and> cells m' d = Some c"
  by (auto simp: new_cell_def extends_def same_on_def wf_memory_def)

lemma write_extends:
  "extends m m' \<Longrightarrow> next_addr m \<le> d \<Longrightarrow> d < next_addr m' \<Longrightarrow> extends m (write_cell d c m')"
  by (auto simp: extends_def same_on_def write_cell_def wf_memory_def)

subsection \<open>The contract\<close>

locale copyable =
  fixes at :: "memory \<Rightarrow> 'c \<Rightarrow> 'v option"
    and addrs :: "memory \<Rightarrow> 'c \<Rightarrow> addr set"
    and into :: "'c \<Rightarrow> memory \<Rightarrow> 'c \<times> memory"
  assumes local_at: "at m x = Some v \<Longrightarrow> same_on (addrs m x) m m' \<Longrightarrow> at m' x = Some v \<and> addrs m' x = addrs m x"
    and allocated: "at m x = Some v \<Longrightarrow> a \<in> addrs m x \<Longrightarrow> cells m a \<noteq> None"
    and copies: "wf_memory m \<Longrightarrow> at m x = Some v \<Longrightarrow> into x m = (y, m') \<Longrightarrow>
        extends m m' \<and> at m' y = Some v \<and> addrs m' y \<subseteq> {next_addr m..<next_addr m'}"
begin

lemma addrs_below: "wf_memory m \<Longrightarrow> at m x = Some v \<Longrightarrow> addrs m x \<subseteq> {..<next_addr m}"
  by (metis allocated lessThan_iff not_None_eq subsetI wf_dom)

lemma at_extends:
  "wf_memory m \<Longrightarrow> at m x = Some v \<Longrightarrow> extends m m' \<Longrightarrow> at m' x = Some v \<and> addrs m' x = addrs m x"
  by (meson addrs_below extends_def local_at same_on_mono)

lemma copy_apart:
  assumes "wf_memory m" and "at m x = Some v" and "into x m = (y, m')"
  shows "at m' x = Some v \<and> at m' y = Some v \<and> addrs m' x \<inter> addrs m' y = {}"
proof -
  have c: "extends m m'" "at m' y = Some v" "addrs m' y \<subseteq> {next_addr m..<next_addr m'}"
    using copies [OF assms] by auto
  have o: "at m' x = Some v" "addrs m' x = addrs m x" using at_extends [OF assms(1,2) c(1)] by auto
  with addrs_below [OF assms(1,2)] c show ?thesis by fastforce
qed

end

subsection \<open>Isolation\<close>

text \<open>
  The original and the copy stand for the same value; whatever becomes of the addresses of one,
  the other keeps that value.
\<close>

definition isolated :: "(memory \<Rightarrow> 'c \<Rightarrow> 'v option) \<Rightarrow> (memory \<Rightarrow> 'c \<Rightarrow> addr set) \<Rightarrow> 'v \<Rightarrow> 'c \<Rightarrow> 'c \<Rightarrow>
    memory \<Rightarrow> bool" where
  "isolated at addrs v x y m \<longleftrightarrow> at m x = Some v \<and> at m y = Some v \<and>
     (\<forall>m'. same_on (- addrs m x) m m' \<longrightarrow> at m' y = Some v) \<and>
     (\<forall>m'. same_on (- addrs m y) m m' \<longrightarrow> at m' x = Some v)"

context copyable begin

lemma same_on_others:
  "at m x = Some v \<Longrightarrow> addrs m x \<inter> A = {} \<Longrightarrow> same_on (- A) m m' \<Longrightarrow> at m' x = Some v"
  by (metis disjoint_eq_subset_Compl local_at same_on_mono)

lemma deep_copy_isolated:
  assumes "wf_memory m" and "at m x = Some v"
  shows "\<exists>y m'. deep_copy into (Some x) m = (Some y, m') \<and> isolated at addrs v x y m'"
proof -
  obtain y m' where into: "into x m = (y, m')" by fastforce
  have "at m' x = Some v \<and> at m' y = Some v \<and> addrs m' x \<inter> addrs m' y = {}"
    by (rule copy_apart [OF assms into])
  then have "isolated at addrs v x y m'"
    using same_on_others [of m' x v "addrs m' y"] same_on_others [of m' y v "addrs m' x"]
    by (simp add: isolated_def Int_commute)
  with into show ?thesis by (simp add: deep_copy_def)
qed

end

subsection \<open>Structs\<close>

text \<open>A value without pointers, copied by assignment.\<close>

lemma copyable_flat:
  "(\<And>x m. into x m = (x, m)) \<Longrightarrow> copyable (\<lambda>m x. Some (f x)) (\<lambda>m x. {}) into"
  by unfold_locales (simp_all add: extends_refl)

text \<open>Two parts, copied one after the other.\<close>

definition pair_at :: "(memory \<Rightarrow> 'a \<Rightarrow> 'v option) \<Rightarrow> (memory \<Rightarrow> 'b \<Rightarrow> 'w option) \<Rightarrow> memory \<Rightarrow> 'a \<times> 'b \<Rightarrow>
    ('v \<times> 'w) option" where
  "pair_at at1 at2 m z = (case (at1 m (fst z), at2 m (snd z)) of (Some v, Some w) \<Rightarrow> Some (v, w) | _ \<Rightarrow> None)"

definition pair_addrs :: "(memory \<Rightarrow> 'a \<Rightarrow> addr set) \<Rightarrow> (memory \<Rightarrow> 'b \<Rightarrow> addr set) \<Rightarrow> memory \<Rightarrow> 'a \<times> 'b \<Rightarrow>
    addr set" where
  "pair_addrs addrs1 addrs2 m z = addrs1 m (fst z) \<union> addrs2 m (snd z)"

definition pair_into :: "('a \<Rightarrow> memory \<Rightarrow> 'a \<times> memory) \<Rightarrow> ('b \<Rightarrow> memory \<Rightarrow> 'b \<times> memory) \<Rightarrow> 'a \<times> 'b \<Rightarrow> memory \<Rightarrow>
    ('a \<times> 'b) \<times> memory" where
  "pair_into into1 into2 z m = (let (a, m) = into1 (fst z) m; (b, m) = into2 (snd z) m in ((a, b), m))"

lemma pair_at_Some [simp]:
  "pair_at at1 at2 m z = Some u \<longleftrightarrow> at1 m (fst z) = Some (fst u) \<and> at2 m (snd z) = Some (snd u)"
  by (cases u) (auto simp: pair_at_def split: option.splits)

lemma copyable_pair:
  assumes "copyable at1 addrs1 into1" and "copyable at2 addrs2 into2"
  shows "copyable (pair_at at1 at2) (pair_addrs addrs1 addrs2) (pair_into into1 into2)"
proof
  fix m :: memory and m' :: memory and z and u
  assume "pair_at at1 at2 m z = Some u" and "same_on (pair_addrs addrs1 addrs2 m z) m m'"
  then show "pair_at at1 at2 m' z = Some u \<and> pair_addrs addrs1 addrs2 m' z = pair_addrs addrs1 addrs2 m z"
    using copyable.local_at [OF assms(1), of m "fst z" "fst u" m']
      copyable.local_at [OF assms(2), of m "snd z" "snd u" m'] by (simp add: pair_addrs_def)
next
  fix m :: memory and z and u and a
  assume "pair_at at1 at2 m z = Some u" and "a \<in> pair_addrs addrs1 addrs2 m z"
  then show "cells m a \<noteq> None"
    using copyable.allocated [OF assms(1), of m "fst z" "fst u" a]
      copyable.allocated [OF assms(2), of m "snd z" "snd u" a] by (auto simp: pair_addrs_def)
next
  fix m :: memory and m'' :: memory and z and u and w
  assume wf: "wf_memory m" and at: "pair_at at1 at2 m z = Some u" and into: "pair_into into1 into2 z m = (w, m'')"
  obtain a b m' where 1: "into1 (fst z) m = (a, m')" and 2: "into2 (snd z) m' = (b, m'')" and w: "w = (a, b)"
    using into by (auto simp: pair_into_def split: prod.splits)
  have c1: "extends m m'" "at1 m' a = Some (fst u)" "addrs1 m' a \<subseteq> {next_addr m..<next_addr m'}"
    using copyable.copies [OF assms(1) wf _ 1, of "fst u"] at by auto
  have "at2 m' (snd z) = Some (snd u)" using copyable.at_extends [OF assms(2) wf _ c1(1)] at by simp
  then have c2: "extends m' m''" "at2 m'' b = Some (snd u)" "addrs2 m'' b \<subseteq> {next_addr m'..<next_addr m''}"
    using copyable.copies [OF assms(2) extends_wf [OF c1(1)] _ 2] by auto
  have k: "at1 m'' a = Some (fst u)" "addrs1 m'' a = addrs1 m' a"
    using copyable.at_extends [OF assms(1) extends_wf [OF c1(1)] c1(2) c2(1)] by auto
  show "extends m m'' \<and> pair_at at1 at2 m'' w = Some u \<and> pair_addrs addrs1 addrs2 m'' w \<subseteq> {next_addr m..<next_addr m''}"
    using extends_trans [OF c1(1) c2(1)] k c2 c1 extends_next [OF c1(1)] extends_next [OF c2(1)] w
    by (fastforce simp: pair_addrs_def)
qed

text \<open>A struct around a part: \<open>build r c\<close> is \<open>r\<close> with that part replaced.\<close>

lemma copyable_struct:
  assumes "copyable at addrs into"
    and "\<And>r m y m'. into (part r) m = (y, m') \<Longrightarrow> into' r m = (build r y, m')"
    and "\<And>r c. part (build r c) = c" and "\<And>r c v. f (build r c) v = f r v"
  shows "copyable (\<lambda>m r. map_option (f r) (at m (part r))) (\<lambda>m r. addrs m (part r)) into'"
proof
  fix m :: memory and m' :: memory and r and u
  assume "map_option (f r) (at m (part r)) = Some u" and "same_on (addrs m (part r)) m m'"
  then show "map_option (f r) (at m' (part r)) = Some u \<and> addrs m' (part r) = addrs m (part r)"
    using copyable.local_at [OF assms(1), of m "part r"] by (cases "at m (part r)") simp_all
next
  fix m :: memory and r and u and a
  assume "map_option (f r) (at m (part r)) = Some u" and "a \<in> addrs m (part r)"
  then show "cells m a \<noteq> None" using copyable.allocated [OF assms(1), of m "part r"] by (cases "at m (part r)") simp_all
next
  fix m :: memory and m' :: memory and r and u and w
  assume wf: "wf_memory m" and at: "map_option (f r) (at m (part r)) = Some u" and into: "into' r m = (w, m')"
  obtain v where v: "at m (part r) = Some v" "u = f r v" using at by auto
  obtain y where y: "into (part r) m = (y, m')" "w = build r y"
    using into assms(2) by (cases "into (part r) m") auto
  show "extends m m' \<and> map_option (f w) (at m' (part w)) = Some u \<and> addrs m' (part w) \<subseteq> {next_addr m..<next_addr m'}"
    using copyable.copies [OF assms(1) wf v(1) y(1)] y(2) v(2) assms(3,4) by simp
qed

subsection \<open>Slices\<close>

definition slice_elems :: "'a array_kind \<Rightarrow> memory \<Rightarrow> slice_ref \<Rightarrow> 'a list option" where
  "slice_elems K m s = (case s of
     NilSlice \<Rightarrow> Some []
   | Slice a off n \<Rightarrow>
       (case Option.bind (cells m a) (unwrap K) of
          None \<Rightarrow> None
        | Some xs \<Rightarrow> if off + n \<le> length xs then Some (take n (drop off xs)) else None))"

definition slice_cell :: "slice_ref \<Rightarrow> addr set" where
  "slice_cell s = (case s of NilSlice \<Rightarrow> {} | Slice a off n \<Rightarrow> {a})"

text \<open>The value of a slice of values, and of a slice whose elements are representations.\<close>

definition slice_at :: "'a array_kind \<Rightarrow> (memory \<Rightarrow> 'a \<Rightarrow> 'v option) \<Rightarrow> memory \<Rightarrow> slice_ref \<Rightarrow> 'v list option" where
  "slice_at K at m s = Option.bind (slice_elems K m s) (\<lambda>xs. those (map (at m) xs))"

definition slice_addrs :: "'a array_kind \<Rightarrow> (memory \<Rightarrow> 'a \<Rightarrow> addr set) \<Rightarrow> memory \<Rightarrow> slice_ref \<Rightarrow> addr set" where
  "slice_addrs K addrs m s = slice_cell s \<union>
     (case slice_elems K m s of None \<Rightarrow> {} | Some xs \<Rightarrow> \<Union> (addrs m ` set xs))"

definition array_law :: "'a array_kind \<Rightarrow> bool" where
  "array_law K \<longleftrightarrow> (\<forall>xs. unwrap K (wrap K xs) = Some xs)"

lemma those_map_iff: "those (map f xs) = Some vs \<longleftrightarrow> list_all2 (\<lambda>x v. f x = Some v) xs vs"
  by (induction xs arbitrary: vs) (auto split: option.splits simp: list_all2_Cons1)

lemma slice_at_iff:
  "slice_at K at m s = Some vs \<longleftrightarrow>
   (\<exists>xs. slice_elems K m s = Some xs \<and> list_all2 (\<lambda>x v. at m x = Some v) xs vs)"
  by (auto simp: slice_at_def those_map_iff bind_eq_Some_conv)

lemma slice_elems_same:
  "same_on (slice_cell s) m m' \<Longrightarrow> slice_elems K m' s = slice_elems K m s"
  by (cases s) (simp_all add: slice_elems_def slice_cell_def same_on_def)

lemma slice_elems_allocated: "slice_elems K m s = Some xs \<Longrightarrow> a \<in> slice_cell s \<Longrightarrow> cells m a \<noteq> None"
  by (cases s) (auto simp: slice_elems_def slice_cell_def split: option.splits bind_splits)

lemma slice_elems_wrapped:
  "array_law K \<Longrightarrow> cells m d = Some (wrap K ys) \<Longrightarrow> slice_elems K m (Slice d 0 (length ys)) = Some ys"
  by (simp add: slice_elems_def array_law_def)

lemma array_at_wrapped [simp]: "array_law K \<Longrightarrow> cells m d = Some (wrap K ys) \<Longrightarrow> array_at K m d = ys"
  by (simp add: array_at_def array_law_def)

lemma array_at_elems:
  "slice_elems K m (Slice a off n) = Some xs \<Longrightarrow> length xs = n \<and> take n (drop off (array_at K m a)) = xs \<and>
     (\<forall>i<n. array_at K m a ! (off + i) = xs ! i)"
  by (auto simp: slice_elems_def array_at_def split: option.splits if_splits bind_splits)

lemma copyable_copy_slice:
  assumes K: "array_law K"
  shows "copyable (slice_elems K) (\<lambda>m. slice_cell) (copy_slice K)"
proof
  fix m :: memory and m' :: memory and s and xs
  assume "slice_elems K m s = Some xs" and "same_on (slice_cell s) m m'"
  then show "slice_elems K m' s = Some xs \<and> slice_cell s = slice_cell s" using slice_elems_same by metis
next
  show "\<And>m s xs a. slice_elems K m s = Some xs \<Longrightarrow> a \<in> slice_cell s \<Longrightarrow> cells m a \<noteq> None"
    by (rule slice_elems_allocated)
next
  fix m :: memory and m' :: memory and s and xs and y
  assume wf: "wf_memory m" and at: "slice_elems K m s = Some xs" and copy: "copy_slice K s m = (y, m')"
  show "extends m m' \<and> slice_elems K m' y = Some xs \<and> slice_cell y \<subseteq> {next_addr m..<next_addr m'}"
  proof (cases s)
    case NilSlice
    then show ?thesis using copy at extends_refl [OF wf] by (simp add: copy_slice_def slice_cell_def slice_elems_def)
  next
    case (Slice a off n)
    obtain d where d: "new_cell (wrap K xs) m = (d, m')" "y = Slice d 0 n"
      using copy Slice array_at_elems [of K m a off n xs] at by (auto simp: copy_slice_def split: prod.splits)
    then show ?thesis
      using new_cell_extends [OF wf d(1)] slice_elems_wrapped [OF K, of m' d xs] array_at_elems [of K m a off n xs] at Slice
      by (auto simp: slice_cell_def)
  qed
qed

subsection \<open>The element-wise loop\<close>

context copyable begin

text \<open>
  After \<open>i\<close> rounds: nothing below \<open>b\<close> has changed; the new array at \<open>b\<close> holds \<open>ys\<close>, whose first \<open>i\<close>
  elements stand for the first \<open>i\<close> values and own new addresses other than \<open>b\<close>.
\<close>

definition copied :: "'c array_kind \<Rightarrow> memory \<Rightarrow> 'v list \<Rightarrow> nat \<Rightarrow> 'c list \<Rightarrow> memory \<Rightarrow> bool" where
  "copied K m0 vs i ys m \<longleftrightarrow> extends m0 m \<and> next_addr m0 < next_addr m \<and>
     cells m (next_addr m0) = Some (wrap K ys) \<and> length ys = length vs \<and>
     (\<forall>j<i. at m (ys ! j) = Some (vs ! j) \<and> addrs m (ys ! j) \<subseteq> {Suc (next_addr m0)..<next_addr m})"

lemma copied_step:
  assumes K: "array_law K" and wf0: "wf_memory m0"
    and x: "at m0 x = Some (vs ! i)" and i: "i < length vs"
    and inv: "copied K m0 vs i ys m" and into: "into x m = (y, m')"
  shows "copied K m0 vs (Suc i) (ys[i := y])
           (write_cell (next_addr m0) (wrap K ((array_at K m' (next_addr m0))[i := y])) m')"
proof -
  let ?b = "next_addr m0"
  let ?w = "write_cell ?b (wrap K (ys[i := y])) m'"
  have m: "extends m0 m" "?b < next_addr m" "cells m ?b = Some (wrap K ys)" "length ys = length vs"
    using inv by (auto simp: copied_def)
  have wf: "wf_memory m" by (rule extends_wf [OF m(1)])
  have c: "extends m m'" "at m' y = Some (vs ! i)" "addrs m' y \<subseteq> {next_addr m..<next_addr m'}"
    using copies [OF wf _ into] at_extends [OF wf0 x m(1)] by auto
  have b: "cells m' ?b = Some (wrap K ys)" "?b < next_addr m'" "next_addr m \<le> next_addr m'"
    using extends_cells [OF c(1) m(2)] m(2,3) extends_next [OF c(1)] by auto
  have w: "extends m0 ?w" by (rule write_extends [OF extends_trans [OF m(1) c(1)]]) (use b in auto)
  have keep: "at ?w z = Some v \<and> addrs ?w z = addrs m' z" if "at m' z = Some v" "?b \<notin> addrs m' z" for z v
    using local_at [OF that(1), of ?w] that(2) by simp
  have elems: "at ?w (ys[i := y] ! j) = Some (vs ! j) \<and> addrs ?w (ys[i := y] ! j) \<subseteq> {Suc ?b..<next_addr ?w}"
    if "j < Suc i" for j
  proof (cases "j = i")
    case True
    then show ?thesis using keep [OF c(2)] c(3) m(2,4) i by (fastforce simp: write_cell_def)
  next
    case False
    with that have "at m (ys ! j) = Some (vs ! j)" "addrs m (ys ! j) \<subseteq> {Suc ?b..<next_addr m}"
      using inv by (auto simp: copied_def)
    moreover from this at_extends [OF wf _ c(1)] have "at m' (ys ! j) = Some (vs ! j)" "addrs m' (ys ! j) = addrs m (ys ! j)"
      by blast+
    ultimately show ?thesis using keep [of "ys ! j"] False b(3) by (fastforce simp: write_cell_def)
  qed
  have "cells ?w ?b = Some (wrap K (ys[i := y]))" "next_addr ?w = next_addr m'" by (simp_all add: write_cell_def)
  with w elems b m show ?thesis by (simp add: copied_def array_at_wrapped [OF K b(1)])
qed

lemma copy_loop_copied:
  assumes K: "array_law K" and wf0: "wf_memory m0"
    and src: "slice_elems K m0 (Slice a off n) = Some xs" "list_all2 (\<lambda>x v. at m0 x = Some v) xs vs"
  shows "copied K m0 vs i ys m \<Longrightarrow> i + k = n \<Longrightarrow>
     \<exists>ys'. copied K m0 vs n ys' (copy_loop K into a off (next_addr m0) i k m)"
proof (induction k arbitrary: i ys m)
  case 0
  then show ?case by auto
next
  case (Suc k)
  have len: "length xs = n" "length vs = n"
    using array_at_elems [OF src(1)] list_all2_lengthD [OF src(2)] by auto
  have "a < next_addr m0"
    using slice_elems_allocated [OF src(1), of a] wf_dom [OF wf0, of a] by (auto simp: slice_cell_def)
  with Suc.prems(1) have "cells m a = cells m0 a" by (auto simp: copied_def intro: extends_cells)
  then have elem: "array_at K m a ! (off + i) = xs ! i"
    using array_at_elems [OF src(1)] Suc.prems(2) by (simp add: array_at_def)
  obtain y m' where into: "into (xs ! i) m = (y, m')" by fastforce
  have "at m0 (xs ! i) = Some (vs ! i)" using list_all2_nthD [OF src(2)] Suc.prems(2) len by simp
  from copied_step [OF K wf0 this _ Suc.prems(1) into] Suc.prems(2) len
  have "copied K m0 vs (Suc i) (ys[i := y])
          (write_cell (next_addr m0) (wrap K ((array_at K m' (next_addr m0))[i := y])) m')" by simp
  from Suc.IH [OF this] Suc.prems(2) show ?case by (simp add: elem into)
qed

lemma slice_at_elems:
  assumes "slice_at K at m s = Some vs"
  shows "\<exists>xs. slice_elems K m s = Some xs \<and> list_all2 (\<lambda>x v. at m x = Some v) xs vs \<and>
           (\<forall>x\<in>set xs. \<exists>v. at m x = Some v)"
proof -
  from assms obtain xs where xs: "slice_elems K m s = Some xs" "list_all2 (\<lambda>x v. at m x = Some v) xs vs"
    by (auto simp: slice_at_iff)
  then have "\<exists>v. at m x = Some v" if "x \<in> set xs" for x
    using that by (auto simp: list_all2_conv_all_nth in_set_conv_nth)
  with xs show ?thesis by blast
qed

lemma slice_local:
  assumes at: "slice_at K at m s = Some vs" and same: "same_on (slice_addrs K addrs m s) m m'"
  shows "slice_at K at m' s = Some vs \<and> slice_addrs K addrs m' s = slice_addrs K addrs m s"
proof -
  obtain xs where xs: "slice_elems K m s = Some xs" "list_all2 (\<lambda>x v. at m x = Some v) xs vs"
    and def: "\<forall>x\<in>set xs. \<exists>v. at m x = Some v" using slice_at_elems [OF at] by blast
  have s: "slice_elems K m' s = Some xs" using same xs(1) slice_elems_same [of s m m' K] by (simp add: slice_addrs_def)
  have e: "at m' x = Some v \<and> addrs m' x = addrs m x" if "x \<in> set xs" "at m x = Some v" for x v
    using local_at [OF that(2)] same_on_mono [OF same, of "addrs m x"] that(1) xs(1) by (auto simp: slice_addrs_def)
  have "list_all2 (\<lambda>x v. at m' x = Some v) xs vs" using xs(2) by (rule list.rel_mono_strong) (simp add: e)
  moreover have "addrs m' x = addrs m x" if "x \<in> set xs" for x using e [OF that] def that by blast
  ultimately show ?thesis using s xs(1) by (auto simp: slice_at_iff slice_addrs_def)
qed

lemma slice_allocated:
  assumes at: "slice_at K at m s = Some vs" and a: "a \<in> slice_addrs K addrs m s"
  shows "cells m a \<noteq> None"
proof (cases "a \<in> slice_cell s")
  case True
  then show ?thesis using slice_at_elems [OF at] slice_elems_allocated by blast
next
  case False
  obtain xs where xs: "slice_elems K m s = Some xs"
    and def: "\<forall>x\<in>set xs. \<exists>v. at m x = Some v" using slice_at_elems [OF at] by blast
  from False a xs obtain x where "x \<in> set xs" "a \<in> addrs m x" by (auto simp: slice_addrs_def)
  then show ?thesis using def allocated by blast
qed

lemma slice_copies:
  assumes K: "array_law K" and wf: "wf_memory m" and at: "slice_at K at m s = Some vs"
    and copy: "deep_copy_slice K into s m = (y, m')"
  shows "extends m m' \<and> slice_at K at m' y = Some vs \<and> slice_addrs K addrs m' y \<subseteq> {next_addr m..<next_addr m'}"
proof (cases s)
  case NilSlice
  then show ?thesis using copy at extends_refl [OF wf]
    by (auto simp: deep_copy_slice_def slice_at_iff slice_elems_def slice_addrs_def slice_cell_def)
next
  case (Slice a off n)
  let ?b = "next_addr m"
  obtain xs where xs: "slice_elems K m (Slice a off n) = Some xs" "list_all2 (\<lambda>x v. at m x = Some v) xs vs"
    using at Slice by (auto simp: slice_at_iff)
  obtain m1 where m1: "new_cell (wrap K (replicate n (zero K))) m = (?b, m1)"
    and y: "y = Slice ?b 0 n" "m' = copy_loop K into a off ?b 0 n m1"
    using copy Slice by (auto simp: deep_copy_slice_def new_cell_def)
  have n: "length vs = n" using array_at_elems [OF xs(1)] list_all2_lengthD [OF xs(2)] by simp
  have "copied K m vs 0 (replicate n (zero K)) m1" using new_cell_extends [OF wf m1] n by (simp add: copied_def)
  from copy_loop_copied [OF K wf xs this] obtain ys where ys: "copied K m vs n ys m'" using y(2) by auto
  then have "slice_elems K m' y = Some ys" using slice_elems_wrapped [OF K, of m' ?b ys] y(1) n by (simp add: copied_def)
  moreover have "list_all2 (\<lambda>x v. at m' x = Some v) ys vs"
    using ys n by (auto simp: copied_def intro: list_all2_all_nthI)
  moreover have "c \<in> {?b..<next_addr m'}" if "x \<in> set ys" "c \<in> addrs m' x" for x c
    using that ys n by (fastforce simp: copied_def in_set_conv_nth)
  ultimately show ?thesis using ys y(1) by (auto simp: copied_def slice_at_iff slice_addrs_def slice_cell_def)
qed

lemma copyable_deep_slice:
  assumes "array_law K"
  shows "copyable (slice_at K at) (slice_addrs K addrs) (deep_copy_slice K into)"
  using slice_local slice_allocated slice_copies [OF assms] by unfold_locales blast+

end

subsection \<open>Pointers\<close>

text \<open>A pointer is read as the slice of the one element behind it.\<close>

definition pointer_at :: "'a array_kind \<Rightarrow> (memory \<Rightarrow> 'a \<Rightarrow> 'v option) \<Rightarrow> memory \<Rightarrow> addr option \<Rightarrow> 'v option option" where
  "pointer_at K at m p = (case p of
     None \<Rightarrow> Some None
   | Some a \<Rightarrow> (case slice_at K at m (Slice a 0 1) of Some [v] \<Rightarrow> Some (Some v) | _ \<Rightarrow> None))"

definition pointer_addrs :: "'a array_kind \<Rightarrow> (memory \<Rightarrow> 'a \<Rightarrow> addr set) \<Rightarrow> memory \<Rightarrow> addr option \<Rightarrow> addr set" where
  "pointer_addrs K addrs m p = (case p of None \<Rightarrow> {} | Some a \<Rightarrow> slice_addrs K addrs m (Slice a 0 1))"

lemma pointer_at_Some:
  "pointer_at K at m (Some a) = Some u \<longleftrightarrow> (\<exists>v. u = Some v \<and> slice_at K at m (Slice a 0 1) = Some [v])"
  by (auto simp: pointer_at_def split: option.split list.split)

lemma deep_copy_pointer_slice:
  assumes "deep_copy_pointer K into (Some a) m = (q, m')"
  obtains d where "q = Some d" and "deep_copy_slice K into (Slice a 0 1) m = (Slice d 0 1, m')"
  using assms by (auto simp: deep_copy_pointer_def deep_copy_slice_def split: prod.splits)

context copyable begin

lemma copyable_deep_pointer:
  assumes K: "array_law K"
  shows "copyable (pointer_at K at) (pointer_addrs K addrs) (deep_copy_pointer K into)"
proof
  fix m :: memory and m' :: memory and p and u
  assume at: "pointer_at K at m p = Some u" and same: "same_on (pointer_addrs K addrs m p) m m'"
  show "pointer_at K at m' p = Some u \<and> pointer_addrs K addrs m' p = pointer_addrs K addrs m p"
  proof (cases p)
    case None
    then show ?thesis using at by (simp add: pointer_at_def pointer_addrs_def)
  next
    case (Some a)
    then obtain v where v: "u = Some v" "slice_at K at m (Slice a 0 1) = Some [v]"
      using at by (auto simp: pointer_at_Some)
    have "same_on (slice_addrs K addrs m (Slice a 0 1)) m m'" using same Some by (simp add: pointer_addrs_def)
    from slice_local [OF v(2) this] show ?thesis using v(1) Some by (simp add: pointer_at_Some pointer_addrs_def)
  qed
next
  fix m :: memory and p and u and a
  assume "pointer_at K at m p = Some u" and "a \<in> pointer_addrs K addrs m p"
  then obtain b v where "slice_at K at m (Slice b 0 1) = Some [v]" "a \<in> slice_addrs K addrs m (Slice b 0 1)"
    by (cases p) (auto simp: pointer_at_Some pointer_addrs_def)
  then show "cells m a \<noteq> None" by (rule slice_allocated)
next
  fix m :: memory and m' :: memory and p and u and q
  assume wf: "wf_memory m" and at: "pointer_at K at m p = Some u" and copy: "deep_copy_pointer K into p m = (q, m')"
  show "extends m m' \<and> pointer_at K at m' q = Some u \<and> pointer_addrs K addrs m' q \<subseteq> {next_addr m..<next_addr m'}"
  proof (cases p)
    case None
    then show ?thesis using at copy extends_refl [OF wf]
      by (simp add: deep_copy_pointer_def pointer_at_def pointer_addrs_def)
  next
    case (Some a)
    obtain v where v: "u = Some v" "slice_at K at m (Slice a 0 1) = Some [v]"
      using at Some by (auto simp: pointer_at_Some)
    obtain d where d: "q = Some d" "deep_copy_slice K into (Slice a 0 1) m = (Slice d 0 1, m')"
      using deep_copy_pointer_slice copy Some by metis
    show ?thesis using slice_copies [OF K wf v(2) d(2)] v(1) d(1) by (simp add: pointer_at_Some pointer_addrs_def)
  qed
qed

end

end
