(* ===== verification/DeepCopyProofs.thy ===== *)
theory DeepCopyProofs
  imports CopyLaws
begin

text \<open>
  The values that the representations of \<open>DeepCopy\<close> stand for, which are the records of \<open>ApiTypes\<close>;
  the contract of \<open>CopyLaws\<close> for each generated copy; and the isolation of the copies that the
  controllers make. Of the copy functions of the libraries the same contract is assumed: a
  \<open>Quantity\<close>, an \<open>ObjectMeta\<close>, a \<open>ListMeta\<close> and a \<open>Condition\<close> are copied to new addresses.
\<close>

lemma array_laws [simp]:
  "array_law NodePool_array" "array_law NodePoolMachineType_array" "array_law MachineType_array"
  "array_law Condition_array" "array_law AvailableMachine_array" "array_law Stock_array"
  "array_law NodePoolCondition_array" "array_law Machine_array" "array_law MachineNodePool_array"
  "array_law GPUSpec_array" "array_law Dec_array" "array_law Table_array" "array_law Time_array"
  "array_law Count_array" "array_law String_array"
  by (simp_all add: array_law_def NodePool_array_def NodePoolMachineType_array_def MachineType_array_def
      Condition_array_def AvailableMachine_array_def Stock_array_def NodePoolCondition_array_def
      Machine_array_def MachineNodePool_array_def GPUSpec_array_def Dec_array_def Table_array_def Time_array_def
      Count_array_def String_array_def)

subsection \<open>The types of the libraries\<close>

text \<open>A pointer to a value without references.\<close>

abbreviation flat_at :: "memory \<Rightarrow> 'a \<Rightarrow> 'a option" where
  "flat_at \<equiv> \<lambda>m x. Some x"

abbreviation no_addrs :: "memory \<Rightarrow> 'a \<Rightarrow> addr set" where
  "no_addrs \<equiv> \<lambda>m x. {}"

definition Quantity_at :: "memory \<Rightarrow> go_Quantity \<Rightarrow> quantity option" where
  "Quantity_at m q = map_option (\<lambda>d. case d of None \<Rightarrow> gq_i q | Some v \<Rightarrow> v) (pointer_at Dec_array flat_at m (gq_Dec q))"

definition Quantity_addrs :: "memory \<Rightarrow> go_Quantity \<Rightarrow> addr set" where
  "Quantity_addrs m q = pointer_addrs Dec_array no_addrs m (gq_Dec q)"

text \<open>The table of a map; of a nil map the empty one.\<close>

abbreviation table_at :: "memory \<Rightarrow> addr option \<Rightarrow> smap option option" where
  "table_at \<equiv> pointer_at Table_array flat_at"

abbreviation table_addrs :: "memory \<Rightarrow> addr option \<Rightarrow> addr set" where
  "table_addrs \<equiv> pointer_addrs Table_array no_addrs"

definition table_of :: "smap option \<Rightarrow> smap" where
  "table_of t = (case t of None \<Rightarrow> Map.empty | Some t \<Rightarrow> t)"

abbreviation meta_parts_at where
  "meta_parts_at \<equiv> pair_at table_at (pair_at table_at (pair_at (pointer_at Time_array flat_at)
     (pair_at (slice_elems String_array) (slice_elems String_array))))"

abbreviation meta_parts_addrs where
  "meta_parts_addrs \<equiv> pair_addrs table_addrs (pair_addrs table_addrs (pair_addrs (pointer_addrs Time_array no_addrs)
     (pair_addrs (\<lambda>m. slice_cell) (\<lambda>m. slice_cell))))"

abbreviation meta_parts :: "go_ObjectMeta \<Rightarrow>
    addr option \<times> addr option \<times> addr option \<times> slice_ref \<times> slice_ref" where
  "meta_parts x \<equiv> (gom_Labels x, gom_Annotations x, gom_DeletionTimestamp x, gom_Finalizers x, gom_OwnerReferences x)"

definition ObjectMeta_at :: "memory \<Rightarrow> go_ObjectMeta \<Rightarrow> ObjectMeta option" where
  "ObjectMeta_at m x = map_option (\<lambda>(ls, as, d, fs, os). \<lparr>Name = gom_Name x, Namespace = gom_Namespace x,
       Labels = table_of ls, Annotations = table_of as, DeletionTimestamp = d, Finalizers = fs, OwnerReferences = os\<rparr>)
     (meta_parts_at m (meta_parts x))"

definition ObjectMeta_addrs :: "memory \<Rightarrow> go_ObjectMeta \<Rightarrow> addr set" where
  "ObjectMeta_addrs m x = meta_parts_addrs m (meta_parts x)"

record ListMeta =
  ResourceVersion :: string
  Continue :: string
  RemainingItemCount :: "int option"

definition ListMeta_at :: "memory \<Rightarrow> go_ListMeta \<Rightarrow> ListMeta option" where
  "ListMeta_at m x = map_option (\<lambda>c. \<lparr>ResourceVersion = glm_ResourceVersion x, Continue = glm_Continue x,
     RemainingItemCount = c\<rparr>) (pointer_at Count_array flat_at m (glm_RemainingItemCount x))"

definition ListMeta_addrs :: "memory \<Rightarrow> go_ListMeta \<Rightarrow> addr set" where
  "ListMeta_addrs m x = pointer_addrs Count_array no_addrs m (glm_RemainingItemCount x)"

text \<open>What is documented of the copy functions of the libraries.\<close>

definition copy_laws :: "copy_env \<Rightarrow> bool" where
  "copy_laws L \<longleftrightarrow> copyable Quantity_at Quantity_addrs (Quantity_DeepCopy L) \<and>
     copyable ObjectMeta_at ObjectMeta_addrs (ObjectMeta_DeepCopyInto L) \<and>
     copyable ListMeta_at ListMeta_addrs (ListMeta_DeepCopyInto L) \<and>
     copyable flat_at no_addrs (Condition_DeepCopyInto L)"

lemma copy_lawsD:
  assumes "copy_laws L"
  shows "copyable Quantity_at Quantity_addrs (Quantity_DeepCopy L)"
    and "copyable ObjectMeta_at ObjectMeta_addrs (ObjectMeta_DeepCopyInto L)"
    and "copyable ListMeta_at ListMeta_addrs (ListMeta_DeepCopyInto L)"
    and "copyable flat_at no_addrs (Condition_DeepCopyInto L)"
  using assms by (simp_all add: copy_laws_def)

subsection \<open>NodePool and MachineNodePoolSpec\<close>

definition NodePool_at :: "memory \<Rightarrow> go_NodePool \<Rightarrow> NodePool option" where
  "NodePool_at m x = map_option
     (\<lambda>ts. \<lparr>np_Name = gnp_Name x, np_Mode = gnp_Mode x, np_Taint = gnp_Taint x, np_MachineType = ts\<rparr>)
     (slice_elems NodePoolMachineType_array m (gnp_MachineType x))"

definition NodePool_addrs :: "memory \<Rightarrow> go_NodePool \<Rightarrow> addr set" where
  "NodePool_addrs m x = slice_cell (gnp_MachineType x)"

interpretation node_pool: copyable NodePool_at NodePool_addrs NodePool_DeepCopyInto
  unfolding NodePool_at_def [abs_def] NodePool_addrs_def [abs_def]
  by (rule copyable_struct [where build = "\<lambda>x s. x\<lparr>gnp_MachineType := s\<rparr>",
        OF copyable_copy_slice [of NodePoolMachineType_array]])
    (simp_all add: NodePool_DeepCopyInto_def)

definition MachineNodePoolSpec_at :: "memory \<Rightarrow> go_MachineNodePoolSpec \<Rightarrow> MachineNodePoolSpec option" where
  "MachineNodePoolSpec_at m x = map_option
     (\<lambda>(ps, ss). \<lparr>mnp_MachineGroupName = gps_MachineGroupName x, mnp_NodePool = ps, mnp_MachineTypeStock = ss\<rparr>)
     (pair_at (slice_at NodePool_array NodePool_at) (slice_elems Stock_array) m
        (gps_NodePool x, gps_MachineTypeStock x))"

definition MachineNodePoolSpec_addrs :: "memory \<Rightarrow> go_MachineNodePoolSpec \<Rightarrow> addr set" where
  "MachineNodePoolSpec_addrs m x = pair_addrs (slice_addrs NodePool_array NodePool_addrs) (\<lambda>m. slice_cell) m
     (gps_NodePool x, gps_MachineTypeStock x)"

interpretation pool_spec: copyable MachineNodePoolSpec_at MachineNodePoolSpec_addrs MachineNodePoolSpec_DeepCopyInto
  unfolding MachineNodePoolSpec_at_def [abs_def] MachineNodePoolSpec_addrs_def [abs_def]
  by (rule copyable_struct [where part = "\<lambda>x. (gps_NodePool x, gps_MachineTypeStock x)" and
        build = "\<lambda>x s. x\<lparr>gps_NodePool := fst s, gps_MachineTypeStock := snd s\<rparr>",
        OF copyable_pair [OF node_pool.copyable_deep_slice [of NodePool_array] copyable_copy_slice [of Stock_array]]])
    (auto simp: MachineNodePoolSpec_DeepCopyInto_def pair_into_def split: prod.splits)

subsection \<open>MachineType and MachineSpec\<close>

definition GPUSpec_at :: "memory \<Rightarrow> go_GPUSpec \<Rightarrow> GPUSpec option" where
  "GPUSpec_at m x = map_option (\<lambda>n. \<lparr>gpu_Type = ggs_Type x, gpu_Num = n, gpu_Family = ggs_Family x,
     gpu_Product = ggs_Product x, gpu_Machine = ggs_Machine x\<rparr>) (Quantity_at m (ggs_Num x))"

definition GPUSpec_addrs :: "memory \<Rightarrow> go_GPUSpec \<Rightarrow> addr set" where
  "GPUSpec_addrs m x = Quantity_addrs m (ggs_Num x)"

lemma gpu_spec_copyable:
  assumes "copy_laws L"
  shows "copyable GPUSpec_at GPUSpec_addrs (GPUSpec_DeepCopyInto L)"
  unfolding GPUSpec_at_def [abs_def] GPUSpec_addrs_def [abs_def]
  by (rule copyable_struct [where build = "\<lambda>x n. x\<lparr>ggs_Num := n\<rparr>", OF copy_lawsD(1) [OF assms]])
    (simp_all add: GPUSpec_DeepCopyInto_def)

abbreviation detail_parts_at where
  "detail_parts_at \<equiv> pair_at Quantity_at (pair_at Quantity_at (pointer_at GPUSpec_array GPUSpec_at))"

abbreviation detail_parts_addrs where
  "detail_parts_addrs \<equiv> pair_addrs Quantity_addrs (pair_addrs Quantity_addrs (pointer_addrs GPUSpec_array GPUSpec_addrs))"

definition MachineDetailSpec_at :: "memory \<Rightarrow> go_MachineDetailSpec \<Rightarrow> MachineDetailSpec option" where
  "MachineDetailSpec_at m x = map_option (\<lambda>(c, e, g). \<lparr>CPU = c, Memory = e, GPU = g\<rparr>)
     (detail_parts_at m (gds_CPU x, gds_Memory x, gds_GPU x))"

definition MachineDetailSpec_addrs :: "memory \<Rightarrow> go_MachineDetailSpec \<Rightarrow> addr set" where
  "MachineDetailSpec_addrs m x = detail_parts_addrs m (gds_CPU x, gds_Memory x, gds_GPU x)"

lemma detail_spec_copyable:
  assumes "copy_laws L"
  shows "copyable MachineDetailSpec_at MachineDetailSpec_addrs (MachineDetailSpec_DeepCopyInto L)"
  unfolding MachineDetailSpec_at_def [abs_def] MachineDetailSpec_addrs_def [abs_def]
  by (rule copyable_struct [where part = "\<lambda>x. (gds_CPU x, gds_Memory x, gds_GPU x)" and
        build = "\<lambda>x p. x\<lparr>gds_CPU := fst p, gds_Memory := fst (snd p), gds_GPU := snd (snd p)\<rparr>",
        OF copyable_pair [OF copy_lawsD(1) [OF assms] copyable_pair [OF copy_lawsD(1) [OF assms]
          copyable.copyable_deep_pointer [OF gpu_spec_copyable [OF assms], of GPUSpec_array]]]])
    (auto simp: MachineDetailSpec_DeepCopyInto_def pair_into_def split: prod.splits)

definition MachineType_at :: "memory \<Rightarrow> go_MachineType \<Rightarrow> MachineType option" where
  "MachineType_at m x = map_option
     (\<lambda>s. \<lparr>mt_Name = gmt_Name x, mt_Spec = s, mt_Available = gmt_Available x\<rparr>) (MachineDetailSpec_at m (gmt_Spec x))"

definition MachineType_addrs :: "memory \<Rightarrow> go_MachineType \<Rightarrow> addr set" where
  "MachineType_addrs m x = MachineDetailSpec_addrs m (gmt_Spec x)"

lemma machine_type_copyable:
  "copy_laws L \<Longrightarrow> copyable MachineType_at MachineType_addrs (MachineType_DeepCopyInto L)"
  unfolding MachineType_at_def [abs_def] MachineType_addrs_def [abs_def]
  by (rule copyable_struct [where build = "\<lambda>x s. x\<lparr>gmt_Spec := s\<rparr>", OF detail_spec_copyable])
    (auto simp: MachineType_DeepCopyInto_def split: prod.splits)

definition MachineSpec_at :: "memory \<Rightarrow> go_MachineSpec \<Rightarrow> MachineSpec option" where
  "MachineSpec_at m x = map_option (\<lambda>(ps, ts). \<lparr>ms_NodePool = ps, ms_MachineTypes = ts\<rparr>)
     (pair_at (slice_at NodePool_array NodePool_at) (slice_at MachineType_array MachineType_at) m
        (gms_NodePool x, gms_MachineTypes x))"

definition MachineSpec_addrs :: "memory \<Rightarrow> go_MachineSpec \<Rightarrow> addr set" where
  "MachineSpec_addrs m x =
     pair_addrs (slice_addrs NodePool_array NodePool_addrs) (slice_addrs MachineType_array MachineType_addrs) m
       (gms_NodePool x, gms_MachineTypes x)"

lemma machine_spec_copyable:
  assumes "copy_laws L"
  shows "copyable MachineSpec_at MachineSpec_addrs (MachineSpec_DeepCopyInto L)"
  unfolding MachineSpec_at_def [abs_def] MachineSpec_addrs_def [abs_def]
  by (rule copyable_struct [where part = "\<lambda>x. (gms_NodePool x, gms_MachineTypes x)" and
        build = "\<lambda>x s. x\<lparr>gms_NodePool := fst s, gms_MachineTypes := snd s\<rparr>",
        OF copyable_pair [OF node_pool.copyable_deep_slice [of NodePool_array]
          copyable.copyable_deep_slice [OF machine_type_copyable [OF assms], of MachineType_array]]])
    (auto simp: MachineSpec_DeepCopyInto_def pair_into_def split: prod.splits)

subsection \<open>The statuses\<close>

abbreviation conditions_at :: "memory \<Rightarrow> slice_ref \<Rightarrow> Condition list option" where
  "conditions_at \<equiv> slice_at Condition_array flat_at"

abbreviation conditions_addrs :: "memory \<Rightarrow> slice_ref \<Rightarrow> addr set" where
  "conditions_addrs \<equiv> slice_addrs Condition_array no_addrs"

definition MachineStatus_at :: "memory \<Rightarrow> go_MachineStatus \<Rightarrow> MachineStatus option" where
  "MachineStatus_at m x = map_option (\<lambda>(cs, ams). \<lparr>mst_Conditions = cs, mst_AvailableMachines = ams\<rparr>)
     (pair_at conditions_at (slice_elems AvailableMachine_array) m (gmst_Conditions x, gmst_AvailableMachines x))"

definition MachineStatus_addrs :: "memory \<Rightarrow> go_MachineStatus \<Rightarrow> addr set" where
  "MachineStatus_addrs m x = pair_addrs conditions_addrs (\<lambda>m. slice_cell) m
     (gmst_Conditions x, gmst_AvailableMachines x)"

lemma machine_status_copyable:
  assumes "copy_laws L"
  shows "copyable MachineStatus_at MachineStatus_addrs (MachineStatus_DeepCopyInto L)"
  unfolding MachineStatus_at_def [abs_def] MachineStatus_addrs_def [abs_def]
  by (rule copyable_struct [where part = "\<lambda>x. (gmst_Conditions x, gmst_AvailableMachines x)" and
        build = "\<lambda>x s. x\<lparr>gmst_Conditions := fst s, gmst_AvailableMachines := snd s\<rparr>",
        OF copyable_pair [OF copyable.copyable_deep_slice [OF copy_lawsD(4) [OF assms], of Condition_array]
          copyable_copy_slice [of AvailableMachine_array]]])
    (auto simp: MachineStatus_DeepCopyInto_def pair_into_def split: prod.splits)

definition MachineNodePoolStatus_at :: "memory \<Rightarrow> go_MachineNodePoolStatus \<Rightarrow> MachineNodePoolStatus option" where
  "MachineNodePoolStatus_at m x = map_option (\<lambda>(cs, ncs). \<lparr>mnps_Conditions = cs, mnps_NodePoolCondition = ncs\<rparr>)
     (pair_at conditions_at (slice_elems NodePoolCondition_array) m (gpst_Conditions x, gpst_NodePoolCondition x))"

definition MachineNodePoolStatus_addrs :: "memory \<Rightarrow> go_MachineNodePoolStatus \<Rightarrow> addr set" where
  "MachineNodePoolStatus_addrs m x = pair_addrs conditions_addrs (\<lambda>m. slice_cell) m
     (gpst_Conditions x, gpst_NodePoolCondition x)"

lemma pool_status_copyable:
  assumes "copy_laws L"
  shows "copyable MachineNodePoolStatus_at MachineNodePoolStatus_addrs (MachineNodePoolStatus_DeepCopyInto L)"
  unfolding MachineNodePoolStatus_at_def [abs_def] MachineNodePoolStatus_addrs_def [abs_def]
  by (rule copyable_struct [where part = "\<lambda>x. (gpst_Conditions x, gpst_NodePoolCondition x)" and
        build = "\<lambda>x s. x\<lparr>gpst_Conditions := fst s, gpst_NodePoolCondition := snd s\<rparr>",
        OF copyable_pair [OF copyable.copyable_deep_slice [OF copy_lawsD(4) [OF assms], of Condition_array]
          copyable_copy_slice [of NodePoolCondition_array]]])
    (auto simp: MachineNodePoolStatus_DeepCopyInto_def pair_into_def split: prod.splits)

subsection \<open>Objects and lists\<close>

definition Machine_at :: "memory \<Rightarrow> go_Machine \<Rightarrow> Machine option" where
  "Machine_at m x = map_option (\<lambda>(o', s, t). \<lparr>m_Meta = o', m_Spec = s, m_Status = t\<rparr>)
     (pair_at ObjectMeta_at (pair_at MachineSpec_at MachineStatus_at) m (gm_Meta x, gm_Spec x, gm_Status x))"

definition Machine_addrs :: "memory \<Rightarrow> go_Machine \<Rightarrow> addr set" where
  "Machine_addrs m x = pair_addrs ObjectMeta_addrs (pair_addrs MachineSpec_addrs MachineStatus_addrs) m
     (gm_Meta x, gm_Spec x, gm_Status x)"

lemma machine_copyable:
  assumes "copy_laws L"
  shows "copyable Machine_at Machine_addrs (Machine_DeepCopyInto L)"
  unfolding Machine_at_def [abs_def] Machine_addrs_def [abs_def]
  by (rule copyable_struct [where part = "\<lambda>x. (gm_Meta x, gm_Spec x, gm_Status x)" and
        build = "\<lambda>x s. x\<lparr>gm_Meta := fst s, gm_Spec := fst (snd s), gm_Status := snd (snd s)\<rparr>",
        OF copyable_pair [OF copy_lawsD(2) [OF assms] copyable_pair [OF machine_spec_copyable [OF assms] machine_status_copyable [OF assms]]]])
    (auto simp: Machine_DeepCopyInto_def pair_into_def split: prod.splits)

definition MachineNodePool_at :: "memory \<Rightarrow> go_MachineNodePool \<Rightarrow> MachineNodePool option" where
  "MachineNodePool_at m x = map_option (\<lambda>(o', s, t). \<lparr>p_Meta = o', p_Spec = s, p_Status = t\<rparr>)
     (pair_at ObjectMeta_at (pair_at MachineNodePoolSpec_at MachineNodePoolStatus_at) m (gp_Meta x, gp_Spec x, gp_Status x))"

definition MachineNodePool_addrs :: "memory \<Rightarrow> go_MachineNodePool \<Rightarrow> addr set" where
  "MachineNodePool_addrs m x = pair_addrs ObjectMeta_addrs (pair_addrs MachineNodePoolSpec_addrs MachineNodePoolStatus_addrs) m
     (gp_Meta x, gp_Spec x, gp_Status x)"

lemma pool_copyable:
  assumes "copy_laws L"
  shows "copyable MachineNodePool_at MachineNodePool_addrs (MachineNodePool_DeepCopyInto L)"
  unfolding MachineNodePool_at_def [abs_def] MachineNodePool_addrs_def [abs_def]
  by (rule copyable_struct [where part = "\<lambda>x. (gp_Meta x, gp_Spec x, gp_Status x)" and
        build = "\<lambda>x s. x\<lparr>gp_Meta := fst s, gp_Spec := fst (snd s), gp_Status := snd (snd s)\<rparr>",
        OF copyable_pair [OF copy_lawsD(2) [OF assms] copyable_pair [OF pool_spec.copyable_axioms pool_status_copyable [OF assms]]]])
    (auto simp: MachineNodePool_DeepCopyInto_def pair_into_def split: prod.splits)

definition MachineList_at :: "memory \<Rightarrow> go_MachineList \<Rightarrow> (ListMeta \<times> Machine list) option" where
  "MachineList_at m x = pair_at ListMeta_at (slice_at Machine_array Machine_at) m (gml_ListMeta x, gml_Items x)"

definition MachineList_addrs :: "memory \<Rightarrow> go_MachineList \<Rightarrow> addr set" where
  "MachineList_addrs m x = pair_addrs ListMeta_addrs (slice_addrs Machine_array Machine_addrs) m (gml_ListMeta x, gml_Items x)"

lemma machine_list_copyable:
  assumes "copy_laws L"
  shows "copyable MachineList_at MachineList_addrs (MachineList_DeepCopyInto L)"
proof -
  have "copyable (\<lambda>m x. map_option (\<lambda>v. v) (pair_at ListMeta_at (slice_at Machine_array Machine_at) m (gml_ListMeta x, gml_Items x)))
      (\<lambda>m x. pair_addrs ListMeta_addrs (slice_addrs Machine_array Machine_addrs) m (gml_ListMeta x, gml_Items x))
      (MachineList_DeepCopyInto L)"
    by (rule copyable_struct [where part = "\<lambda>x. (gml_ListMeta x, gml_Items x)" and f = "\<lambda>x v. v" and
          build = "\<lambda>x s. x\<lparr>gml_ListMeta := fst s, gml_Items := snd s\<rparr>",
          OF copyable_pair [OF copy_lawsD(3) [OF assms]
            copyable.copyable_deep_slice [OF machine_copyable [OF assms], of Machine_array]]])
      (auto simp: MachineList_DeepCopyInto_def pair_into_def split: prod.splits)
  then show ?thesis by (simp add: MachineList_at_def [abs_def] MachineList_addrs_def [abs_def] option.map_ident)
qed

definition MachineNodePoolList_at :: "memory \<Rightarrow> go_MachineNodePoolList \<Rightarrow> (ListMeta \<times> MachineNodePool list) option" where
  "MachineNodePoolList_at m x = pair_at ListMeta_at (slice_at MachineNodePool_array MachineNodePool_at) m (gpl_ListMeta x, gpl_Items x)"

definition MachineNodePoolList_addrs :: "memory \<Rightarrow> go_MachineNodePoolList \<Rightarrow> addr set" where
  "MachineNodePoolList_addrs m x = pair_addrs ListMeta_addrs (slice_addrs MachineNodePool_array MachineNodePool_addrs) m (gpl_ListMeta x, gpl_Items x)"

lemma pool_list_copyable:
  assumes "copy_laws L"
  shows "copyable MachineNodePoolList_at MachineNodePoolList_addrs (MachineNodePoolList_DeepCopyInto L)"
proof -
  have "copyable (\<lambda>m x. map_option (\<lambda>v. v) (pair_at ListMeta_at (slice_at MachineNodePool_array MachineNodePool_at) m (gpl_ListMeta x, gpl_Items x)))
      (\<lambda>m x. pair_addrs ListMeta_addrs (slice_addrs MachineNodePool_array MachineNodePool_addrs) m (gpl_ListMeta x, gpl_Items x))
      (MachineNodePoolList_DeepCopyInto L)"
    by (rule copyable_struct [where part = "\<lambda>x. (gpl_ListMeta x, gpl_Items x)" and f = "\<lambda>x v. v" and
          build = "\<lambda>x s. x\<lparr>gpl_ListMeta := fst s, gpl_Items := snd s\<rparr>",
          OF copyable_pair [OF copy_lawsD(3) [OF assms]
            copyable.copyable_deep_slice [OF pool_copyable [OF assms], of MachineNodePool_array]]])
      (auto simp: MachineNodePoolList_DeepCopyInto_def pair_into_def split: prod.splits)
  then show ?thesis by (simp add: MachineNodePoolList_at_def [abs_def] MachineNodePoolList_addrs_def [abs_def] option.map_ident)
qed

lemmas copies_isolated =
  copyable.deep_copy_isolated [OF machine_spec_copyable] copyable.deep_copy_isolated [OF machine_status_copyable]
  copyable.deep_copy_isolated [OF pool_copyable] copyable.deep_copy_isolated [OF machine_list_copyable]
  copyable.deep_copy_isolated [OF pool_list_copyable]

lemma Machine_at_parts:
  "Machine_at m x = Some v \<Longrightarrow> MachineSpec_at m (gm_Spec x) = Some (m_Spec v) \<and>
     MachineStatus_at m (gm_Status x) = Some (m_Status v)"
  by (auto simp: Machine_at_def)

subsection \<open>The copies of the program\<close>

text \<open>
  C25: the copies that the Machine controller takes of a Machine's spec, of its status and of a
  MachineNodePool exist, stand for the same values as the originals, and keep them whatever is
  written into the originals afterwards; nor does a write into a copy reach the original. This
  includes the GPU behind its pointer, the numbers of all quantities, and the labels,
  annotations, deletion time, finalizers and owner references of the pool. Of the copy functions
  of the libraries it is assumed that they do the same for their own types.
\<close>

theorem controller_copies_isolated:
  assumes L: "copy_laws L" and wf: "wf_memory m"
    and x: "Machine_at m x = Some v" and p: "MachineNodePool_at m p = Some w"
  shows "(\<exists>s m'. MachineSpec_DeepCopy L (Some (gm_Spec x)) m = (Some s, m') \<and>
            isolated MachineSpec_at MachineSpec_addrs (m_Spec v) (gm_Spec x) s m') \<and>
         (\<exists>t m'. MachineStatus_DeepCopy L (Some (gm_Status x)) m = (Some t, m') \<and>
            isolated MachineStatus_at MachineStatus_addrs (m_Status v) (gm_Status x) t m') \<and>
         (\<exists>q m'. MachineNodePool_DeepCopy L (Some p) m = (Some q, m') \<and>
            isolated MachineNodePool_at MachineNodePool_addrs w p q m')"
  using Machine_at_parts [OF x] p copies_isolated (1-3) [OF L wf]
  by (simp add: MachineSpec_DeepCopy_def MachineStatus_DeepCopy_def MachineNodePool_DeepCopy_def)

text \<open>
  C26: \<open>DeepCopyObject\<close>, by which the library copies the lists it serves, returns a list of the same
  kind that stands for the same objects in the same order and is isolated from the original, down
  to the slices and pointers of every item, the maps and slices of its meta data and the pointers
  in its quantities; of a nil list it returns nil and allocates nothing.
\<close>

theorem object_copies_isolated:
  assumes L: "copy_laws L" and wf: "wf_memory m"
    and x: "MachineList_at m x = Some v" and p: "MachineNodePoolList_at m p = Some w"
  shows "(\<exists>y m'. MachineList_DeepCopyObject L (Some x) m = (Some (Obj_MachineList y), m') \<and>
            isolated MachineList_at MachineList_addrs v x y m') \<and>
         (\<exists>q m'. MachineNodePoolList_DeepCopyObject L (Some p) m = (Some (Obj_MachineNodePoolList q), m') \<and>
            isolated MachineNodePoolList_at MachineNodePoolList_addrs w p q m') \<and>
         MachineList_DeepCopyObject L None m = (None, m) \<and> MachineNodePoolList_DeepCopyObject L None m = (None, m)"
proof -
  obtain y m1 where y: "deep_copy (MachineList_DeepCopyInto L) (Some x) m = (Some y, m1)"
    "isolated MachineList_at MachineList_addrs v x y m1" using copies_isolated (4) [OF L wf x] by blast
  obtain q m2 where q: "deep_copy (MachineNodePoolList_DeepCopyInto L) (Some p) m = (Some q, m2)"
    "isolated MachineNodePoolList_at MachineNodePoolList_addrs w p q m2" using copies_isolated (5) [OF L wf p] by blast
  have none: "deep_copy into None m = (None, m)" for into :: "'c \<Rightarrow> memory \<Rightarrow> 'c \<times> memory"
    by (simp add: deep_copy_def)
  show ?thesis
    by (simp add: MachineList_DeepCopyObject_def MachineNodePoolList_DeepCopyObject_def copy_object_def
        MachineList_DeepCopy_def MachineNodePoolList_DeepCopy_def y q none)
qed

subsection \<open>Witnesses\<close>

text \<open>Copy functions as the libraries have them: every reference is copied, one after the other.\<close>

abbreviation flat_copy :: "'a \<Rightarrow> memory \<Rightarrow> 'a \<times> memory" where
  "flat_copy \<equiv> \<lambda>x m. (x, m)"

lemma flat_copyable: "copyable flat_at no_addrs flat_copy"
  using copyable_flat [where f = "\<lambda>x. x" and into = flat_copy] by simp

abbreviation meta_parts_copy where
  "meta_parts_copy \<equiv> pair_into (deep_copy_pointer Table_array flat_copy)
     (pair_into (deep_copy_pointer Table_array flat_copy)
       (pair_into (deep_copy_pointer Time_array flat_copy) (pair_into (copy_slice String_array) (copy_slice String_array))))"

definition demo_copy_env :: copy_env where
  "demo_copy_env = \<lparr>
     Quantity_DeepCopy = (\<lambda>q m. let (d, m) = deep_copy_pointer Dec_array flat_copy (gq_Dec q) m in (q\<lparr>gq_Dec := d\<rparr>, m)),
     ObjectMeta_DeepCopyInto = (\<lambda>x m. let ((ls, as, d, fs, os), m) = meta_parts_copy (meta_parts x) m in
       (x\<lparr>gom_Labels := ls, gom_Annotations := as, gom_DeletionTimestamp := d, gom_Finalizers := fs,
          gom_OwnerReferences := os\<rparr>, m)),
     ListMeta_DeepCopyInto = (\<lambda>x m. let (c, m) = deep_copy_pointer Count_array flat_copy (glm_RemainingItemCount x) m
       in (x\<lparr>glm_RemainingItemCount := c\<rparr>, m)),
     Condition_DeepCopyInto = flat_copy\<rparr>"

lemma demo_copy_laws [simp]: "copy_laws demo_copy_env"
proof -
  note pointer = copyable.copyable_deep_pointer [OF flat_copyable]
  have "copyable Quantity_at Quantity_addrs (Quantity_DeepCopy demo_copy_env)"
    unfolding Quantity_at_def [abs_def] Quantity_addrs_def [abs_def]
    by (rule copyable_struct [where build = "\<lambda>x d. x\<lparr>gq_Dec := d\<rparr>", OF pointer [of Dec_array]])
      (simp_all add: demo_copy_env_def split: option.split)
  moreover have "copyable ObjectMeta_at ObjectMeta_addrs (ObjectMeta_DeepCopyInto demo_copy_env)"
    unfolding ObjectMeta_at_def [abs_def] ObjectMeta_addrs_def [abs_def]
    by (rule copyable_struct [where part = meta_parts and build = "\<lambda>x (ls, as, d, fs, os). x\<lparr>gom_Labels := ls,
          gom_Annotations := as, gom_DeletionTimestamp := d, gom_Finalizers := fs, gom_OwnerReferences := os\<rparr>",
          OF copyable_pair [OF pointer copyable_pair [OF pointer copyable_pair [OF pointer
            copyable_pair [OF copyable_copy_slice copyable_copy_slice]]]]])
      (auto simp: demo_copy_env_def split: prod.splits)
  moreover have "copyable ListMeta_at ListMeta_addrs (ListMeta_DeepCopyInto demo_copy_env)"
    unfolding ListMeta_at_def [abs_def] ListMeta_addrs_def [abs_def]
    by (rule copyable_struct [where build = "\<lambda>x d. x\<lparr>glm_RemainingItemCount := d\<rparr>", OF pointer [of Count_array]])
      (simp_all add: demo_copy_env_def)
  moreover have "copyable flat_at no_addrs (Condition_DeepCopyInto demo_copy_env)"
    using flat_copyable by (simp add: demo_copy_env_def)
  ultimately show ?thesis by (simp add: copy_laws_def)
qed

text \<open>
  A Machine with labels and a finalizer, of one node and one type with a GPU whose number is behind a
  pointer, in a list of one; a pool of the same node.
\<close>

definition demo_meta :: "string \<Rightarrow> go_ObjectMeta" where
  "demo_meta name = zero_ObjectMeta\<lparr>gom_Name := name, gom_Labels := Some 8, gom_Finalizers := Slice 9 0 1\<rparr>"

definition demo_meta_value :: "string \<Rightarrow> ObjectMeta" where
  "demo_meta_value name = zero_meta\<lparr>Name := name, Labels := [''group'' \<mapsto> ''g''], Finalizers := [''fin'']\<rparr>"

definition demo_gpu :: go_GPUSpec where
  "demo_gpu = \<lparr>ggs_Type = ''nvidia.com/gpu'', ggs_Num = \<lparr>gq_i = Quantity [], gq_Dec = Some 7\<rparr>, ggs_Family = ''ampere'',
     ggs_Product = [], ggs_Machine = []\<rparr>"

definition demo_copy_machine :: go_Machine where
  "demo_copy_machine = \<lparr>gm_Meta = demo_meta ''m'',
     gm_Spec = \<lparr>gms_NodePool = Slice 0 0 1, gms_MachineTypes = Slice 2 0 1\<rparr>,
     gm_Status = \<lparr>gmst_Conditions = NilSlice, gmst_AvailableMachines = Slice 4 0 1\<rparr>\<rparr>"

definition demo_copy_pool :: go_MachineNodePool where
  "demo_copy_pool = \<lparr>gp_Meta = demo_meta ''p'',
     gp_Spec = \<lparr>gps_MachineGroupName = ''g'', gps_NodePool = Slice 0 0 1, gps_MachineTypeStock = NilSlice\<rparr>,
     gp_Status = \<lparr>gpst_Conditions = NilSlice, gpst_NodePoolCondition = NilSlice\<rparr>\<rparr>"

definition demo_quantity :: "string \<Rightarrow> go_Quantity" where
  "demo_quantity s = \<lparr>gq_i = Quantity s, gq_Dec = None\<rparr>"

definition demo_cells :: "addr \<Rightarrow> cell option" where
  "demo_cells = [0 \<mapsto> NodePools [zero_NodePool\<lparr>gnp_Name := ''n'', gnp_MachineType := Slice 1 0 1\<rparr>],
     1 \<mapsto> NodePoolMachineTypes [\<lparr>npmt_Name = ''a''\<rparr>],
     2 \<mapsto> MachineTypes [zero_MachineType\<lparr>gmt_Name := ''a'', gmt_Spec :=
            \<lparr>gds_CPU = demo_quantity ''4'', gds_Memory = demo_quantity ''8Gi'', gds_GPU = Some 3\<rparr>\<rparr>],
     3 \<mapsto> GPUSpecs [demo_gpu],
     4 \<mapsto> AvailableMachines [\<lparr>am_Name = ''a'', am_Usage = \<lparr>Maximum = 1, Reserved = 0, Used = 0, Waiting = 0\<rparr>\<rparr>],
     5 \<mapsto> Machines [demo_copy_machine], 6 \<mapsto> MachineNodePools [demo_copy_pool],
     7 \<mapsto> Decs [Quantity ''2''], 8 \<mapsto> Tables [[''group'' \<mapsto> ''g'']], 9 \<mapsto> Strings [''fin'']]"

definition demo_memory :: memory where
  "demo_memory = \<lparr>cells = demo_cells, next_addr = 10\<rparr>"

lemmas demo_copy_defs = demo_memory_def demo_cells_def demo_copy_machine_def demo_copy_pool_def
  zero_NodePool_def zero_MachineType_def demo_meta_def demo_gpu_def demo_quantity_def zero_ObjectMeta_def zero_Quantity_def

lemmas at_defs = Machine_at_def MachineSpec_at_def MachineStatus_at_def MachineType_at_def MachineDetailSpec_at_def
  NodePool_at_def MachineNodePool_at_def MachineNodePoolSpec_at_def MachineNodePoolStatus_at_def GPUSpec_at_def
  Quantity_at_def ObjectMeta_at_def table_of_def
  pair_at_def slice_at_def slice_elems_def pointer_at_def NodePool_array_def NodePoolMachineType_array_def MachineType_array_def
  Condition_array_def AvailableMachine_array_def Stock_array_def NodePoolCondition_array_def
  GPUSpec_array_def Dec_array_def Table_array_def Time_array_def String_array_def

lemma demo_memory_wf [simp]: "wf_memory demo_memory"
  by (simp add: wf_memory_def demo_memory_def demo_cells_def)

definition demo_machine_value :: Machine where
  "demo_machine_value = \<lparr>m_Meta = demo_meta_value ''m'',
     m_Spec = \<lparr>ms_NodePool = [\<lparr>np_Name = ''n'', np_Mode = [], np_Taint = False, np_MachineType = [\<lparr>npmt_Name = ''a''\<rparr>]\<rparr>],
       ms_MachineTypes = [\<lparr>mt_Name = ''a'', mt_Spec = \<lparr>CPU = Quantity ''4'', Memory = Quantity ''8Gi'',
         GPU = Some \<lparr>gpu_Type = ''nvidia.com/gpu'', gpu_Num = Quantity ''2'', gpu_Family = ''ampere'', gpu_Product = [],
           gpu_Machine = []\<rparr>\<rparr>, mt_Available = 0\<rparr>]\<rparr>,
     m_Status = \<lparr>mst_Conditions = [], mst_AvailableMachines =
       [\<lparr>am_Name = ''a'', am_Usage = \<lparr>Maximum = 1, Reserved = 0, Used = 0, Waiting = 0\<rparr>\<rparr>]\<rparr>\<rparr>"

definition demo_pool_value :: MachineNodePool where
  "demo_pool_value = \<lparr>p_Meta = demo_meta_value ''p'',
     p_Spec = \<lparr>mnp_MachineGroupName = ''g'', mnp_NodePool =
       [\<lparr>np_Name = ''n'', np_Mode = [], np_Taint = False, np_MachineType = [\<lparr>npmt_Name = ''a''\<rparr>]\<rparr>], mnp_MachineTypeStock = []\<rparr>,
     p_Status = \<lparr>mnps_Conditions = [], mnps_NodePoolCondition = []\<rparr>\<rparr>"

lemma demo_meta_at [simp]: "ObjectMeta_at demo_memory (demo_meta n) = Some (demo_meta_value n)"
  by (simp add: at_defs demo_copy_defs demo_meta_value_def zero_meta_def)

lemma demo_machine_at [simp]: "Machine_at demo_memory demo_copy_machine = Some demo_machine_value"
  by (simp add: at_defs demo_copy_defs demo_machine_value_def demo_meta_value_def zero_meta_def)

lemma demo_pool_at [simp]: "MachineNodePool_at demo_memory demo_copy_pool = Some demo_pool_value"
  by (simp add: at_defs demo_copy_defs demo_pool_value_def demo_meta_value_def zero_meta_def)

theorem controller_copies_isolated_witness:
  "\<exists>t m'. MachineStatus_DeepCopy demo_copy_env (Some (gm_Status demo_copy_machine)) demo_memory = (Some t, m') \<and>
     isolated MachineStatus_at MachineStatus_addrs (m_Status demo_machine_value) (gm_Status demo_copy_machine) t m'"
  using controller_copies_isolated [of demo_copy_env demo_memory demo_copy_machine demo_machine_value
      demo_copy_pool demo_pool_value] by simp

abbreviation demo_list_meta :: go_ListMeta where
  "demo_list_meta \<equiv> \<lparr>glm_ResourceVersion = ''7'', glm_Continue = [], glm_RemainingItemCount = None\<rparr>"

abbreviation demo_list_value :: ListMeta where
  "demo_list_value \<equiv> \<lparr>ResourceVersion = ''7'', Continue = [], RemainingItemCount = None\<rparr>"

lemma demo_lists_at:
  "MachineList_at demo_memory \<lparr>gml_ListMeta = demo_list_meta, gml_Items = Slice 5 0 1\<rparr> =
     Some (demo_list_value, [demo_machine_value])"
  "MachineNodePoolList_at demo_memory \<lparr>gpl_ListMeta = demo_list_meta, gpl_Items = Slice 6 0 1\<rparr> =
     Some (demo_list_value, [demo_pool_value])"
  using demo_machine_at demo_pool_at
  by (simp_all add: MachineList_at_def MachineNodePoolList_at_def ListMeta_at_def pointer_at_def pair_at_def
      slice_at_def slice_elems_def Machine_array_def MachineNodePool_array_def demo_memory_def demo_cells_def
      del: demo_machine_at demo_pool_at)

theorem object_copies_isolated_witness:
  "\<exists>y m'. MachineList_DeepCopyObject demo_copy_env
       (Some \<lparr>gml_ListMeta = demo_list_meta, gml_Items = Slice 5 0 1\<rparr>) demo_memory = (Some (Obj_MachineList y), m') \<and>
     isolated MachineList_at MachineList_addrs (demo_list_value, [demo_machine_value])
       \<lparr>gml_ListMeta = demo_list_meta, gml_Items = Slice 5 0 1\<rparr> y m'"
  using object_copies_isolated [OF demo_copy_laws demo_memory_wf demo_lists_at] by blast

end
