(* ===== verification/Spec2Isabelle.thy ===== *)
theory Spec2Isabelle
  imports NodePoolProps MachineProps InjectorProps WebhookProps NodeLifecycle NodeConvergence
    Scheduling Admission SystemFrame MachineConvergence SystemConvergence Capacity Reinjection Overbooking
    StartupProps DeepCopyProofs
begin

text \<open>
  A verification development of imperator, a Kubernetes operator that offers groups of Nodes as
  machine types: all Go code under \<open>src/pkg\<close> and \<open>src/cmd\<close> that is not a test.

  \<^bold>\<open>The program.\<close> A \<open>Machine\<close> lists Nodes and machine types of one machine group. The Machine webhook
  admits it. The Machine controller makes a \<open>MachineNodePool\<close> of it, a \<open>StatefulSet\<close> of sleeping
  reservation Pods and a \<open>Service\<close> per machine type, and counts Pods in the status. The node pool
  controller writes labels, taints and an annotation on the Nodes of the pool and reports their
  condition. The Pod resource injector edits a guest Pod so that it takes the place of a reservation
  Pod. The components share no memory: they meet in the objects of the API server.

  \<^bold>\<open>How code appears.\<close> A handler is an action \<open>'w \<Rightarrow> 'a gores \<times> 'w\<close> on a world \<open>'w\<close>; a returned Go
  error is \<open>Inl\<close>, a run-time panic is \<open>Panic\<close>, an early return a branch. Loops are recursions on the
  list they range over, except the two that delete from the slice they range over, which work on a
  slice with its backing array and a counter fixed at the start, as Go evaluates them
  (\<open>removeStatusTaint_loop\<close>, \<open>dedupTerm_loop\<close>). \<open>int32\<close> is a 32-bit word. No function needs fuel: all
  loops of the program are bounded by a list, so every definition is total. Requests to services
  and library calls are fields of environment records (theories \<open>Client\<close> and \<open>Startup\<close>, \<open>copy_env\<close> in
  \<open>DeepCopy\<close>), and what a property needs of them is a named predicate of documented behaviour:
  \<open>cmp_laws\<close>, \<open>node_api\<close>, \<open>create_or_update_api\<close>, \<open>pod_list_api\<close>, \<open>mergo_laws\<close>, \<open>owner_laws\<close> and so on. \<open>Cluster\<close>
  is one in-memory instance of them, in which the witnesses run.

  \<^bold>\<open>Theories and sources.\<close>
  \<^item> \<open>Prelude\<close>: errors, panics, actions, maps, slices; the locales \<open>abort_loop\<close> (a loop that stops at the
    first error) and \<open>first_match\<close> (a search loop), interpreted on every such loop of the program.
  \<^item> \<open>Consts\<close>: \<open>pkg/consts\<close>. \<open>ApiTypes\<close>: the types of \<open>pkg/api/v1alpha1\<close> and the fields used of
    Kubernetes types. \<open>Affinity\<close>: \<open>affinity.go\<close>. \<open>Util\<close>: \<open>pkg/controllers/util\<close>.
  \<^item> \<open>Client\<close>: the environments and their laws; \<open>Cluster\<close>: the instance.
  \<^item> \<open>NodePoolController\<close>: \<open>machinenodepool_controller.go\<close>. Lemmas: \<open>NodeEdits\<close> (one Node's labels and
    taints), \<open>NodePoolProofs\<close> (\<open>reconcileNode\<close> refines the specification \<open>prepared\<close>), \<open>NodeCleanup\<close>
    (deletion, status, event filter). Properties: \<open>NodePoolProps\<close>, \<open>NodeLifecycle\<close> (round trip of a Node
    through a pool), \<open>NodeConvergence\<close> (repeated runs come to rest).
  \<^item> \<open>MachineController\<close>: \<open>machine_controller.go\<close> and \<open>controller_utils.go\<close>. Lemmas: \<open>MachineFrames\<close> (what each
    stage leaves alone), \<open>MachineProofs\<close> (locales \<open>pod_counter\<close> and \<open>object_edit\<close>: the counters and the
    idempotent edits given to \<open>CreateOrUpdate\<close>), \<open>MachineStages\<close> (what the stages store), \<open>MachineStatus\<close>
    (the counts), \<open>MachineRuns\<close> (one successful run), \<open>MachineRest\<close> (repeated runs). Properties:
    \<open>MachineProps\<close>, \<open>MachineConvergence\<close> (repeated runs come to rest), \<open>Capacity\<close> (at rest reservations
    and guests fill the maximum; what is left of a machine type that was removed).
  \<^item> \<open>MachineWebhook\<close>: \<open>machine_webhook.go\<close>. Properties: \<open>WebhookProps\<close> (equivalence with a declarative
    specification).
  \<^item> \<open>PodInjector\<close>: \<open>pod_resource_injector.go\<close>. Lemmas: \<open>Dedup\<close> (the loop that removes repeated
    expressions computes \<open>thinned\<close>, a function of the list alone), \<open>InjectorProofs\<close> (the handler
    computes \<open>injected_pod\<close>). Properties: \<open>InjectorProps\<close>, \<open>Overbooking\<close> (guests that arrive between two status updates).
  \<^item> \<open>Scheduling\<close>: the components composed. What one writes on Nodes is what the others ask for; an
    admitted Machine reaches its Nodes. \<open>Reinjection\<close>: a Pod that is injected twice.
  \<^item> \<open>Admission\<close>: the whole program as a step relation in which webhooks, both controllers and the API
    server act in any order; the invariant that no two Machines share a group, and the race
    that breaks it when admissions overlap. \<open>SystemFrame\<close>: what that relation never changes on a Node
    (locale \<open>evolution\<close>: actions that move the world along a preorder).
  \<^item> \<open>SystemConvergence\<close>: both controllers on one Machine and its pool, in any order of runs: together they
    come to rest.
  \<^item> \<open>Startup\<close>: \<open>main.go\<close>, \<open>pkg/version\<close>, \<open>groupversion_info.go\<close> and the \<open>SetupWithManager\<close> functions;
    \<open>StartupProps\<close>: nothing runs before everything is registered, and the flags have no effect.
  \<^item> \<open>DeepCopy\<close>: \<open>zz_generated.deepcopy.go\<close> on a memory of addresses; \<open>CopyLaws\<close>: the contract of a deep
    copy as the locale \<open>copyable\<close>, closed under structs, pointers and slices; \<open>DeepCopyProofs\<close>: every
    generated copy fulfils it, so copies are isolated from their originals, their meta data and
    quantities included. Of the copies of library types (\<open>ObjectMeta\<close>, \<open>ListMeta\<close>, \<open>Quantity\<close>, \<open>Condition\<close>)
    the same contract is assumed (\<open>copy_laws\<close>). The other theories rely on
    this where they treat a copied object as a value.
\<close>

text \<open>
  \<^bold>\<open>What the properties show.\<close> Functional correctness: what each handler stores, returns or answers on
  every branch, against specifications without its loops (\<open>prepared\<close>, \<open>cleaned\<close>, \<open>injected_pod\<close>, \<open>spec_valid\<close>).
  Safety and frames: Nodes, labels and taints of others survive every run whatever fails; the
  finalizer guards the Nodes; a well-formed guest is admitted exactly when its type counts a
  reservation. Termination and liveness: the repeated runs of each controller come to rest, and so
  do the runs of both in any order; the events of a Node reach its pool. Errors: the exact
  conditions of the panics. Bounds: the replica count at 32 bits, and at rest the conservation of
  the capacity of a machine type. Composition: \<open>Scheduling\<close>, \<open>Admission\<close>, \<open>SystemFrame\<close> and
  \<open>SystemConvergence\<close>.

  Some theorems state what the code does where that is likely not what was meant: a cleanup
  stops at the first Node that is gone or clean (\<open>cleanupNode_exact\<close>), duplicate status taints
  crash the controller (\<open>reconcileNode_panics_iff\<close>), a lost annotation is not repaired
  (\<open>reconcileNode_quiet\<close>), a tainted Node is written by every run (\<open>tainted_node_rewritten\<close>, why the
  convergence theorems ask for pools without taints), the webhook admits duplicate Nodes
  (\<open>admission_gaps\<close>, a computed example), a group that is refused once it is taken is shared by
  admissions that overlap (\<open>overlapping_admissions_collide\<close>), the injector deletes expressions of the
  guest that only look repeated (\<open>dedup_in_place\<close>, \<open>requirement_lost\<close>), defaulting a stored Machine doubles
  its usage entries (\<open>default_usage\<close>), a second injection lets a Pod leave its group
  (\<open>reinjection_leaves_group\<close>), one counted reservation admits any number of guests until the next
  status update (\<open>status_lag_overbooks\<close>), a removed machine type keeps its reservations
  (\<open>removed_type_leaks\<close>), and the command line is never parsed
  (\<open>flags_have_no_effect\<close>).

  \<^bold>\<open>Assumptions on the library.\<close> Calls may fail at any time unless a property asks for an API server
  that does not fail (\<open>node_api_total\<close>, \<open>machine_api_live\<close>). One handler runs at a time, which is how the library runs
  the handlers of one controller by default; between two runs anything may happen. Objects read are those stored:
  the delay of the informer cache and write conflicts appear as failing calls only. The API server
  stores the modelled fields as sent. It reports an update when one of them changes; a cluster that
  fills in other fields of StatefulSets and Services reports one in every run, which the convergence
  theorems leave out.

  \<^bold>\<open>Not modelled.\<close> Log output and the diffs computed for it alone; \<open>TypeMeta\<close>, JSON field names and
  the markers from which manifests are generated; the decoding of a request (the injector's
  decoder is a parameter). A nil map or slice is the empty one, which the program distinguishes only before
  it assigns to it, where the code makes it; the theory \<open>DeepCopy\<close> keeps nil slices apart. The options
  of go-cmp only sort lists of int, none of which is compared, and so are part of the parameter.
  The import blocks, licences and the commented-out replacement of Pods are no code.
\<close>

end
